(* ===== verification/Noxy_Prelude.thy ===== *)
theory Noxy_Prelude
  imports Complex_Main "HOL-Library.AList" "HOL-Library.Word"
begin

text \<open>
  Shared vocabulary of the development: errors and panics as values, the
  \<^verbatim>\<open>?\<close> operator, \<^verbatim>\<open>std::sync::Mutex\<close> with poisoning, clock readings and
  durations, the part of \<^verbatim>\<open>f64\<close> arithmetic the code relies on, and the
  operations on \<^verbatim>\<open>HashMap\<close> (\<open>retain\<close>, \<open>entry\<close>, \<open>min_by_key\<close>) that the keyed
  stores share.

  Conventions.
  \<^item> \<^verbatim>\<open>Instant\<close> is an integer number of nanoseconds, \<^verbatim>\<open>Duration\<close> a natural number
    of nanoseconds.  A call of \<^verbatim>\<open>Instant::now()\<close> is an argument of the definition
    that makes it, one argument per call.  Instants stay inside the range of
    \<^verbatim>\<open>std::time::Instant\<close> (signed 64-bit seconds), so adding a duration does not
    overflow.
  \<^item> \<^verbatim>\<open>f64\<close> values are exact reals; a division whose IEEE result is not finite is
    \<open>None\<close>.
  \<^item> A \<^verbatim>\<open>HashMap\<close> is an association list with distinct keys.  The order of the list
    is the iteration order, which the program does not control, so no property
    fixes it.
\<close>

section \<open>Errors, panics and the question mark operator\<close>

datatype rust_error = Box_Error string | Panicked string

type_synonym 'a result = "rust_error + 'a"

definition and_then :: "'e + 'a \<Rightarrow> ('a \<Rightarrow> 'e + 'b) \<Rightarrow> 'e + 'b" where
  "and_then r f = (case r of Inl e \<Rightarrow> Inl e | Inr a \<Rightarrow> f a)"

lemma and_then_simps [simp]:
  "and_then (Inl e) f = Inl e"
  "and_then (Inr a) f = f a"
  by (simp_all add: and_then_def)

lemma and_then_Inr_iff:
  "and_then r f = Inr b \<longleftrightarrow> (\<exists>a. r = Inr a \<and> f a = Inr b)"
  by (cases r) simp_all

definition ok_or :: "'e \<Rightarrow> 'a option \<Rightarrow> 'e + 'a" where
  "ok_or e x = (case x of None \<Rightarrow> Inl e | Some a \<Rightarrow> Inr a)"

lemma ok_or_simps [simp]:
  "ok_or e None = Inl e"
  "ok_or e (Some a) = Inr a"
  by (simp_all add: ok_or_def)

text \<open>\<open>iter().map(f).collect::<Result<Vec<_>, _>>()\<close>: the first error wins.\<close>

fun collect_results :: "('a \<Rightarrow> 'e + 'b) \<Rightarrow> 'a list \<Rightarrow> 'e + 'b list" where
  "collect_results f [] = Inr []"
| "collect_results f (x # xs) =
     and_then (f x) (\<lambda>y. and_then (collect_results f xs) (\<lambda>ys. Inr (y # ys)))"

lemma collect_results_Inr:
  "collect_results f xs = Inr ys \<longleftrightarrow> list_all2 (\<lambda>x y. f x = Inr y) xs ys"
  by (induction xs arbitrary: ys)
     (auto simp: and_then_Inr_iff list_all2_Cons1)

section \<open>Mutexes\<close>

text \<open>
  A closure that panics while it holds the lock poisons the mutex, and every later
  \<^verbatim>\<open>lock().unwrap()\<close> panics.
\<close>

datatype 's mutex = Unlocked 's | Poisoned

fun with_lock :: "('s \<Rightarrow> ('a \<times> 's) result) \<Rightarrow> 's mutex \<Rightarrow> 'a result \<times> 's mutex" where
  "with_lock f Poisoned = (Inl (Panicked ''PoisonError''), Poisoned)"
| "with_lock f (Unlocked s) =
     (case f s of
        Inl e \<Rightarrow> (Inl e, Poisoned)
      | Inr (a, s') \<Rightarrow> (Inr a, Unlocked s'))"

lemma with_lock_Inr:
  "with_lock f m = (Inr a, m') \<longleftrightarrow>
     (\<exists>s s'. m = Unlocked s \<and> f s = Inr (a, s') \<and> m' = Unlocked s')"
  by (cases m) (auto split: sum.splits prod.splits)

section \<open>Clock readings and durations\<close>

type_synonym instant = int
type_synonym duration = nat

abbreviation (input) nanos_per_sec :: nat where
  "nanos_per_sec \<equiv> 1000000000"

definition from_secs :: "nat \<Rightarrow> duration" where
  "from_secs s = s * nanos_per_sec"

definition from_millis :: "nat \<Rightarrow> duration" where
  "from_millis ms = ms * 1000000"

definition as_millis :: "duration \<Rightarrow> nat" where
  "as_millis d = d div 1000000"

definition as_secs_f64 :: "duration \<Rightarrow> real" where
  "as_secs_f64 d = real d / 1000000000"

text \<open>Both \<^verbatim>\<open>duration_since\<close> and \<^verbatim>\<open>saturating_duration_since\<close> give zero for an
  earlier first argument.\<close>

definition duration_since :: "instant \<Rightarrow> instant \<Rightarrow> duration" where
  "duration_since now earlier = nat (now - earlier)"

text \<open>\<^verbatim>\<open>Duration - Duration\<close> panics when the result would be negative.\<close>

definition duration_sub :: "duration \<Rightarrow> duration \<Rightarrow> duration result" where
  "duration_sub a b = (if b \<le> a then Inr (a - b)
     else Inl (Panicked ''overflow when subtracting durations''))"

definition duration_max :: duration where
  "duration_max = (2 ^ 64 - 1) * nanos_per_sec + 999999999"

definition saturating_mul :: "duration \<Rightarrow> nat \<Rightarrow> duration" where
  "saturating_mul d n = min (d * n) duration_max"

lemma as_secs_f64_nonneg [simp]: "0 \<le> as_secs_f64 d"
  by (simp add: as_secs_f64_def)

lemma duration_since_self [simp]: "duration_since t t = 0"
  by (simp add: duration_since_def)

lemma int_duration_since: "earlier \<le> now \<Longrightarrow> int (duration_since now earlier) = now - earlier"
  by (simp add: duration_since_def)

section \<open>Floating point\<close>

definition f64_div :: "real \<Rightarrow> real \<Rightarrow> real option" where
  "f64_div a b = (if b = 0 then None else Some (a / b))"

definition round_half_even :: "real \<Rightarrow> int" where
  "round_half_even x =
     (let f = \<lfloor>x\<rfloor>; r = x - of_int f
      in if r < 1 / 2 then f
         else if 1 / 2 < r then f + 1
         else if even f then f else f + 1)"

text \<open>\<^verbatim>\<open>Duration::from_secs_f64\<close> rounds to the nearest nanosecond and panics on a
  negative, non-finite or too large argument.\<close>

definition from_secs_f64 :: "real option \<Rightarrow> duration result" where
  "from_secs_f64 x =
     (case x of
        None \<Rightarrow> Inl (Panicked ''cannot convert float seconds to Duration'')
      | Some s \<Rightarrow>
          (if s < 0 \<or> 2 ^ 64 * 1000000000 \<le> round_half_even (s * 1000000000)
           then Inl (Panicked ''cannot convert float seconds to Duration'')
           else Inr (nat (round_half_even (s * 1000000000)))))"

lemma round_half_even_bounds:
  "x - 1 / 2 \<le> of_int (round_half_even x)" "of_int (round_half_even x) \<le> x + 1 / 2"
  unfolding round_half_even_def Let_def
  by (auto split: if_splits) linarith+

lemma round_half_even_of_int [simp]: "round_half_even (of_int z) = z"
  by (simp add: round_half_even_def)

lemma from_secs_f64_close:
  assumes "from_secs_f64 (Some s) = Inr d"
  shows "\<bar>real d - s * 1000000000\<bar> \<le> 1 / 2"
proof -
  have s: "0 \<le> s" and d: "d = nat (round_half_even (s * 1000000000))"
    using assms by (auto simp: from_secs_f64_def split: if_splits)
  have "0 \<le> \<lfloor>s * 1000000000\<rfloor>" using s by simp
  then have "0 \<le> round_half_even (s * 1000000000)"
    unfolding round_half_even_def Let_def by (auto split: if_splits)
  then have "real d = of_int (round_half_even (s * 1000000000))"
    using d by simp
  then show ?thesis
    using round_half_even_bounds [of "s * 1000000000"] by linarith
qed

section \<open>Machine integers\<close>

text \<open>
  Addition of two \<^verbatim>\<open>u64\<close>: a panic when the build has overflow checks, wrap-around when it
  has not.
\<close>

definition u64_add :: "bool \<Rightarrow> nat \<Rightarrow> nat \<Rightarrow> nat result" where
  "u64_add overflow_checks a b =
     (if a + b < 2 ^ 64 then Inr (a + b)
      else if overflow_checks then Inl (Panicked ''attempt to add with overflow'')
      else Inr ((a + b) mod 2 ^ 64))"

section \<open>Hash maps\<close>

definition retain :: "('k \<Rightarrow> 'v \<Rightarrow> bool) \<Rightarrow> ('k \<times> 'v) list \<Rightarrow> ('k \<times> 'v) list" where
  "retain p m = filter (\<lambda>(k, v). p k v) m"

definition contains_key :: "('k \<times> 'v) list \<Rightarrow> 'k \<Rightarrow> bool" where
  "contains_key m k = (map_of m k \<noteq> None)"

text \<open>\<open>entry(k).or_insert_with(v)\<close> as the value found or inserted.\<close>

definition entry_or_insert :: "('k \<times> 'v) list \<Rightarrow> 'k \<Rightarrow> 'v \<Rightarrow> 'v" where
  "entry_or_insert m k v = (case map_of m k of Some e \<Rightarrow> e | None \<Rightarrow> v)"

text \<open>\<open>Iterator::min_by_key\<close>: the first element with the least key.\<close>

fun min_by_key :: "('a \<Rightarrow> 'b::linorder) \<Rightarrow> 'a list \<Rightarrow> 'a option" where
  "min_by_key f [] = None"
| "min_by_key f (x # xs) =
     (case min_by_key f xs of
        None \<Rightarrow> Some x
      | Some y \<Rightarrow> if f x \<le> f y then Some x else Some y)"

lemma min_by_key_None [simp]: "min_by_key f xs = None \<longleftrightarrow> xs = []"
  by (cases xs) (auto split: option.splits)

lemma min_by_key_in_set: "min_by_key f xs = Some x \<Longrightarrow> x \<in> set xs"
  by (induction xs arbitrary: x) (auto split: option.splits if_splits)

lemma min_by_key_least: "min_by_key f xs = Some x \<Longrightarrow> y \<in> set xs \<Longrightarrow> f x \<le> f y"
  by (induction xs arbitrary: x y) (fastforce split: option.splits if_splits)+

lemma contains_key_iff: "contains_key m k \<longleftrightarrow> k \<in> fst ` set m"
  by (simp add: contains_key_def map_of_eq_None_iff del: not_None_eq)

lemma entry_or_insert_simps [simp]:
  "map_of m k = Some e \<Longrightarrow> entry_or_insert m k v = e"
  "map_of m k = None \<Longrightarrow> entry_or_insert m k v = v"
  by (simp_all add: entry_or_insert_def)

lemma set_retain [simp]: "set (retain p m) = {(k, v). (k, v) \<in> set m \<and> p k v}"
  by (auto simp: retain_def)

lemma length_retain_le: "length (retain p m) \<le> length m"
  by (simp add: retain_def)

lemma distinct_retain: "distinct (map fst m) \<Longrightarrow> distinct (map fst (retain p m))"
  by (simp add: retain_def distinct_map_filter)

lemma map_of_SomeI:
  "distinct (map fst m) \<Longrightarrow> (k, v) \<in> set m \<Longrightarrow> map_of m k = Some v"
  by simp

lemma set_AList_delete: "set (AList.delete k m) = {(k', v). (k', v) \<in> set m \<and> k' \<noteq> k}"
  by (auto simp: AList.delete_eq)

lemma length_AList_delete_less:
  "k \<in> fst ` set m \<Longrightarrow> length (AList.delete k m) < length m"
  by (induction m) (auto simp: AList.delete_eq le_imp_less_Suc)

lemma length_AList_update:
  "length (AList.update k v m) = (if k \<in> fst ` set m then length m else Suc (length m))"
  by (induction m) auto

lemma set_AList_update: "set (AList.update k v m) \<subseteq> insert (k, v) (set m)"
  by (induction m) auto

end
