(* ===== verification/Keyed_Store.thy ===== *)
theory Keyed_Store
  imports Noxy_Prelude
begin

text \<open>
  The contract the three in-memory stores of \<^verbatim>\<open>src/src/middleware\<close> share
  (\<^verbatim>\<open>rate_limiter.rs\<close>, \<^verbatim>\<open>sliding_window.rs\<close>, \<^verbatim>\<open>circuit_breaker.rs\<close>).  Each keeps one
  entry per key, drops idle entries on a timer (\<open>maybe_cleanup\<close>), makes room for a
  new key by removing the entry seen longest ago (\<open>evict_if_needed\<close>), and then
  finds or creates the entry of the key it was called for.

  The locale \<open>keyed_store\<close> states what clean-up and eviction promise, \<open>aged_store\<close> how the
  three stores keep that promise, and \<open>keyed_machine\<close> what one whole access does: the store is
  a family of independent machines, one per key (\<open>trace_refines\<close>).  The lemmas proved here, once,
  are the guarantees the comments of the code call the soft cap and the preservation of
  active keys.
\<close>

section \<open>Clean-up and eviction\<close>

text \<open>The body every \<open>evict_if_needed\<close> shares: nothing while there is room or the key
  is known, otherwise the expired entry that was seen first goes.\<close>

definition evict_oldest ::
  "('e \<Rightarrow> bool) \<Rightarrow> ('e \<Rightarrow> instant) \<Rightarrow> nat \<Rightarrow> string \<Rightarrow> (string \<times> 'e) list \<Rightarrow> (string \<times> 'e) list"
where
  "evict_oldest expired last_seen cap key m =
     (if contains_key m key \<or> length m < cap then m
      else (case min_by_key (\<lambda>(_, e). last_seen e) (filter (\<lambda>(_, e). expired e) m) of
              None \<Rightarrow> m
            | Some (k, _) \<Rightarrow> AList.delete k m))"

lemma evict_oldest_subset: "set (evict_oldest x ls cap k m) \<subseteq> set m"
  by (auto simp: evict_oldest_def set_AList_delete split: option.splits)

lemma evict_oldest_distinct:
  "distinct (map fst m) \<Longrightarrow> distinct (map fst (evict_oldest x ls cap k m))"
  by (auto simp: evict_oldest_def split: option.splits intro: distinct_delete)

lemma evict_oldest_keeps_live:
  assumes "distinct (map fst m)" "(k', e) \<in> set m" "\<not> x e"
  shows "(k', e) \<in> set (evict_oldest x ls cap k m)"
proof (cases "min_by_key (\<lambda>(_, e). ls e) (filter (\<lambda>(_, e). x e) m)")
  case None
  then show ?thesis using assms by (simp add: evict_oldest_def)
next
  case (Some v)
  obtain kv ev where v: "v = (kv, ev)" by fastforce
  have mem: "(kv, ev) \<in> set m" and xev: "x ev"
    using min_by_key_in_set [OF Some] v by auto
  have "kv \<noteq> k'"
    using mem xev assms map_of_SomeI [OF assms(1)] by fastforce
  then show ?thesis
    using assms Some v by (auto simp: evict_oldest_def set_AList_delete)
qed

lemma evict_oldest_keeps_key:
  "(k, e) \<in> set m \<Longrightarrow> (k, e) \<in> set (evict_oldest x ls cap k m)"
  by (force simp: evict_oldest_def contains_key_iff)

lemma evict_oldest_room:
  assumes "k \<notin> fst ` set m" "cap \<le> length m" "(k', e) \<in> set m" "x e"
  shows "length (evict_oldest x ls cap k m) < length m"
proof -
  obtain kv ev where
    some: "min_by_key (\<lambda>(_, e). ls e) (filter (\<lambda>(_, e). x e) m) = Some (kv, ev)"
    using assms(3,4) by (cases "min_by_key (\<lambda>(_, e). ls e) (filter (\<lambda>(_, e). x e) m)")
      (auto simp: filter_empty_conv)
  then have "kv \<in> fst ` set m"
    by (force dest: min_by_key_in_set)
  then show ?thesis
    using assms some
    by (simp add: evict_oldest_def contains_key_iff length_AList_delete_less)
qed

lemma evict_oldest_length: "length (evict_oldest x ls cap k m) \<le> length m"
  by (auto simp: evict_oldest_def length_delete_le split: option.splits)

lemma evict_oldest_removed_is_oldest:
  assumes "(k', e) \<in> set m" "(k', e) \<notin> set (evict_oldest x ls cap k m)"
    and "(j, f) \<in> set m" "x f" "distinct (map fst m)"
  shows "x e \<and> ls e \<le> ls f"
proof -
  obtain kv ev where
    some: "min_by_key (\<lambda>(_, e). ls e) (filter (\<lambda>(_, e). x e) m) = Some (kv, ev)"
    and gone: "(k', e) \<notin> set (AList.delete kv m)"
    using assms(1,2) by (auto simp: evict_oldest_def split: option.splits if_splits)
  have ev: "(kv, ev) \<in> set m" "x ev"
    using min_by_key_in_set [OF some] by auto
  have "kv = k'" using gone assms(1) by (auto simp: set_AList_delete)
  then have "ev = e"
    using ev(1) assms(1) eq_key_imp_eq_value [OF assms(5)] by blast
  moreover have "ls ev \<le> ls f"
    using min_by_key_least [OF some, of "(j, f)"] assms(3,4) by simp
  ultimately show ?thesis using ev by simp
qed

lemmas evict_oldest_facts =
  evict_oldest_distinct evict_oldest_keeps_live evict_oldest_keeps_key
  evict_oldest_room evict_oldest_length

section \<open>The interface\<close>

locale keyed_store =
  fixes entries :: "'s \<Rightarrow> (string \<times> 'e) list"
    and live :: "'s \<Rightarrow> instant \<Rightarrow> 'e \<Rightarrow> bool"
    and cap :: "'s \<Rightarrow> nat"
    and cleanup :: "instant \<Rightarrow> 's \<Rightarrow> 's"
    and evict :: "string \<Rightarrow> instant \<Rightarrow> 's \<Rightarrow> 's"
  assumes cleanup_subset: "set (entries (cleanup now s)) \<subseteq> set (entries s)"
    and cleanup_live: "kv \<in> set (entries s) \<Longrightarrow> live s now (snd kv) \<Longrightarrow>
          kv \<in> set (entries (cleanup now s))"
    and cleanup_distinct: "distinct (map fst (entries s)) \<Longrightarrow>
          distinct (map fst (entries (cleanup now s)))"
    and cleanup_length: "length (entries (cleanup now s)) \<le> length (entries s)"
    and cleanup_policy: "live (cleanup now s) = live s" "cap (cleanup now s) = cap s"
    and evict_subset: "set (entries (evict k now s)) \<subseteq> set (entries s)"
    and evict_live: "distinct (map fst (entries s)) \<Longrightarrow> kv \<in> set (entries s) \<Longrightarrow>
          live s now (snd kv) \<Longrightarrow> kv \<in> set (entries (evict k now s))"
    and evict_key: "(k, e) \<in> set (entries s) \<Longrightarrow> (k, e) \<in> set (entries (evict k now s))"
    and evict_distinct: "distinct (map fst (entries s)) \<Longrightarrow>
          distinct (map fst (entries (evict k now s)))"
    and evict_length: "length (entries (evict k now s)) \<le> length (entries s)"
    and evict_room: "k \<notin> fst ` set (entries s) \<Longrightarrow> cap s \<le> length (entries s) \<Longrightarrow>
          kv \<in> set (entries s) \<Longrightarrow> \<not> live s now (snd kv) \<Longrightarrow>
          length (entries (evict k now s)) < length (entries s)"
    and evict_policy: "live (evict k now s) = live s" "cap (evict k now s) = cap s"
begin

lemma prepare_subset: "set (entries (evict k now (cleanup now s))) \<subseteq> set (entries s)"
  using cleanup_subset evict_subset by blast

lemma prepare_distinct:
  "distinct (map fst (entries s)) \<Longrightarrow>
   distinct (map fst (entries (evict k now (cleanup now s))))"
  by (intro evict_distinct cleanup_distinct)

lemma prepare_live:
  assumes "distinct (map fst (entries s))" "(k', e) \<in> set (entries s)" "live s now e"
  shows "(k', e) \<in> set (entries (evict k now (cleanup now s)))"
  using assms cleanup_live [of "(k', e)" s now]
  by (intro evict_live cleanup_distinct) (auto simp: cleanup_policy)

lemma prepare_length:
  "length (entries (evict k now (cleanup now s))) \<le> length (entries s)"
  using cleanup_length evict_length order_trans by blast

text \<open>Room for one more key, or every remaining entry is live.\<close>

lemma prepare_soft_cap:
  assumes "k \<notin> fst ` set (entries (evict k now (cleanup now s)))"
  shows "Suc (length (entries (evict k now (cleanup now s)))) \<le> max (cap s) (length (entries s))
    \<or> (\<forall>kv \<in> set (entries (evict k now (cleanup now s))). live s now (snd kv))"
proof -
  define t where "t = cleanup now s"
  have len: "length (entries t) \<le> length (entries s)" unfolding t_def by (rule cleanup_length)
  have pol: "live t = live s" "cap t = cap s" unfolding t_def by (simp_all add: cleanup_policy)
  have k: "k \<notin> fst ` set (entries t)"
    using assms evict_key unfolding t_def [symmetric] by fastforce
  show ?thesis unfolding t_def [symmetric]
  proof (cases "length (entries t) < cap t")
    case True
    then show "Suc (length (entries (evict k now t))) \<le> max (cap s) (length (entries s))
        \<or> (\<forall>kv \<in> set (entries (evict k now t)). live s now (snd kv))"
      using evict_length [of k now t] pol by auto
  next
    case False
    show "Suc (length (entries (evict k now t))) \<le> max (cap s) (length (entries s))
        \<or> (\<forall>kv \<in> set (entries (evict k now t)). live s now (snd kv))"
    proof (cases "\<forall>kv \<in> set (entries t). live s now (snd kv)")
      case True
      then show ?thesis using evict_subset [of k now t] by blast
    next
      case nlive: False
      then have "length (entries (evict k now t)) < length (entries t)"
        using evict_room [OF k] False pol by fastforce
      then show ?thesis using len by auto
    qed
  qed
qed

end

section \<open>Traces\<close>

text \<open>
  A store under traffic for many keys, and one entry under the traffic for its own key.
  \<open>access\<close> is one locked operation of the store, \<open>None\<close> when it panics; \<open>step\<close> is what that
  operation does to one entry (\<open>None\<close> when the key is unknown).
\<close>

fun keyed_trace ::
  "('op \<Rightarrow> string \<Rightarrow> 's \<Rightarrow> ('r \<times> 's) option) \<Rightarrow> 's \<Rightarrow> ('op \<times> string) list \<Rightarrow> ((string \<times> 'r) list \<times> 's) option"
where
  "keyed_trace access s [] = Some ([], s)"
| "keyed_trace access s ((a, k) # ops) =
     (case access a k s of
        None \<Rightarrow> None
      | Some (r, s') \<Rightarrow> map_option (\<lambda>(rs, t). ((k, r) # rs, t)) (keyed_trace access s' ops))"

fun entry_run :: "('op \<Rightarrow> 'e option \<Rightarrow> ('r \<times> 'e) option) \<Rightarrow> 'e option \<Rightarrow> 'op list \<Rightarrow> 'r list option" where
  "entry_run step e [] = Some []"
| "entry_run step e (a # as) =
     (case step a e of
        None \<Rightarrow> None
      | Some (r, e') \<Rightarrow> map_option ((#) r) (entry_run step (Some e') as))"

text \<open>No operation, up to the last one for \<open>k\<close>, finds the entry of \<open>k\<close> expired.\<close>

fun stays_live ::
  "(instant \<Rightarrow> 'e \<Rightarrow> bool) \<Rightarrow> ('op \<Rightarrow> instant) \<Rightarrow> ('op \<Rightarrow> 'e option \<Rightarrow> ('r \<times> 'e) option) \<Rightarrow>
   string \<Rightarrow> 'e option \<Rightarrow> ('op \<times> string) list \<Rightarrow> bool"
where
  "stays_live lv clock step k e [] = True"
| "stays_live lv clock step k e ((a, k') # ops) =
     ((k \<in> set (k' # map snd ops) \<longrightarrow> (case e of None \<Rightarrow> True | Some x \<Rightarrow> lv (clock a) x)) \<and>
      stays_live lv clock step k
        (if k' = k then map_option snd (step a e) else e) ops)"

abbreviation ops_of :: "string \<Rightarrow> ('op \<times> string) list \<Rightarrow> 'op list" where
  "ops_of k ops \<equiv> map fst (filter (\<lambda>(_, k'). k' = k) ops)"

abbreviation results_of :: "string \<Rightarrow> (string \<times> 'r) list \<Rightarrow> 'r list" where
  "results_of k rs \<equiv> map snd (filter (\<lambda>(k', _). k' = k) rs)"

lemma keyed_trace_keys: "keyed_trace access s ops = Some (rs, t) \<Longrightarrow> map fst rs = map snd ops"
  by (induction access s ops arbitrary: rs t rule: keyed_trace.induct) (auto split: option.splits)

lemma keyed_trace_none_of:
  assumes "keyed_trace access s ops = Some (rs, t)" "k \<notin> set (map snd ops)"
  shows "ops_of k ops = []" "results_of k rs = []"
proof -
  show "ops_of k ops = []" using assms(2) by (force simp: filter_empty_conv)
  have "k \<notin> set (map fst rs)" using keyed_trace_keys [OF assms(1)] assms(2) by simp
  then show "results_of k rs = []" by (force simp: filter_empty_conv)
qed

lemma entry_run_length: "entry_run step e as = Some rs \<Longrightarrow> length rs = length as"
  by (induction step e as arbitrary: rs rule: entry_run.induct) (auto split: option.splits)

locale keyed_machine = keyed_store entries live cap cleanup evict
  for entries :: "'s \<Rightarrow> (string \<times> 'e) list" and live cap cleanup evict +
  fixes access :: "'op \<Rightarrow> string \<Rightarrow> 's \<Rightarrow> ('r \<times> 's) option"
    and clock :: "'op \<Rightarrow> instant"
    and step :: "'s \<Rightarrow> 'op \<Rightarrow> 'e option \<Rightarrow> ('r \<times> 'e) option"
  assumes access_step: "access a k s = Some (r, s') \<Longrightarrow>
      \<exists>e. step s a (map_of (entries (evict k (clock a) (cleanup (clock a) s))) k) = Some (r, e) \<and>
        entries s' = AList.update k e (entries (evict k (clock a) (cleanup (clock a) s)))"
    and access_policy: "access a k s = Some (r, s') \<Longrightarrow> live s' = live s \<and> step s' = step s"
begin

lemma access_entries: "access a k s = Some (r, s') \<Longrightarrow>
    \<exists>e. entries s' = AList.update k e (entries (evict k (clock a) (cleanup (clock a) s)))"
  using access_step by blast

lemma access_distinct:
  assumes "access a k s = Some (r, s')" "distinct (map fst (entries s))"
  shows "distinct (map fst (entries s'))"
  using access_entries [OF assms(1)] prepare_distinct [OF assms(2), of k "clock a"]
  by (auto simp: distinct_update)

lemma access_keeps_live:
  assumes "access a k s = Some (r, s')" "distinct (map fst (entries s))"
    and "map_of (entries s) k' = Some e" "live s (clock a) e" "k' \<noteq> k"
  shows "map_of (entries s') k' = Some e"
proof -
  from access_entries [OF assms(1)] obtain e' where
    e': "entries s' = AList.update k e' (entries (evict k (clock a) (cleanup (clock a) s)))" ..
  have "(k', e) \<in> set (entries (evict k (clock a) (cleanup (clock a) s)))"
    using prepare_live [OF assms(2)] assms(3,4) map_of_SomeD by fast
  then have "map_of (entries (evict k (clock a) (cleanup (clock a) s))) k' = Some e"
    using prepare_distinct [OF assms(2)] by simp
  then show ?thesis using e' assms(5) by (simp add: update_conv')
qed

lemma access_isolated:
  assumes "access a k s = Some (r, s')" "distinct (map fst (entries s))"
    and "map_of (entries s') k' = Some e" "k' \<noteq> k"
  shows "map_of (entries s) k' = Some e"
proof -
  from access_entries [OF assms(1)] obtain e' where
    e': "entries s' = AList.update k e' (entries (evict k (clock a) (cleanup (clock a) s)))" ..
  then have "map_of (entries (evict k (clock a) (cleanup (clock a) s))) k' = Some e"
    using assms(3,4) by (simp add: update_conv')
  then have "(k', e) \<in> set (entries s)"
    using prepare_subset map_of_SomeD by fast
  then show ?thesis using assms(2) by simp
qed

lemma access_soft_cap:
  assumes "access a k s = Some (r, s')"
  shows "length (entries s') \<le> max (cap s) (length (entries s))
    \<or> (\<forall>(k', e) \<in> set (entries s'). k' = k \<or> live s (clock a) e)"
proof -
  from access_entries [OF assms(1)] obtain e' where
    e': "entries s' = AList.update k e' (entries (evict k (clock a) (cleanup (clock a) s)))" ..
  define m where "m = entries (evict k (clock a) (cleanup (clock a) s))"
  have len: "length m \<le> length (entries s)" unfolding m_def by (rule prepare_length)
  show ?thesis
  proof (cases "k \<in> fst ` set m")
    case True
    then have "length (entries s') = length m"
      using e' by (simp add: m_def length_AList_update)
    then show ?thesis using len by auto
  next
    case False
    have "set (entries s') = insert (k, e') (set m)"
      using False unfolding e' m_def [symmetric] by (induction m) auto
    moreover have "length (entries s') = Suc (length m)"
      using False e' by (simp add: m_def length_AList_update)
    ultimately show ?thesis
      using prepare_soft_cap [of k "clock a" s] False unfolding m_def [symmetric] by fastforce
  qed
qed

text \<open>The entry of a key that is live, or unknown, takes the step of its own machine.\<close>

lemma access_own:
  assumes "access a k s = Some (r, s')" "distinct (map fst (entries s))"
    and "\<And>e. map_of (entries s) k = Some e \<Longrightarrow> live s (clock a) e"
  shows "\<exists>e. step s a (map_of (entries s) k) = Some (r, e) \<and> map_of (entries s') k = Some e"
proof -
  define m where "m = entries (evict k (clock a) (cleanup (clock a) s))"
  have "map_of m k = map_of (entries s) k"
  proof (cases "map_of (entries s) k")
    case None
    then have "k \<notin> fst ` set (entries s)" by (simp add: map_of_eq_None_iff)
    then have "map_of m k = None"
      using prepare_subset [of k "clock a" s] unfolding m_def map_of_eq_None_iff by auto
    then show ?thesis using None by simp
  next
    case (Some e)
    then have "(k, e) \<in> set m"
      using prepare_live [OF assms(2)] assms(3) map_of_SomeD unfolding m_def by fast
    then show ?thesis using prepare_distinct [OF assms(2)] Some unfolding m_def by simp
  qed
  then show ?thesis using access_step [OF assms(1)] unfolding m_def [symmetric] by (auto simp: update_conv')
qed

lemma access_other:
  assumes "access a k s = Some (r, s')" "distinct (map fst (entries s))" "k' \<noteq> k"
    and "\<And>e. map_of (entries s) k' = Some e \<Longrightarrow> live s (clock a) e"
  shows "map_of (entries s') k' = map_of (entries s) k'"
proof (cases "map_of (entries s) k'")
  case None
  then show ?thesis using access_isolated [OF assms(1,2) _ assms(3)] by (metis not_Some_eq)
next
  case (Some e)
  then show ?thesis using access_keeps_live [OF assms(1,2) Some] assms(3,4) by simp
qed

text \<open>The results the store gives one key are those of the key's own machine, whatever the other
  keys do.\<close>

lemma trace_refines:
  assumes "keyed_trace access s ops = Some (rs, t)" "distinct (map fst (entries s))"
    and "stays_live (live s) clock (step s) k (map_of (entries s) k) ops"
  shows "entry_run (step s) (map_of (entries s) k) (ops_of k ops) = Some (results_of k rs)"
  using assms
proof (induction ops arbitrary: s rs)
  case (Cons op ops)
  obtain a k' where op: "op = (a, k')" by fastforce
  from Cons.prems(1) obtain r s' rs' where
    acc: "access a k' s = Some (r, s')" and rest: "keyed_trace access s' ops = Some (rs', t)"
    and rs: "rs = (k', r) # rs'"
    unfolding op by (auto split: option.splits)
  note pol = access_policy [OF acc]
  note dist = access_distinct [OF acc Cons.prems(2)]
  show ?case
  proof (cases "k \<in> set (k' # map snd ops)")
    case False
    then show ?thesis using keyed_trace_none_of [OF Cons.prems(1), of k] op by simp
  next
    case True
    then have live: "map_of (entries s) k = Some e \<Longrightarrow> live s (clock a) e" for e
      using Cons.prems(3) op by simp
    show ?thesis
    proof (cases "k' = k")
      case True
      obtain e where e: "step s a (map_of (entries s) k) = Some (r, e)" "map_of (entries s') k = Some e"
        using access_own [OF acc Cons.prems(2)] live True by blast
      then show ?thesis
        using Cons.IH [OF rest dist] Cons.prems(3) pol op rs True by simp
    next
      case False
      then have "map_of (entries s') k = map_of (entries s) k"
        using access_other [OF acc Cons.prems(2)] live by metis
      then show ?thesis
        using Cons.IH [OF rest dist] Cons.prems(3) pol op rs False by simp
    qed
  qed
qed simp

lemma trace_distinct:
  "keyed_trace access s ops = Some (rs, t) \<Longrightarrow> distinct (map fst (entries s)) \<Longrightarrow>
   distinct (map fst (entries t))"
  by (induction ops arbitrary: s rs) (auto split: option.splits, blast dest: access_distinct)

end

text \<open>
  How the three stores keep the contract: one retention test serves both the timer and the
  eviction.  \<open>due\<close> is the clean-up timer.
\<close>

locale aged_store =
  fixes entries :: "'s \<Rightarrow> (string \<times> 'e) list"
    and live :: "'s \<Rightarrow> instant \<Rightarrow> 'e \<Rightarrow> bool"
    and cap :: "'s \<Rightarrow> nat"
    and cleanup :: "instant \<Rightarrow> 's \<Rightarrow> 's"
    and evict :: "string \<Rightarrow> instant \<Rightarrow> 's \<Rightarrow> 's"
    and due :: "instant \<Rightarrow> 's \<Rightarrow> bool"
    and last_seen :: "'e \<Rightarrow> instant"
  assumes cleanup_retain: "entries (cleanup now s) =
      (if due now s then retain (\<lambda>_. live s now) (entries s) else entries s)"
    and cleanup_keeps_policy: "live (cleanup now s) = live s" "cap (cleanup now s) = cap s"
    and evict_oldest: "entries (evict k now s) =
      evict_oldest (\<lambda>e. \<not> live s now e) last_seen (cap s) k (entries s)"
    and evict_keeps_policy: "live (evict k now s) = live s" "cap (evict k now s) = cap s"

sublocale aged_store \<subseteq> keyed_store entries live cap cleanup evict
proof (unfold_locales, goal_cases)
  case (8 s kv now k)
  then show ?case by (cases kv) (simp add: evict_oldest evict_oldest_keeps_live)
next
  case (12 k s kv now)
  then show ?case by (cases kv) (auto simp: evict_oldest intro!: evict_oldest_room)
qed (auto simp: cleanup_retain cleanup_keeps_policy evict_oldest evict_keeps_policy
      evict_oldest_length evict_oldest_distinct evict_oldest_keeps_key distinct_retain length_retain_le
    dest: subsetD [OF evict_oldest_subset])

end
