(* ===== verification/Http_Service.thy ===== *)
theory Http_Service
  imports Noxy_Prelude
begin

text \<open>
  HTTP messages and tower services.

  Messages of the \<^verbatim>\<open>http\<close> crate are data here: a header map is the list of its
  (name, value) pairs, names already normalised to lower case, a body is the list of
  frames it will yield, a URI is the tuple of its parts.  Turning text into such values
  (\<^verbatim>\<open>HeaderName::from_bytes\<close>, \<^verbatim>\<open>Uri::from_str\<close>, \<^verbatim>\<open>Uri::from_parts\<close>) is code of that
  crate and is a parameter of the definitions that use it.  A header value that
  \<^verbatim>\<open>to_str\<close> refuses is \<open>Opaque\<close>.

  A service is a function of the request and the world.  Calling it runs the synchronous
  part of \<^verbatim>\<open>Service::call\<close> at once and returns a future; running the future is the
  \<^verbatim>\<open>await\<close>.  The two phases are kept apart because the middleware calls the inner
  service before it awaits anything.  The world type is left open: a middleware reaches
  its own shared state through a \<open>cell\<close> (an \<^verbatim>\<open>Arc<Mutex<_>>\<close>) and the clock and the
  timer through an \<open>env\<close>.  \<open>env_sleep\<close> may change the world in any way, which is how
  other tasks run while this one sleeps.
\<close>

section \<open>Strings\<close>

fun split_on :: "char \<Rightarrow> string \<Rightarrow> string list" where
  "split_on c [] = [[]]"
| "split_on c (x # xs) =
     (if x = c then [] # split_on c xs
      else (case split_on c xs of [] \<Rightarrow> [[x]] | y # ys \<Rightarrow> (x # y) # ys))"

fun split_once :: "char \<Rightarrow> string \<Rightarrow> (string \<times> string) option" where
  "split_once c [] = None"
| "split_once c (x # xs) =
     (if x = c then Some ([], xs)
      else map_option (\<lambda>(a, b). (x # a, b)) (split_once c xs))"

definition is_whitespace :: "char \<Rightarrow> bool" where
  "is_whitespace c = (of_char c \<in> {9::nat, 10, 11, 12, 13, 32})"

definition trim :: "string \<Rightarrow> string" where
  "trim s = rev (dropWhile is_whitespace (rev (dropWhile is_whitespace s)))"

definition ascii_lower :: "char \<Rightarrow> char" where
  "ascii_lower c = (let n = (of_char c :: nat)
     in if 65 \<le> n \<and> n \<le> 90 then char_of (n + 32) else c)"

definition ascii_upper :: "char \<Rightarrow> char" where
  "ascii_upper c = (let n = (of_char c :: nat)
     in if 97 \<le> n \<and> n \<le> 122 then char_of (n - 32) else c)"

definition eq_ignore_ascii_case :: "string \<Rightarrow> string \<Rightarrow> bool" where
  "eq_ignore_ascii_case a b = (map ascii_lower a = map ascii_lower b)"

definition strip_prefix :: "string \<Rightarrow> string \<Rightarrow> string option" where
  "strip_prefix p s = (if take (length p) s = p then Some (drop (length p) s) else None)"

definition strip_suffix :: "string \<Rightarrow> string \<Rightarrow> string option" where
  "strip_suffix p s = map_option rev (strip_prefix (rev p) (rev s))"

text \<open>\<^verbatim>\<open>str::parse::<uN>()\<close>: an optional plus sign, then decimal digits, at most \<open>bound\<close>.\<close>

definition digit_value :: "char \<Rightarrow> nat option" where
  "digit_value c = (let n = (of_char c :: nat)
     in if 48 \<le> n \<and> n \<le> 57 then Some (n - 48) else None)"

fun parse_digits :: "nat \<Rightarrow> string \<Rightarrow> nat option" where
  "parse_digits acc [] = Some acc"
| "parse_digits acc (c # cs) =
     (case digit_value c of None \<Rightarrow> None | Some d \<Rightarrow> parse_digits (acc * 10 + d) cs)"

definition parse_uint :: "nat \<Rightarrow> string \<Rightarrow> nat option" where
  "parse_uint bound s =
     (let ds = (case s of c # cs \<Rightarrow> if c = CHR ''+'' then cs else s | [] \<Rightarrow> [])
      in if ds = [] then None
         else Option.bind (parse_digits 0 ds) (\<lambda>n. if n \<le> bound then Some n else None))"

abbreviation parse_u64 :: "string \<Rightarrow> nat option" where
  "parse_u64 \<equiv> parse_uint (2 ^ 64 - 1)"

lemma parse_uint_bound: "parse_uint bound s = Some n \<Longrightarrow> n \<le> bound"
  by (auto simp: parse_uint_def Let_def split: if_splits option.splits Option.bind_splits)

lemma split_on_not_Nil [simp]: "split_on c s \<noteq> []"
  by (induction s) (auto split: list.splits)

lemma hd_split_on: "hd (split_on c s) = takeWhile (\<lambda>x. x \<noteq> c) s"
  by (induction s) (auto split: list.splits dest: sym)

lemma split_on_pieces: "t \<in> set (split_on c s) \<Longrightarrow> c \<notin> set t"
proof (induction s arbitrary: t)
  case (Cons x xs)
  then show ?case
    by (cases "split_on c xs") (auto split: if_splits)
qed simp

lemma split_once_Some:
  "split_once c s = Some (a, b) \<longleftrightarrow> s = a @ c # b \<and> c \<notin> set a"
proof (induction s arbitrary: a)
  case (Cons x xs)
  then show ?case by (cases a) (auto simp: split_paired_all)
qed simp

lemma split_once_None: "split_once c s = None \<longleftrightarrow> c \<notin> set s"
  by (induction s) auto

lemma strip_prefix_Some: "strip_prefix p s = Some r \<longleftrightarrow> s = p @ r"
  by (auto simp: strip_prefix_def) (metis append_take_drop_id)

lemma strip_suffix_Some: "strip_suffix p s = Some r \<longleftrightarrow> s = r @ p"
proof -
  have "strip_suffix p s = Some r \<longleftrightarrow> strip_prefix (rev p) (rev s) = Some (rev r)"
    by (auto simp: strip_suffix_def)
  also have "\<dots> \<longleftrightarrow> s = r @ p"
    by (metis rev_append rev_rev_ident strip_prefix_Some)
  finally show ?thesis .
qed

section \<open>Messages\<close>

datatype header_value = Visible string | Opaque string

fun to_str :: "header_value \<Rightarrow> string option" where
  "to_str (Visible s) = Some s"
| "to_str (Opaque s) = None"

type_synonym headers = "(string \<times> header_value) list"

definition hdr_get_all :: "headers \<Rightarrow> string \<Rightarrow> header_value list" where
  "hdr_get_all h n = map snd (filter (\<lambda>(k, _). k = n) h)"

definition hdr_get :: "headers \<Rightarrow> string \<Rightarrow> header_value option" where
  "hdr_get h n = map_of h n"

definition hdr_remove :: "string \<Rightarrow> headers \<Rightarrow> headers" where
  "hdr_remove n h = filter (\<lambda>(k, _). k \<noteq> n) h"

definition hdr_append :: "string \<Rightarrow> header_value \<Rightarrow> headers \<Rightarrow> headers" where
  "hdr_append n v h = h @ [(n, v)]"

definition hdr_insert :: "string \<Rightarrow> header_value \<Rightarrow> headers \<Rightarrow> headers" where
  "hdr_insert n v h = hdr_append n v (hdr_remove n h)"

lemma hdr_get_all_remove [simp]:
  "hdr_get_all (hdr_remove n h) m = (if m = n then [] else hdr_get_all h m)"
  by (induction h) (auto simp: hdr_get_all_def hdr_remove_def)

lemma hdr_get_all_append [simp]:
  "hdr_get_all (hdr_append n v h) m = (if m = n then hdr_get_all h m @ [v] else hdr_get_all h m)"
  by (simp add: hdr_get_all_def hdr_append_def)

lemma hdr_get_all_insert [simp]:
  "hdr_get_all (hdr_insert n v h) m = (if m = n then [v] else hdr_get_all h m)"
  by (simp add: hdr_insert_def)

lemma hdr_get_conv: "hdr_get h n = (case hdr_get_all h n of [] \<Rightarrow> None | v # _ \<Rightarrow> Some v)"
  by (induction h) (auto simp: hdr_get_def hdr_get_all_def)

lemma hdr_get_None: "hdr_get h n = None \<longleftrightarrow> hdr_get_all h n = []"
  by (simp add: hdr_get_conv split: list.splits)

datatype frame = Data string | Trailers headers

text \<open>\<open>Inl\<close> is a frame that fails, as a broken upstream connection does.\<close>

record body =
  body_frames :: "(string + frame) list"
  body_exact_size :: "nat option"

definition full_body :: "string \<Rightarrow> body" where
  "full_body d = \<lparr>body_frames = (if d = [] then [] else [Inr (Data d)]),
                  body_exact_size = Some (length d)\<rparr>"

definition empty_body :: body where
  "empty_body = \<lparr>body_frames = [], body_exact_size = Some 0\<rparr>"

text \<open>\<^verbatim>\<open>body.collect().await?.to_bytes()\<close>\<close>

fun collect_frames :: "(string + frame) list \<Rightarrow> string result" where
  "collect_frames [] = Inr []"
| "collect_frames (Inl e # fs) = Inl (Box_Error e)"
| "collect_frames (Inr (Data d) # fs) = and_then (collect_frames fs) (\<lambda>r. Inr (d @ r))"
| "collect_frames (Inr (Trailers t) # fs) = collect_frames fs"

lemma collect_full_body [simp]: "collect_frames (body_frames (full_body d)) = Inr d"
  by (simp add: full_body_def)

record authority =
  auth_text :: string
  auth_host :: string
  auth_port :: "nat option"

record uri =
  uri_scheme :: "string option"
  uri_authority :: "authority option"
  uri_path_and_query :: "(string \<times> string option) option"

definition uri_path :: "uri \<Rightarrow> string" where
  "uri_path u = (case uri_path_and_query u of None \<Rightarrow> [] | Some (p, _) \<Rightarrow> p)"

definition uri_query :: "uri \<Rightarrow> string option" where
  "uri_query u = Option.bind (uri_path_and_query u) snd"

definition uri_host :: "uri \<Rightarrow> string option" where
  "uri_host u = map_option auth_host (uri_authority u)"

datatype http_version = HTTP_09 | HTTP_10 | HTTP_11 | HTTP_2 | HTTP_3

text \<open>The request extension the router sets and the forwarding service reads.\<close>

record upstream_target =
  target_authority :: authority
  target_scheme :: string

record request =
  req_method :: string
  req_uri :: uri
  req_version :: http_version
  req_headers :: headers
  req_target :: "upstream_target option"
  req_body :: body

record response =
  resp_status :: nat
  resp_version :: http_version
  resp_headers :: headers
  resp_body :: body

text \<open>\<^verbatim>\<open>Response::builder().status(s).body(b)\<close>\<close>

definition response_with :: "nat \<Rightarrow> body \<Rightarrow> response" where
  "response_with s b = \<lparr>resp_status = s, resp_version = HTTP_11, resp_headers = [], resp_body = b\<rparr>"

lemma response_with_simps [simp]:
  "resp_status (response_with s b) = s"
  "resp_headers (response_with s b) = []"
  "resp_body (response_with s b) = b"
  by (simp_all add: response_with_def)

text \<open>The host of a request: the URI's, else the \<^verbatim>\<open>Host\<close> header, up to the first colon.\<close>

definition request_host :: "request \<Rightarrow> string option" where
  "request_host req =
     map_option (\<lambda>h. hd (split_on (CHR '':'') h))
       (case uri_host (req_uri req) of
          Some h \<Rightarrow> Some h
        | None \<Rightarrow> Option.bind (hdr_get (req_headers req) ''host'') to_str)"

lemma request_host_no_colon: "request_host req = Some h \<Longrightarrow> CHR '':'' \<notin> set h"
  by (auto simp: request_host_def hd_split_on dest: set_takeWhileD split: option.splits)

section \<open>Services\<close>

type_synonym 'w future = "'w \<Rightarrow> response result \<times> 'w"
type_synonym 'w service = "request \<Rightarrow> 'w \<Rightarrow> 'w future \<times> 'w"
type_synonym 'w layer = "'w service \<Rightarrow> 'w service"

record 'w env =
  env_now :: "'w \<Rightarrow> instant \<times> 'w"
  env_sleep :: "duration \<Rightarrow> 'w \<Rightarrow> 'w"

record ('w, 's) cell =
  cell_get :: "'w \<Rightarrow> 's"
  cell_put :: "'s \<Rightarrow> 'w \<Rightarrow> 'w"

text \<open>\<^verbatim>\<open>Box::pin(async move { r })\<close>\<close>

definition ready :: "response result \<Rightarrow> 'w future" where
  "ready r = (\<lambda>w. (r, w))"

text \<open>\<^verbatim>\<open>let resp = fut.await?; k\<close>\<close>

definition await_ok :: "'w future \<Rightarrow> (response \<Rightarrow> 'w future) \<Rightarrow> 'w future" where
  "await_ok fut k = (\<lambda>w. case fut w of (Inl e, w') \<Rightarrow> (Inl e, w') | (Inr r, w') \<Rightarrow> k r w')"

text \<open>\<^verbatim>\<open>cell.lock().unwrap()\<close> and the closure run under the lock\<close>

definition lock_cell ::
  "('w, 's mutex) cell \<Rightarrow> ('s \<Rightarrow> ('a \<times> 's) result) \<Rightarrow> 'w \<Rightarrow> 'a result \<times> 'w"
where
  "lock_cell c f w = (case with_lock f (cell_get c w) of (r, m) \<Rightarrow> (r, cell_put c m w))"

lemma ready_apply [simp]: "ready r w = (r, w)"
  by (simp add: ready_def)

lemma await_ok_ready [simp]:
  "await_ok (ready (Inr r)) k = k r"
  "await_ok (ready (Inl e)) k = ready (Inl e)"
  by (simp_all add: await_ok_def ready_def)

text \<open>Reading back what was written, and nothing else: what an \<^verbatim>\<open>Arc<Mutex<_>>\<close> promises
  to the handles that share it.\<close>

locale shared_cell =
  fixes c :: "('w, 's) cell"
  assumes get_put: "cell_get c (cell_put c s w) = s"
    and put_put: "cell_put c s (cell_put c s' w) = cell_put c s w"
    and put_get: "cell_put c (cell_get c w) w = w"

text \<open>A cell that holds a mutex: one critical section that does not panic.\<close>

locale shared_mutex = shared_cell c for c :: "('w, 's mutex) cell"
begin

lemma lock_unlocked:
  "cell_get c w = Unlocked s \<Longrightarrow> f s = Inr (a, s') \<Longrightarrow>
     lock_cell c f w = (Inr a, cell_put c (Unlocked s') w) \<and>
     cell_get c (cell_put c (Unlocked s') w) = Unlocked s'"
  by (simp add: lock_cell_def get_put)

lemma lock_panics:
  "cell_get c w = Unlocked s \<Longrightarrow> f s = Inl e \<Longrightarrow>
     lock_cell c f w = (Inl e, cell_put c Poisoned w) \<and> cell_get c (cell_put c Poisoned w) = Poisoned"
  by (simp add: lock_cell_def get_put)

lemma lock_poisoned:
  "cell_get c w = Poisoned \<Longrightarrow> lock_cell c f w = (Inl (Panicked ''PoisonError''), w)"
  using put_get [of w] by (simp add: lock_cell_def)

end

text \<open>Two cells that do not alias: a critical section on the one leaves the other alone.\<close>

locale separate_cells =
  fixes c :: "('w, 's) cell" and d :: "('w, 't mutex) cell"
  assumes get_other: "cell_get c (cell_put d t w) = cell_get c w"
begin

lemma lock_other: "cell_get c (snd (lock_cell d f w)) = cell_get c w"
  by (simp add: lock_cell_def get_other split: prod.split)

end

end
