(* ===== verification/Redis_Link.thy ===== *)
theory Redis_Link
  imports Http_Service
begin

text \<open>
  The Redis connection handle, \<^verbatim>\<open>src/src/redis.rs\<close>, and what the Redis-backed stores see
  of the server.  The client library is a parameter: \<open>valid_url\<close> is what
  \<^verbatim>\<open>redis::Client::open\<close> accepts, and a \<open>redis_server\<close> says how connecting and running a script end.

  Shown here: keys without a colon never collide across namespaces.
\<close>

record redis_connection =
  rc_url :: string
  rc_prefix :: string

definition redis_open_with_prefix ::
  "(string \<Rightarrow> bool) \<Rightarrow> string \<Rightarrow> string \<Rightarrow> redis_connection result"
where
  "redis_open_with_prefix valid_url url prefix =
     (if valid_url url then Inr \<lparr>rc_url = url, rc_prefix = prefix\<rparr>
      else Inl (Box_Error ''invalid redis url''))"

definition redis_open :: "(string \<Rightarrow> bool) \<Rightarrow> string \<Rightarrow> redis_connection result" where
  "redis_open valid_url url = redis_open_with_prefix valid_url url ''noxy:''"

definition prefixed_key :: "redis_connection \<Rightarrow> string \<Rightarrow> string \<Rightarrow> string" where
  "prefixed_key conn ns key = rc_prefix conn @ ns @ '':'' @ key"

text \<open>\<open>get_connection\<close>: the shared connection manager, or an error when it cannot be
  initialised or takes longer than two seconds.\<close>

datatype connect_outcome = Connected | Connect_Error string | Connect_Timeout

definition get_connection :: "connect_outcome \<Rightarrow> unit result" where
  "get_connection c =
     (case c of
        Connected \<Rightarrow> Inr ()
      | Connect_Error e \<Rightarrow> Inl (Box_Error e)
      | Connect_Timeout \<Rightarrow> Inl (Box_Error ''Redis connection timed out''))"

text \<open>One script invocation: its key and arguments, and the reply.\<close>

datatype script_arg = Num real | Text string

record script_call =
  sc_key :: string
  sc_args :: "script_arg list"

record 'w redis_server =
  rs_connect :: "'w \<Rightarrow> connect_outcome \<times> 'w"
  rs_invoke :: "script_call \<Rightarrow> 'w \<Rightarrow> (string + int) \<times> 'w"

text \<open>\<^verbatim>\<open>((a / b) * 1000.0) as u64\<close> of non-negative floats: the integer part, saturating; an
  infinite quotient is the largest \<^verbatim>\<open>u64\<close> and \<open>0 / 0\<close> is zero.\<close>

definition ratio_ms_as_u64 :: "real \<Rightarrow> real \<Rightarrow> nat" where
  "ratio_ms_as_u64 a b =
     (case f64_div a b of
        None \<Rightarrow> if 0 < a then 2 ^ 64 - 1 else 0
      | Some q \<Rightarrow> min (nat \<lfloor>q * 1000\<rfloor>) (2 ^ 64 - 1))"

lemma prefixed_key_inj:
  assumes "prefixed_key conn ns key = prefixed_key conn ns' key'"
    and "CHR '':'' \<notin> set key" "CHR '':'' \<notin> set key'"
  shows "ns = ns' \<and> key = key'"
proof -
  have eq: "ns @ CHR '':'' # key = ns' @ CHR '':'' # key'"
    using assms(1) by (simp add: prefixed_key_def)
  then have "rev key @ CHR '':'' # rev ns = rev key' @ CHR '':'' # rev ns'"
    by (metis append.assoc append_Cons append_Nil rev.simps(2) rev_append)
  then have "rev key = rev key' \<and> rev ns = rev ns'"
    using assms(2,3) by (metis set_rev split_once_Some option.inject prod.inject)
  then show ?thesis by simp
qed

end
