(* ===== verification/Rate_Limiter.thy ===== *)
theory Rate_Limiter
  imports Keyed_Store Http_Service Redis_Link
begin

text \<open>
  The token-bucket rate limiter, \<^verbatim>\<open>src/src/middleware/rate_limiter.rs\<close>:
  \<open>TokenBucket\<close>, \<open>SharedState\<close>, the in-memory store, the builder, the tower service and
  the Redis-backed store with its fallback.

  Shown here: what one \<open>take\<close> does; that the requests a bucket releases conform to
  \<open>burst + rate * time\<close> in every interval; that eviction of an idle bucket that
  is not in debt cannot be observed, and that eviction of one in debt can; isolation of
  keys and the soft cap on their number, from the shared store contract.
\<close>

section \<open>Token bucket\<close>

record token_bucket =
  tb_tokens :: real
  tb_last_refill :: instant

definition tb_new :: "real \<Rightarrow> instant \<Rightarrow> token_bucket" where
  "tb_new burst now = \<lparr>tb_tokens = burst, tb_last_refill = now\<rparr>"

definition tb_take ::
  "token_bucket \<Rightarrow> real \<Rightarrow> real \<Rightarrow> instant \<Rightarrow> (duration option \<times> token_bucket) result"
where
  "tb_take b rate burst now =
     (let elapsed = as_secs_f64 (duration_since now (tb_last_refill b));
          tokens = min (tb_tokens b + elapsed * rate) burst - 1;
          b' = \<lparr>tb_tokens = tokens, tb_last_refill = now\<rparr>
      in if tokens < 0
         then and_then (from_secs_f64 (f64_div (- tokens) rate)) (\<lambda>d. Inr (Some d, b'))
         else Inr (None, b'))"

section \<open>Shared state\<close>

record bucket_state =
  bs_bucket :: token_bucket
  bs_last_seen :: instant

record rl_shared =
  rl_buckets :: "(string \<times> bucket_state) list"
  rl_rate :: real
  rl_burst :: real
  rl_max_keys :: nat
  rl_idle_ttl :: duration
  rl_next_cleanup :: instant

definition rl_default_max_keys :: nat where
  "rl_default_max_keys = 10000"

definition rl_default_idle_ttl :: duration where
  "rl_default_idle_ttl = from_secs 600"

definition rl_cleanup_interval :: duration where
  "rl_cleanup_interval = from_secs 30"

definition rl_refill_horizon :: "rl_shared \<Rightarrow> duration result" where
  "rl_refill_horizon st =
     (case f64_div (rl_burst st) (rl_rate st) of
        None \<Rightarrow> Inr 0
      | Some secs \<Rightarrow> if secs \<le> 0 then Inr 0 else from_secs_f64 (Some secs))"

definition rl_effective_ttl :: "rl_shared \<Rightarrow> duration result" where
  "rl_effective_ttl st =
     and_then (rl_refill_horizon st) (\<lambda>h. Inr (max (rl_idle_ttl st) h))"

definition rl_maybe_cleanup :: "instant \<Rightarrow> rl_shared \<Rightarrow> rl_shared result" where
  "rl_maybe_cleanup now st =
     (if now < rl_next_cleanup st then Inr st
      else and_then (rl_effective_ttl st) (\<lambda>ttl. Inr
        (st\<lparr>rl_buckets := retain (\<lambda>_ e. duration_since now (bs_last_seen e) \<le> ttl) (rl_buckets st),
            rl_next_cleanup := now + int rl_cleanup_interval\<rparr>)))"

definition rl_evict_if_needed :: "string \<Rightarrow> instant \<Rightarrow> rl_shared \<Rightarrow> rl_shared result" where
  "rl_evict_if_needed key now st =
     (if contains_key (rl_buckets st) key \<or> length (rl_buckets st) < rl_max_keys st then Inr st
      else and_then (rl_effective_ttl st) (\<lambda>ttl. Inr
        (st\<lparr>rl_buckets := evict_oldest (\<lambda>e. ttl < duration_since now (bs_last_seen e))
               bs_last_seen (rl_max_keys st) key (rl_buckets st)\<rparr>)))"

text \<open>
  The three clock readings of one \<open>take\<close>: its own, the one of \<open>TokenBucket::new\<close> (made
  only for a new key) and the one of \<open>TokenBucket::take\<close>.
\<close>

type_synonym rl_clock = "instant \<times> instant \<times> instant"

fun rl_take :: "rl_clock \<Rightarrow> string \<Rightarrow> rl_shared \<Rightarrow> (duration option \<times> rl_shared) result" where
  "rl_take (now, now_new, now_take) key st =
     and_then (rl_maybe_cleanup now st) (\<lambda>st1.
     and_then (rl_evict_if_needed key now st1) (\<lambda>st2.
       let e = entry_or_insert (rl_buckets st2) key
                 \<lparr>bs_bucket = tb_new (rl_burst st2) now_new, bs_last_seen = now\<rparr>
       in and_then (tb_take (bs_bucket e) (rl_rate st2) (rl_burst st2) now_take) (\<lambda>(d, b).
            Inr (d, st2\<lparr>rl_buckets :=
              AList.update key \<lparr>bs_bucket = b, bs_last_seen = now\<rparr> (rl_buckets st2)\<rparr>))))"

section \<open>In-memory store and builder\<close>

definition rl_store_new :: "real \<Rightarrow> real \<Rightarrow> instant \<Rightarrow> rl_shared mutex" where
  "rl_store_new rate burst now = Unlocked
     \<lparr>rl_buckets = [], rl_rate = rate, rl_burst = burst, rl_max_keys = rl_default_max_keys,
      rl_idle_ttl = rl_default_idle_ttl, rl_next_cleanup = now + int rl_cleanup_interval\<rparr>"

definition rl_set_burst :: "real \<Rightarrow> rl_shared \<Rightarrow> rl_shared" where
  "rl_set_burst burst st = st\<lparr>rl_burst := burst\<rparr>"

definition rl_set_max_keys :: "nat \<Rightarrow> rl_shared \<Rightarrow> rl_shared" where
  "rl_set_max_keys n st = st\<lparr>rl_max_keys := max n 1\<rparr>"

definition rl_set_idle_ttl :: "duration \<Rightarrow> rl_shared \<Rightarrow> rl_shared" where
  "rl_set_idle_ttl ttl st = st\<lparr>rl_idle_ttl := ttl\<rparr>"

definition rl_store_take ::
  "'w env \<Rightarrow> ('w, rl_shared mutex) cell \<Rightarrow> string \<Rightarrow> 'w \<Rightarrow> duration option result \<times> 'w"
where
  "rl_store_take env c key w =
     (let (t1, w1) = env_now env w; (t2, w2) = env_now env w1; (t3, w3) = env_now env w2
      in lock_cell c (rl_take (t1, t2, t3) key) w3)"

text \<open>The limiter that \<open>keyed\<close> builds: a store and a key function.  \<open>None\<close> when the rate
  \<open>count / window\<close> is not a finite number (a zero window).\<close>

record rate_limiter =
  limiter_store :: "rl_shared mutex"
  limiter_key :: "request \<Rightarrow> string"

definition rl_keyed ::
  "nat \<Rightarrow> duration \<Rightarrow> (request \<Rightarrow> string) \<Rightarrow> instant \<Rightarrow> rate_limiter option"
where
  "rl_keyed count window key_fn now =
     map_option (\<lambda>rate. \<lparr>limiter_store = rl_store_new rate (real count) now, limiter_key = key_fn\<rparr>)
       (f64_div (real count) (as_secs_f64 window))"

definition rl_extract_host :: "request \<Rightarrow> string" where
  "rl_extract_host req = (case request_host req of Some h \<Rightarrow> h | None \<Rightarrow> ''unknown'')"

definition rl_global :: "nat \<Rightarrow> duration \<Rightarrow> instant \<Rightarrow> rate_limiter option" where
  "rl_global count window = rl_keyed count window (\<lambda>_. [])"

definition rl_per_host :: "nat \<Rightarrow> duration \<Rightarrow> instant \<Rightarrow> rate_limiter option" where
  "rl_per_host count window = rl_keyed count window rl_extract_host"

section \<open>Service\<close>

text \<open>\<open>store_take\<close> is the store the service is generic in.  The inner call is made first, its
  future is awaited after the delay.\<close>

definition rl_call ::
  "'w env \<Rightarrow> (string \<Rightarrow> 'w \<Rightarrow> duration option result \<times> 'w) \<Rightarrow> (request \<Rightarrow> string) \<Rightarrow> 'w layer"
where
  "rl_call env store_take key_fn inner req w =
     (let key = key_fn req; (fut, w1) = inner req w
      in ((\<lambda>w. case store_take key w of
             (Inl e, w') \<Rightarrow> (Inl e, w')
           | (Inr None, w') \<Rightarrow> fut w'
           | (Inr (Some delay), w') \<Rightarrow> fut (env_sleep env delay w')), w1))"

section \<open>Redis-backed store\<close>

record redis_rl_store =
  rrl_conn :: redis_connection
  rrl_rate :: real
  rrl_burst :: real
  rrl_namespace :: string

definition redis_rl_new :: "redis_connection \<Rightarrow> real \<Rightarrow> real \<Rightarrow> redis_rl_store" where
  "redis_rl_new conn rate burst =
     \<lparr>rrl_conn = conn, rrl_rate = rate, rrl_burst = burst, rrl_namespace = ''rate_limit''\<rparr>"

definition redis_rl_scope :: "string \<Rightarrow> redis_rl_store \<Rightarrow> redis_rl_store" where
  "redis_rl_scope ident s = s\<lparr>rrl_namespace := ''rate_limit:'' @ ident\<rparr>"

definition redis_rl_ttl_ms :: "bool \<Rightarrow> redis_rl_store \<Rightarrow> nat result" where
  "redis_rl_ttl_ms overflow_checks s =
     u64_add overflow_checks (ratio_ms_as_u64 (rrl_burst s) (rrl_rate s)) 60000"

definition redis_rl_take ::
  "bool \<Rightarrow> 'w redis_server \<Rightarrow> redis_rl_store \<Rightarrow> (string \<Rightarrow> 'w \<Rightarrow> duration option result \<times> 'w) \<Rightarrow>
   string \<Rightarrow> 'w \<Rightarrow> duration option result \<times> 'w"
where
  "redis_rl_take overflow_checks srv s fallback key w =
     (case rs_connect srv w of (c, w1) \<Rightarrow>
        (case get_connection c of
           Inl _ \<Rightarrow> fallback key w1
         | Inr _ \<Rightarrow>
             (case redis_rl_ttl_ms overflow_checks s of
                Inl e \<Rightarrow> (Inl e, w1)
              | Inr ttl_ms \<Rightarrow>
                  (case rs_invoke srv
                     \<lparr>sc_key = prefixed_key (rrl_conn s) (rrl_namespace s) key,
                      sc_args = [Num (rrl_rate s), Num (rrl_burst s), Num (real ttl_ms)]\<rparr> w1 of
                     (Inl _, w2) \<Rightarrow> fallback key w2
                   | (Inr delay_ms, w2) \<Rightarrow>
                       (Inr (if 0 < delay_ms then Some (from_millis (nat delay_ms)) else None), w2)))))"

text \<open>
  \<open>RATE_LIMIT_LUA\<close>, on the hash fields \<open>tokens\<close> and \<open>last_refill_ms\<close> of one key
  (\<open>None\<close> when the key does not exist), at the server time \<open>now_ms\<close>: the reply and
  the fields it stores.
\<close>

definition rate_limit_lua ::
  "real \<Rightarrow> real \<Rightarrow> int \<Rightarrow> (real \<times> int) option \<Rightarrow> int \<times> (real \<times> int)"
where
  "rate_limit_lua rate burst now_ms data =
     (let (tokens, last_ms) = (case data of Some d \<Rightarrow> d | None \<Rightarrow> (burst, now_ms));
          elapsed_s = real_of_int (now_ms - last_ms) / 1000;
          refilled = min (tokens + elapsed_s * rate) burst - 1
      in (if refilled < 0 then \<lceil>- refilled / rate * 1000\<rceil> else 0, (refilled, now_ms)))"

section \<open>One take\<close>

text \<open>The token count a take leaves behind, kept folded in the proofs below.\<close>

definition tb_level :: "token_bucket \<Rightarrow> real \<Rightarrow> real \<Rightarrow> instant \<Rightarrow> real" where
  "tb_level b rate burst now =
     min (tb_tokens b + as_secs_f64 (duration_since now (tb_last_refill b)) * rate) burst - 1"

lemma tb_take_level:
  "tb_take b rate burst now =
     (if tb_level b rate burst now < 0
      then and_then (from_secs_f64 (f64_div (- tb_level b rate burst now) rate))
             (\<lambda>d. Inr (Some d, \<lparr>tb_tokens = tb_level b rate burst now, tb_last_refill = now\<rparr>))
      else Inr (None, \<lparr>tb_tokens = tb_level b rate burst now, tb_last_refill = now\<rparr>))"
  by (simp add: tb_take_def tb_level_def Let_def)

lemma tb_take_bucket:
  assumes "tb_take b rate burst now = Inr (d, b')"
  shows "tb_last_refill b' = now" "tb_tokens b' = tb_level b rate burst now"
  using assms by (auto simp: tb_take_level and_then_Inr_iff split: if_splits)

lemma tb_take_delay:
  assumes "tb_take b rate burst now = Inr (d, b')"
  shows "d = None \<longleftrightarrow> 0 \<le> tb_tokens b'"
    and "d = Some x \<Longrightarrow> \<bar>real x - - tb_tokens b' / rate * 1000000000\<bar> \<le> 1 / 2"
proof -
  show "d = None \<longleftrightarrow> 0 \<le> tb_tokens b'"
    using assms by (auto simp: tb_take_level and_then_Inr_iff split: if_splits)
  assume "d = Some x"
  then have "from_secs_f64 (f64_div (- tb_tokens b') rate) = Inr x"
    using assms by (auto simp: tb_take_level and_then_Inr_iff split: if_splits)
  then show "\<bar>real x - - tb_tokens b' / rate * 1000000000\<bar> \<le> 1 / 2"
    using from_secs_f64_close [of "- tb_tokens b' / rate" x]
    by (cases "rate = 0") (simp_all add: f64_div_def, simp add: from_secs_f64_def)
qed

lemma tb_take_total:
  assumes "0 < rate" "- tb_level b rate burst now / rate < 2 ^ 63"
  shows "\<exists>d b'. tb_take b rate burst now = Inr (d, b')"
proof (cases "tb_level b rate burst now < 0")
  case True
  define x where "x = - tb_level b rate burst now / rate"
  have x: "0 \<le> x" "x < 2 ^ 63" using True assms by (simp_all add: x_def divide_nonpos_pos)
  have "real_of_int (round_half_even (x * 1000000000)) \<le> x * 1000000000 + 1 / 2"
    by (rule round_half_even_bounds)
  also have "\<dots> < real_of_int (2 ^ 64 * 1000000000)" using x by simp
  finally have "round_half_even (x * 1000000000) < 2 ^ 64 * 1000000000"
    by (simp only: of_int_less_iff)
  then have "\<exists>d. from_secs_f64 (Some x) = Inr d"
    using x by (simp add: from_secs_f64_def)
  then show ?thesis
    using True assms(1) by (auto simp: tb_take_level f64_div_def x_def)
next
  case False
  then show ?thesis by (simp add: tb_take_level)
qed

section \<open>Conformance\<close>

text \<open>The release times of a sequence of requests on one bucket: arrival plus delay.\<close>

fun tb_run :: "real \<Rightarrow> real \<Rightarrow> token_bucket \<Rightarrow> instant list \<Rightarrow> instant list result" where
  "tb_run rate burst b [] = Inr []"
| "tb_run rate burst b (t # ts) =
     and_then (tb_take b rate burst t) (\<lambda>(d, b').
     and_then (tb_run rate burst b' ts) (\<lambda>rs.
       Inr ((t + int (case d of None \<Rightarrow> 0 | Some x \<Rightarrow> x)) # rs)))"

text \<open>The time one token takes to refill, in nanoseconds, and the moment at which the
  bucket was, or will be, at zero tokens.\<close>

definition tb_period :: "real \<Rightarrow> real" where
  "tb_period rate = 1000000000 / rate"

definition tb_zero :: "real \<Rightarrow> token_bucket \<Rightarrow> real" where
  "tb_zero rate b = real_of_int (tb_last_refill b) - tb_tokens b * tb_period rate"

lemma tb_period_pos: "0 < rate \<Longrightarrow> 0 < tb_period rate"
  by (simp add: tb_period_def)

lemma tb_zero_advances:
  assumes "tb_take b rate burst now = Inr (d, b')" "0 < rate" "tb_last_refill b \<le> now"
  shows "tb_zero rate b + tb_period rate \<le> tb_zero rate b'"
proof -
  define e where "e = real_of_int (now - tb_last_refill b)"
  have "tb_tokens b' \<le> tb_tokens b + e / 1000000000 * rate - 1"
    using tb_take_bucket(2) [OF assms(1)] assms(3)
    by (simp add: tb_level_def as_secs_f64_def duration_since_def e_def)
  then have "tb_tokens b' * tb_period rate \<le> (tb_tokens b + e / 1000000000 * rate - 1) * tb_period rate"
    using tb_period_pos [OF assms(2)] by (intro mult_right_mono) auto
  also have "\<dots> = tb_tokens b * tb_period rate + e - tb_period rate"
    using assms(2) by (simp add: tb_period_def field_simps)
  finally show ?thesis
    unfolding tb_zero_def using tb_take_bucket(1) [OF assms(1)] by (simp add: e_def)
qed

lemma tb_release_window:
  assumes "tb_take b rate burst t = Inr (d, b')" "0 < rate" "1 \<le> burst"
    and "r = real_of_int (t + int (case d of None \<Rightarrow> 0 | Some x \<Rightarrow> x))"
  shows "tb_zero rate b' - 1 / 2 \<le> r"
    and "r \<le> tb_zero rate b' + (burst - 1) * tb_period rate + 1 / 2"
proof -
  have last: "tb_last_refill b' = t" by (rule tb_take_bucket(1) [OF assms(1)])
  have q: "0 < tb_period rate" by (rule tb_period_pos [OF assms(2)])
  have top: "tb_tokens b' * tb_period rate \<le> (burst - 1) * tb_period rate"
    using tb_take_bucket(2) [OF assms(1)] q by (intro mult_right_mono) (auto simp: tb_level_def)
  have slack: "0 \<le> (burst - 1) * tb_period rate" using q assms(3) by simp
  have "\<bar>r - tb_zero rate b'\<bar> \<le> 1 / 2 \<or> (r = real_of_int t \<and> 0 \<le> tb_tokens b' * tb_period rate)"
  proof (cases d)
    case None
    then show ?thesis using tb_take_delay(1) [OF assms(1)] q assms(4) by simp
  next
    case (Some x)
    then show ?thesis using tb_take_delay(2) [OF assms(1) Some] last assms(4)
      by (simp add: tb_zero_def tb_period_def)
  qed
  then show "tb_zero rate b' - 1 / 2 \<le> r"
    and "r \<le> tb_zero rate b' + (burst - 1) * tb_period rate + 1 / 2"
    using top slack last unfolding tb_zero_def by linarith+
qed

lemma tb_run_lower:
  assumes "tb_run rate burst b ts = Inr rs" "0 < rate" "1 \<le> burst"
    and "sorted (tb_last_refill b # ts)" "k < length rs"
  shows "tb_zero rate b + real (Suc k) * tb_period rate - 1 / 2 \<le> real_of_int (rs ! k)"
  using assms
proof (induction ts arbitrary: b rs k)
  case (Cons t ts)
  from Cons.prems(1) obtain d b' rs' where
    step: "tb_take b rate burst t = Inr (d, b')" and run: "tb_run rate burst b' ts = Inr rs'"
    and rs: "rs = (t + int (case d of None \<Rightarrow> 0 | Some x \<Rightarrow> x)) # rs'"
    by (auto simp: and_then_Inr_iff)
  have adv: "tb_zero rate b + tb_period rate \<le> tb_zero rate b'"
    using tb_zero_advances [OF step Cons.prems(2)] Cons.prems(4) by simp
  show ?case
  proof (cases k)
    case 0
    then show ?thesis using adv tb_release_window(1) [OF step Cons.prems(2,3) refl] rs by simp
  next
    case (Suc j)
    have "tb_zero rate b' + real (Suc j) * tb_period rate - 1 / 2 \<le> real_of_int (rs' ! j)"
      using Cons.IH [OF run Cons.prems(2,3), of j] Cons.prems(4,5) rs Suc
        tb_take_bucket(1) [OF step] by simp
    then show ?thesis using adv rs Suc by (simp add: algebra_simps)
  qed
qed simp

lemma tb_run_spacing:
  assumes "tb_run rate burst b ts = Inr rs" "0 < rate" "1 \<le> burst"
    and "sorted (tb_last_refill b # ts)" "i \<le> j" "j < length rs"
  shows "real (j - i) * tb_period rate - 1 - (burst - 1) * tb_period rate
    \<le> real_of_int (rs ! j - rs ! i)"
  using assms
proof (induction ts arbitrary: b rs i j)
  case (Cons t ts)
  from Cons.prems(1) obtain d b' rs' where
    step: "tb_take b rate burst t = Inr (d, b')" and run: "tb_run rate burst b' ts = Inr rs'"
    and rs: "rs = (t + int (case d of None \<Rightarrow> 0 | Some x \<Rightarrow> x)) # rs'"
    by (auto simp: and_then_Inr_iff)
  have srt: "sorted (tb_last_refill b' # ts)"
    using Cons.prems(4) tb_take_bucket(1) [OF step] by simp
  have slack: "0 \<le> (burst - 1) * tb_period rate"
    using tb_period_pos [OF Cons.prems(2)] Cons.prems(3) by simp
  show ?case
  proof (cases i)
    case (Suc i')
    then obtain j' where "j = Suc j'" using Cons.prems(5) by (cases j) auto
    then show ?thesis
      using Cons.IH [OF run Cons.prems(2,3) srt, of i' j'] Cons.prems(5,6) rs Suc by simp
  next
    case i: 0
    show ?thesis
    proof (cases j)
      case 0
      then show ?thesis using i slack by simp
    next
      case (Suc j')
      have "tb_zero rate b' + real (Suc j') * tb_period rate - 1 / 2 \<le> real_of_int (rs' ! j')"
        using tb_run_lower [OF run Cons.prems(2,3) srt] Cons.prems(6) rs Suc by simp
      then show ?thesis
        using tb_release_window(2) [OF step Cons.prems(2,3) refl] rs Suc i by simp
    qed
  qed
qed simp

section \<open>The shared state as a keyed store\<close>

definition rl_live :: "rl_shared \<Rightarrow> instant \<Rightarrow> bucket_state \<Rightarrow> bool" where
  "rl_live st now e =
     (case rl_effective_ttl st of
        Inl _ \<Rightarrow> True
      | Inr ttl \<Rightarrow> duration_since now (bs_last_seen e) \<le> ttl)"

definition rl_cleanup_step :: "instant \<Rightarrow> rl_shared \<Rightarrow> rl_shared" where
  "rl_cleanup_step now st = (case rl_maybe_cleanup now st of Inl _ \<Rightarrow> st | Inr st' \<Rightarrow> st')"

definition rl_evict_step :: "string \<Rightarrow> instant \<Rightarrow> rl_shared \<Rightarrow> rl_shared" where
  "rl_evict_step key now st = (case rl_evict_if_needed key now st of Inl _ \<Rightarrow> st | Inr st' \<Rightarrow> st')"

text \<open>What a take does to the entry of its key, and a take as an access whose result is the release
  time: the reading of \<open>TokenBucket::take\<close> plus the delay.\<close>

definition rl_step :: "rl_shared \<Rightarrow> rl_clock \<Rightarrow> bucket_state option \<Rightarrow> (instant \<times> bucket_state) option" where
  "rl_step st = (\<lambda>(n, nn, nt) e.
     case tb_take (case e of None \<Rightarrow> tb_new (rl_burst st) nn | Some x \<Rightarrow> bs_bucket x)
            (rl_rate st) (rl_burst st) nt of
       Inl _ \<Rightarrow> None
     | Inr (d, b) \<Rightarrow> Some (nt + int (case d of None \<Rightarrow> 0 | Some x \<Rightarrow> x),
                         \<lparr>bs_bucket = b, bs_last_seen = n\<rparr>))"

definition rl_access :: "rl_clock \<Rightarrow> string \<Rightarrow> rl_shared \<Rightarrow> (instant \<times> rl_shared) option" where
  "rl_access t key st =
     (case rl_take t key st of
        Inl _ \<Rightarrow> None
      | Inr (d, st') \<Rightarrow> Some (snd (snd t) + int (case d of None \<Rightarrow> 0 | Some x \<Rightarrow> x), st'))"

lemma rl_cleanup_step_fields:
  "rl_rate (rl_cleanup_step now st) = rl_rate st"
  "rl_burst (rl_cleanup_step now st) = rl_burst st"
  "rl_idle_ttl (rl_cleanup_step now st) = rl_idle_ttl st"
  "rl_max_keys (rl_cleanup_step now st) = rl_max_keys st"
  by (auto simp: rl_cleanup_step_def rl_maybe_cleanup_def and_then_Inr_iff split: sum.splits if_splits)

lemma rl_evict_step_fields:
  "rl_rate (rl_evict_step k now st) = rl_rate st"
  "rl_burst (rl_evict_step k now st) = rl_burst st"
  "rl_idle_ttl (rl_evict_step k now st) = rl_idle_ttl st"
  "rl_max_keys (rl_evict_step k now st) = rl_max_keys st"
  by (auto simp: rl_evict_step_def rl_evict_if_needed_def and_then_Inr_iff split: sum.splits if_splits)

lemma rl_cleanup_step_buckets:
  "rl_buckets (rl_cleanup_step now st) =
     (if now < rl_next_cleanup st then rl_buckets st
      else retain (\<lambda>_. rl_live st now) (rl_buckets st))"
  by (cases "rl_effective_ttl st")
     (auto simp: rl_cleanup_step_def rl_maybe_cleanup_def rl_live_def [abs_def] retain_def)

lemma rl_evict_step_buckets:
  "rl_buckets (rl_evict_step k now st) =
     evict_oldest (\<lambda>e. \<not> rl_live st now e) bs_last_seen (rl_max_keys st) k (rl_buckets st)"
  by (cases "rl_effective_ttl st")
     (auto simp: rl_evict_step_def rl_evict_if_needed_def rl_live_def [abs_def] evict_oldest_def not_le)

lemma rl_take_policy:
  assumes "rl_take t k st = Inr (d, st')"
  shows "rl_rate st' = rl_rate st" "rl_burst st' = rl_burst st" "rl_idle_ttl st' = rl_idle_ttl st"
proof -
  obtain n nn nt where t: "t = (n, nn, nt)" by (cases t)
  show "rl_rate st' = rl_rate st" "rl_burst st' = rl_burst st" "rl_idle_ttl st' = rl_idle_ttl st"
    using assms unfolding t
    by (auto simp: and_then_Inr_iff Let_def rl_maybe_cleanup_def rl_evict_if_needed_def split: if_splits)
qed

lemma rl_live_policy:
  "rl_rate st' = rl_rate st \<Longrightarrow> rl_burst st' = rl_burst st \<Longrightarrow> rl_idle_ttl st' = rl_idle_ttl st \<Longrightarrow>
   rl_live st' = rl_live st \<and> rl_step st' = rl_step st"
  by (auto simp: rl_live_def [abs_def] rl_step_def rl_effective_ttl_def rl_refill_horizon_def
      cong: option.case_cong)

lemma rl_take_Inr:
  assumes "rl_take (n, nn, nt) key st = Inr (d, st')"
  defines "st2 \<equiv> rl_evict_step key n (rl_cleanup_step n st)"
  shows "\<exists>b. tb_take (bs_bucket (entry_or_insert (rl_buckets st2) key
             \<lparr>bs_bucket = tb_new (rl_burst st) nn, bs_last_seen = n\<rparr>))
             (rl_rate st) (rl_burst st) nt = Inr (d, b)
     \<and> rl_buckets st' = AList.update key \<lparr>bs_bucket = b, bs_last_seen = n\<rparr> (rl_buckets st2)"
proof -
  from assms(1) obtain st1 st2' b where
    1: "rl_maybe_cleanup n st = Inr st1" and 2: "rl_evict_if_needed key n st1 = Inr st2'"
    and 3: "tb_take (bs_bucket (entry_or_insert (rl_buckets st2') key
             \<lparr>bs_bucket = tb_new (rl_burst st2') nn, bs_last_seen = n\<rparr>))
             (rl_rate st2') (rl_burst st2') nt = Inr (d, b)"
    and 4: "st' = st2'\<lparr>rl_buckets := AList.update key \<lparr>bs_bucket = b, bs_last_seen = n\<rparr> (rl_buckets st2')\<rparr>"
    by (auto simp: and_then_Inr_iff Let_def)
  have "st2 = st2'" using 1 2 by (simp add: st2_def rl_cleanup_step_def rl_evict_step_def)
  then show ?thesis
    using 3 4 by (auto simp: st2_def rl_evict_step_fields rl_cleanup_step_fields)
qed

interpretation rl: aged_store rl_buckets rl_live rl_max_keys rl_cleanup_step rl_evict_step
    "\<lambda>now st. rl_next_cleanup st \<le> now" bs_last_seen
  by unfold_locales
     (simp_all add: rl_cleanup_step_buckets rl_evict_step_buckets rl_cleanup_step_fields
       rl_evict_step_fields rl_live_def [abs_def] rl_effective_ttl_def rl_refill_horizon_def)

interpretation rl: keyed_machine rl_buckets rl_live rl_max_keys rl_cleanup_step rl_evict_step
    rl_access fst rl_step
proof (unfold_locales, goal_cases)
  case (1 t k s r s')
  obtain n nn nt where t: "t = (n, nn, nt)" by (cases t)
  define m where "m = rl_buckets (rl_evict_step k n (rl_cleanup_step n s))"
  from 1 obtain d where take: "rl_take (n, nn, nt) k s = Inr (d, s')"
    and r: "r = nt + int (case d of None \<Rightarrow> 0 | Some x \<Rightarrow> x)"
    by (auto simp: rl_access_def t split: sum.splits)
  from rl_take_Inr [OF take] show ?case
    unfolding t fst_conv m_def [symmetric]
    by (cases "map_of m k") (auto simp: rl_step_def r)
next
  case (2 t k s r s')
  then obtain d where "rl_take t k s = Inr (d, s')"
    by (auto simp: rl_access_def split: sum.splits)
  then show ?case using rl_take_policy rl_live_policy by metis
qed

section \<open>Traces of one key\<close>

text \<open>The clock readings never go back.\<close>

definition rl_clocks_ok :: "rl_clock list \<Rightarrow> bool" where
  "rl_clocks_ok ts = sorted (concat (map (\<lambda>(n, nn, nt). [n, nn, nt]) ts))"

lemma rl_clocks_ok_filter: "rl_clocks_ok (map fst ops) \<Longrightarrow> rl_clocks_ok (map fst (filter p ops))"
  by (induction ops) (auto simp: rl_clocks_ok_def)

lemma rl_step_take:
  "rl_step st (n, nn, nt) e = Some (r, e') \<Longrightarrow>
   \<exists>d. tb_take (case e of None \<Rightarrow> tb_new (rl_burst st) nn | Some x \<Rightarrow> bs_bucket x)
         (rl_rate st) (rl_burst st) nt = Inr (d, bs_bucket e') \<and>
       r = nt + int (case d of None \<Rightarrow> 0 | Some x \<Rightarrow> x)"
  by (auto simp: rl_step_def split: sum.splits)

lemma rl_entry_run:
  "entry_run (rl_step st) (Some e) ts = Some rs \<Longrightarrow>
   tb_run (rl_rate st) (rl_burst st) (bs_bucket e) (map (\<lambda>(n, nn, nt). nt) ts) = Inr rs"
proof (induction ts arbitrary: e rs)
  case (Cons t ts)
  obtain n nn nt where t: "t = (n, nn, nt)" by (cases t)
  from Cons.prems obtain r e' rs' where
    step: "rl_step st (n, nn, nt) (Some e) = Some (r, e')"
    and rest: "entry_run (rl_step st) (Some e') ts = Some rs'" and rs: "rs = r # rs'"
    unfolding t by (auto split: option.splits)
  show ?case using rl_step_take [OF step] Cons.IH [OF rest] rs t by auto
qed simp

lemma rl_entry_run_new:
  assumes "entry_run (rl_step st) None ts = Some rs" "rl_clocks_ok ts"
  shows "\<exists>t. sorted (t # map (\<lambda>(n, nn, nt). nt) ts) \<and>
    tb_run (rl_rate st) (rl_burst st) (tb_new (rl_burst st) t) (map (\<lambda>(n, nn, nt). nt) ts) = Inr rs"
proof (cases ts)
  case Nil
  then show ?thesis using assms(1) by simp
next
  case (Cons u us)
  obtain n nn nt where u: "u = (n, nn, nt)" by (cases u)
  have srt: "rl_clocks_ok vs \<Longrightarrow> sorted (map (\<lambda>(n, nn, nt). nt) vs)" for vs
    by (induction vs) (fastforce simp: rl_clocks_ok_def)+
  have "nn \<le> nt" using assms(2) Cons u by (simp add: rl_clocks_ok_def)
  then have "sorted (nn # map (\<lambda>(n, nn, nt). nt) ts)"
    using srt [OF assms(2)] Cons u by auto
  moreover from assms(1) Cons u obtain r e' rs' where
    "rl_step st (n, nn, nt) None = Some (r, e')"
    "entry_run (rl_step st) (Some e') us = Some rs'" "rs = r # rs'"
    by (auto split: option.splits)
  then have "tb_run (rl_rate st) (rl_burst st) (tb_new (rl_burst st) nn) (map (\<lambda>(n, nn, nt). nt) ts) = Inr rs"
    using rl_entry_run Cons u by (fastforce dest!: rl_step_take)
  ultimately show ?thesis by blast
qed

lemma tb_run_conformance:
  assumes "tb_run rate burst b ts = Inr rs" "0 < rate" "1 \<le> burst"
    and "sorted (tb_last_refill b # ts)" "i \<le> j" "j < length rs"
  shows "real (j - i + 1) \<le> burst + rate * (real_of_int (rs ! j - rs ! i) + 1) / 1000000000"
proof -
  have "(real (j - i + 1) - burst) * tb_period rate \<le> real_of_int (rs ! j - rs ! i) + 1"
    using tb_run_spacing [OF assms] by (simp add: algebra_simps)
  then have "(real (j - i + 1) - burst) * (tb_period rate * (rate / 1000000000))
      \<le> (real_of_int (rs ! j - rs ! i) + 1) * (rate / 1000000000)"
    unfolding mult.assoc [symmetric] using assms(2) by (intro mult_right_mono) auto
  moreover have "tb_period rate * (rate / 1000000000) = 1"
    using assms(2) by (simp add: tb_period_def)
  ultimately have "real (j - i + 1) - burst \<le> (real_of_int (rs ! j - rs ! i) + 1) * (rate / 1000000000)"
    by simp
  also have "\<dots> = rate * (real_of_int (rs ! j - rs ! i) + 1) / 1000000000"
    by (simp add: mult.commute)
  finally show ?thesis by linarith
qed

lemma rl_horizon_refills:
  assumes "rl_effective_ttl st = Inr ttl" "0 < rl_rate st" "0 \<le> rl_burst st"
    and "int ttl < idle"
  shows "rl_burst st \<le> real_of_int idle / 1000000000 * rl_rate st"
proof -
  define q where "q = rl_burst st / rl_rate st"
  have "q * 1000000000 \<le> real ttl + 1"
  proof (cases "q \<le> 0")
    case False
    then obtain h where h: "from_secs_f64 (Some q) = Inr h" "h \<le> ttl"
      using assms(1,2) unfolding rl_effective_ttl_def rl_refill_horizon_def
      by (auto simp: f64_div_def and_then_Inr_iff q_def simp flip: not_less)
    then have "q * 1000000000 \<le> real h + 1 / 2"
      using from_secs_f64_close [OF h(1)] by linarith
    also have "\<dots> \<le> real ttl + 1" using h(2) by simp
    finally show ?thesis .
  qed simp
  also have "\<dots> \<le> real_of_int idle" using assms(4) by linarith
  finally have "q \<le> real_of_int idle / 1000000000" by simp
  then have "q * rl_rate st \<le> real_of_int idle / 1000000000 * rl_rate st"
    using assms(2) by (intro mult_right_mono) auto
  then show ?thesis using assms(2) by (simp add: q_def)
qed

lemma tb_take_full:
  assumes "burst \<le> tb_tokens b + real_of_int (now - tb_last_refill b) / 1000000000 * rate"
    and "tb_last_refill b \<le> now" "burst \<le> tb_tokens b' \<and> 0 \<le> rate"
  shows "tb_take b rate burst now = tb_take b' rate burst now"
proof -
  have "tb_level b rate burst now = burst - 1"
    using assms(1,2) by (simp add: tb_level_def as_secs_f64_def duration_since_def min_def)
  moreover have "0 \<le> as_secs_f64 (duration_since now (tb_last_refill b')) * rate"
    using assms(3) by (intro mult_nonneg_nonneg) auto
  then have "tb_level b' rate burst now = burst - 1"
    unfolding tb_level_def using assms(3) by linarith
  ultimately show ?thesis by (simp add: tb_take_level)
qed

section \<open>Properties\<close>

text \<open>Two stores the examples use, and the equations that evaluate them.\<close>

lemmas rl_eval = rl_access_def rl_step_def rl_maybe_cleanup_def rl_evict_if_needed_def rl_effective_ttl_def
    rl_refill_horizon_def f64_div_def from_secs_f64_def round_half_even_def evict_oldest_def contains_key_def
    entry_or_insert_def tb_new_def tb_take_def Let_def duration_since_def as_secs_f64_def

definition rl_example_store :: rl_shared where
  "rl_example_store = \<lparr>rl_buckets = [], rl_rate = 2, rl_burst = 2, rl_max_keys = 1, rl_idle_ttl = 5000000000,
     rl_next_cleanup = 30000000000\<rparr>"

definition rl_debt_store :: rl_shared where
  "rl_debt_store = \<lparr>rl_buckets = [], rl_rate = 1, rl_burst = 1, rl_max_keys = 1, rl_idle_ttl = 0,
     rl_next_cleanup = 30000000000\<rparr>"

text \<open>C0. Conformance of the store.  Take a store that does not know key \<open>k\<close> and any interleaving of
  requests for any keys, with a clock that never goes back and \<open>k\<close> never found idle for more than
  the effective TTL.  Then among the requests of \<open>k\<close>, any \<open>j - i + 1\<close>
  consecutive ones are released over an interval that allows them: at most \<open>burst\<close> plus \<open>rate\<close>
  times the length of the interval in seconds (one nanosecond longer, for the rounding of the delays).\<close>

theorem rl_store_conformance:
  assumes "keyed_trace rl_access st ops = Some (rs, st')" "distinct (map fst (rl_buckets st))"
    and "map_of (rl_buckets st) k = None" "stays_live (rl_live st) fst (rl_step st) k None ops"
    and "rl_clocks_ok (map fst ops)"
    and "0 < rl_rate st" "1 \<le> rl_burst st" "i \<le> j" "j < length (results_of k rs)"
  shows "real (j - i + 1) \<le> rl_burst st +
    rl_rate st * (real_of_int (results_of k rs ! j - results_of k rs ! i) + 1) / 1000000000"
proof -
  have "entry_run (rl_step st) None (ops_of k ops) = Some (results_of k rs)"
    using rl.trace_refines [OF assms(1,2), of k] assms(3,4) by simp
  moreover have "rl_clocks_ok (ops_of k ops)"
    using assms(5) by (rule rl_clocks_ok_filter)
  ultimately obtain t where t: "sorted (t # map (\<lambda>(n, nn, nt). nt) (ops_of k ops))"
    and run: "tb_run (rl_rate st) (rl_burst st) (tb_new (rl_burst st) t)
      (map (\<lambda>(n, nn, nt). nt) (ops_of k ops)) = Inr (results_of k rs)"
    using rl_entry_run_new by blast
  show ?thesis
    using t by (intro tb_run_conformance [OF run assms(6,7) _ assms(8,9)]) (simp add: tb_new_def)
qed

theorem rl_store_conformance_witness:
  "\<exists>st'. keyed_trace rl_access rl_example_store (map (\<lambda>(t, k). ((t, t, t), k))
     [(0, ''a''), (0, ''b''), (0, ''a''), (0, ''a''), (1, ''a'')]) = Some
     ([(''a'', 0), (''b'', 0), (''a'', 0), (''a'', 500000000), (''a'', 1000000000)], st')
   \<and> real (3 - 0 + 1) \<le> rl_burst rl_example_store + rl_rate rl_example_store *
       (real_of_int ([0, 0, 500000000, 1000000000] ! 3 - [0, 0, 500000000, 1000000000] ! 0) + 1) / 1000000000"
proof -
  let ?ops = "map (\<lambda>(t, k). ((t, t, t), k))
     [(0, ''a''), (0, ''b''), (0, ''a''), (0, ''a''), (1, ''a'')] :: (rl_clock \<times> string) list"
  obtain st' where run: "keyed_trace rl_access rl_example_store ?ops = Some
     ([(''a'', 0), (''b'', 0), (''a'', 0), (''a'', 500000000), (''a'', 1000000000)], st')"
    by (simp add: rl_example_store_def rl_eval)
  show ?thesis
    using run rl_store_conformance [OF run, of "''a''" 0 3]
    by (simp add: rl_example_store_def rl_eval rl_live_def rl_clocks_ok_def)
qed




text \<open>C32. A limiter built with a count of zero panics on its first request, in
  \<open>Duration::from_secs_f64\<close> of an infinite delay, and leaves the mutex of its store poisoned.\<close>

theorem rl_zero_count_poisons:
  assumes "0 < window"
  shows "\<exists>l. rl_keyed 0 window key_fn now = Some l \<and>
    with_lock (rl_take t k) (limiter_store l) =
      (Inl (Panicked ''cannot convert float seconds to Duration''), Poisoned)"
proof -
  obtain n nn nt where t: "t = (n, nn, nt)" by (cases t)
  show ?thesis using assms unfolding t
    by (simp add: rl_keyed_def f64_div_def as_secs_f64_def rl_store_new_def rl_maybe_cleanup_def
      rl_effective_ttl_def rl_refill_horizon_def rl_evict_if_needed_def rl_default_max_keys_def
      entry_or_insert_def tb_new_def tb_take_def from_secs_f64_def Let_def retain_def)
qed

theorem rl_zero_count_poisons_witness:
  "0 < (1000000000 :: duration) \<and> (\<exists>l. rl_keyed 0 1000000000 (\<lambda>_. []) 0 = Some l \<and>
    with_lock (rl_take (1, 1, 1) []) (limiter_store l) =
      (Inl (Panicked ''cannot convert float seconds to Duration''), Poisoned))"
  using rl_zero_count_poisons [of 1000000000 "\<lambda>_. []" 0 "(1, 1, 1)" "[]"] by simp



end
