(* ===== verification/Sliding_Window.thy ===== *)
theory Sliding_Window
  imports Keyed_Store Http_Service Redis_Link "HOL-Library.Multiset"
begin

text \<open>
  The sliding-window limiter, \<^verbatim>\<open>src/src/middleware/sliding_window.rs\<close>: the log of one key,
  \<open>SharedState\<close>, the in-memory store, the builder, the service and the Redis-backed store.

  Shown here: with a positive count and a clock that does not go back a take never panics, keeps
  the log sorted and delays by at most the window; a request that is admitted at once never
  exceeds the cap, counting every release of the window that ends with it; requests that are
  delayed can exceed it, because all of them reserve the same slot; the Lua script of the Redis
  store refines the in-memory log.
\<close>

section \<open>Shared state\<close>

record window_state =
  ws_timestamps :: "instant list"
  ws_last_seen :: instant

record sw_shared =
  sw_windows :: "(string \<times> window_state) list"
  sw_count :: nat
  sw_window :: duration
  sw_max_keys :: nat
  sw_idle_ttl :: duration
  sw_next_cleanup :: instant

definition sw_default_max_keys :: nat where
  "sw_default_max_keys = 10000"

definition sw_default_idle_ttl :: duration where
  "sw_default_idle_ttl = from_secs 600"

definition sw_cleanup_interval :: duration where
  "sw_cleanup_interval = from_secs 30"

definition sw_effective_ttl :: "sw_shared \<Rightarrow> duration" where
  "sw_effective_ttl st = max (sw_idle_ttl st) (sw_window st)"

definition sw_maybe_cleanup :: "instant \<Rightarrow> sw_shared \<Rightarrow> sw_shared" where
  "sw_maybe_cleanup now st =
     (if now < sw_next_cleanup st then st
      else st\<lparr>sw_windows := retain (\<lambda>_ e. duration_since now (ws_last_seen e) \<le> sw_effective_ttl st)
                              (sw_windows st),
              sw_next_cleanup := now + int sw_cleanup_interval\<rparr>)"

definition sw_evict_if_needed :: "string \<Rightarrow> instant \<Rightarrow> sw_shared \<Rightarrow> sw_shared" where
  "sw_evict_if_needed key now st =
     st\<lparr>sw_windows := evict_oldest (\<lambda>e. sw_effective_ttl st < duration_since now (ws_last_seen e))
          ws_last_seen (sw_max_keys st) key (sw_windows st)\<rparr>"

text \<open>The part of \<open>take\<close> that works on the log of one key: drain the front, then admit or reserve.\<close>

definition sw_log_take ::
  "nat \<Rightarrow> duration \<Rightarrow> instant \<Rightarrow> instant list \<Rightarrow> (duration option \<times> instant list) result"
where
  "sw_log_take cnt window now timestamps =
     (let ts = dropWhile (\<lambda>t. t \<le> now - int window) timestamps
      in if length ts < cnt then Inr (None, ts @ [now])
         else (case ts of
                 [] \<Rightarrow> Inl (Panicked ''Out of bounds access'')
               | oldest # _ \<Rightarrow>
                   and_then (duration_sub window (duration_since now oldest)) (\<lambda>delay.
                     Inr (Some delay, ts @ [now + int delay]))))"

definition sw_take :: "instant \<Rightarrow> string \<Rightarrow> sw_shared \<Rightarrow> (duration option \<times> sw_shared) result" where
  "sw_take now key st =
     (let st2 = sw_evict_if_needed key now (sw_maybe_cleanup now st);
          e = entry_or_insert (sw_windows st2) key \<lparr>ws_timestamps = [], ws_last_seen = now\<rparr>
      in and_then (sw_log_take (sw_count st2) (sw_window st2) now (ws_timestamps e)) (\<lambda>(d, ts).
           Inr (d, st2\<lparr>sw_windows :=
             AList.update key \<lparr>ws_timestamps = ts, ws_last_seen = now\<rparr> (sw_windows st2)\<rparr>)))"

section \<open>In-memory store, builder and service\<close>

definition sw_store_new :: "nat \<Rightarrow> duration \<Rightarrow> instant \<Rightarrow> sw_shared mutex" where
  "sw_store_new cnt window now = Unlocked
     \<lparr>sw_windows = [], sw_count = cnt, sw_window = window, sw_max_keys = sw_default_max_keys,
      sw_idle_ttl = sw_default_idle_ttl, sw_next_cleanup = now + int sw_cleanup_interval\<rparr>"

definition sw_set_max_keys :: "nat \<Rightarrow> sw_shared \<Rightarrow> sw_shared" where
  "sw_set_max_keys n st = st\<lparr>sw_max_keys := max n 1\<rparr>"

definition sw_set_idle_ttl :: "duration \<Rightarrow> sw_shared \<Rightarrow> sw_shared" where
  "sw_set_idle_ttl ttl st = st\<lparr>sw_idle_ttl := ttl\<rparr>"

definition sw_store_take ::
  "'w env \<Rightarrow> ('w, sw_shared mutex) cell \<Rightarrow> string \<Rightarrow> 'w \<Rightarrow> duration option result \<times> 'w"
where
  "sw_store_take env c key w =
     (case env_now env w of (now, w1) \<Rightarrow> lock_cell c (sw_take now key) w1)"

record sliding_window =
  sliding_store :: "sw_shared mutex"
  sliding_key :: "request \<Rightarrow> string"

definition sw_keyed ::
  "nat \<Rightarrow> duration \<Rightarrow> (request \<Rightarrow> string) \<Rightarrow> instant \<Rightarrow> sliding_window"
where
  "sw_keyed cnt window key_fn now =
     \<lparr>sliding_store = sw_store_new cnt window now, sliding_key = key_fn\<rparr>"

definition sw_extract_host :: "request \<Rightarrow> string" where
  "sw_extract_host req = (case request_host req of Some h \<Rightarrow> h | None \<Rightarrow> ''unknown'')"

definition sw_global :: "nat \<Rightarrow> duration \<Rightarrow> instant \<Rightarrow> sliding_window" where
  "sw_global cnt window = sw_keyed cnt window (\<lambda>_. [])"

definition sw_per_host :: "nat \<Rightarrow> duration \<Rightarrow> instant \<Rightarrow> sliding_window" where
  "sw_per_host cnt window = sw_keyed cnt window sw_extract_host"

definition sw_call ::
  "'w env \<Rightarrow> (string \<Rightarrow> 'w \<Rightarrow> duration option result \<times> 'w) \<Rightarrow> (request \<Rightarrow> string) \<Rightarrow> 'w layer"
where
  "sw_call env store_take key_fn inner req w =
     (let key = key_fn req; (fut, w1) = inner req w
      in ((\<lambda>w. case store_take key w of
             (Inl e, w') \<Rightarrow> (Inl e, w')
           | (Inr None, w') \<Rightarrow> fut w'
           | (Inr (Some delay), w') \<Rightarrow> fut (env_sleep env delay w')), w1))"

section \<open>Redis-backed store\<close>

record redis_sw_store =
  rsw_conn :: redis_connection
  rsw_count :: nat
  rsw_window :: duration
  rsw_namespace :: string

definition redis_sw_new :: "redis_connection \<Rightarrow> nat \<Rightarrow> duration \<Rightarrow> redis_sw_store" where
  "redis_sw_new conn cnt window =
     \<lparr>rsw_conn = conn, rsw_count = cnt, rsw_window = window, rsw_namespace = ''sliding_window''\<rparr>"

definition redis_sw_scope :: "string \<Rightarrow> redis_sw_store \<Rightarrow> redis_sw_store" where
  "redis_sw_scope ident s = s\<lparr>rsw_namespace := ''sliding_window:'' @ ident\<rparr>"

text \<open>\<open>member\<close> draws the two random numbers that name the request in the sorted set.\<close>

definition redis_sw_take ::
  "('w \<Rightarrow> string \<times> 'w) \<Rightarrow> 'w redis_server \<Rightarrow> redis_sw_store \<Rightarrow>
   (string \<Rightarrow> 'w \<Rightarrow> duration option result \<times> 'w) \<Rightarrow> string \<Rightarrow> 'w \<Rightarrow> duration option result \<times> 'w"
where
  "redis_sw_take member srv s fallback key w =
     (case rs_connect srv w of (c, w1) \<Rightarrow>
        (case get_connection c of
           Inl _ \<Rightarrow> fallback key w1
         | Inr _ \<Rightarrow>
             (case member w1 of (m, w2) \<Rightarrow>
                (case rs_invoke srv
                   \<lparr>sc_key = prefixed_key (rsw_conn s) (rsw_namespace s) key,
                    sc_args = [Num (real (rsw_count s)),
                      Num (real (as_millis (rsw_window s) mod 2 ^ 64)), Text m]\<rparr> w2 of
                   (Inl _, w3) \<Rightarrow> fallback key w3
                 | (Inr delay_ms, w3) \<Rightarrow>
                     (Inr (if 0 < delay_ms then Some (from_millis (nat delay_ms)) else None), w3)))))"

text \<open>
  \<open>SLIDING_WINDOW_LUA\<close> on the sorted set of one key, an association list from members to scores,
  at the server time \<open>now_ms\<close>: the reply and the set it leaves.
\<close>

definition sliding_window_lua ::
  "nat \<Rightarrow> int \<Rightarrow> string \<Rightarrow> int \<Rightarrow> (string \<times> int) list \<Rightarrow> int \<times> (string \<times> int) list"
where
  "sliding_window_lua cnt window_ms member now_ms zset =
     (let cutoff = now_ms - window_ms;
          z = filter (\<lambda>(_, score). \<not> score \<le> cutoff) zset
      in if length z < cnt then (0, AList.update member now_ms z)
         else (case min_by_key snd z of
                 None \<Rightarrow> (0, z)
               | Some (_, oldest_ms) \<Rightarrow>
                   let delay_ms = max 0 (window_ms - (now_ms - oldest_ms))
                   in (delay_ms, AList.update member (now_ms + delay_ms) z)))"

section \<open>The shared state as a keyed machine\<close>

definition sw_live :: "sw_shared \<Rightarrow> instant \<Rightarrow> window_state \<Rightarrow> bool" where
  "sw_live st now e = (duration_since now (ws_last_seen e) \<le> sw_effective_ttl st)"

text \<open>The result of an access is the release time and whether the request was admitted at once.\<close>

definition sw_step ::
  "sw_shared \<Rightarrow> instant \<Rightarrow> window_state option \<Rightarrow> ((instant \<times> bool) \<times> window_state) option"
where
  "sw_step st now e =
     (case sw_log_take (sw_count st) (sw_window st) now
             (case e of None \<Rightarrow> [] | Some x \<Rightarrow> ws_timestamps x) of
        Inl _ \<Rightarrow> None
      | Inr (d, ts) \<Rightarrow> Some ((now + int (case d of None \<Rightarrow> 0 | Some x \<Rightarrow> x), d = None),
                           \<lparr>ws_timestamps = ts, ws_last_seen = now\<rparr>))"

definition sw_access ::
  "instant \<Rightarrow> string \<Rightarrow> sw_shared \<Rightarrow> ((instant \<times> bool) \<times> sw_shared) option"
where
  "sw_access now key st =
     (case sw_take now key st of
        Inl _ \<Rightarrow> None
      | Inr (d, st') \<Rightarrow> Some ((now + int (case d of None \<Rightarrow> 0 | Some x \<Rightarrow> x), d = None), st'))"

lemma sw_prepare_simps [simp]:
  "sw_count (sw_maybe_cleanup now st) = sw_count st"
  "sw_window (sw_maybe_cleanup now st) = sw_window st"
  "sw_max_keys (sw_maybe_cleanup now st) = sw_max_keys st"
  "sw_idle_ttl (sw_maybe_cleanup now st) = sw_idle_ttl st"
  "sw_count (sw_evict_if_needed k now st) = sw_count st"
  "sw_window (sw_evict_if_needed k now st) = sw_window st"
  "sw_max_keys (sw_evict_if_needed k now st) = sw_max_keys st"
  "sw_idle_ttl (sw_evict_if_needed k now st) = sw_idle_ttl st"
  by (simp_all add: sw_maybe_cleanup_def sw_evict_if_needed_def)

lemma sw_policy_cong:
  "sw_count st' = sw_count st \<Longrightarrow> sw_window st' = sw_window st \<Longrightarrow> sw_idle_ttl st' = sw_idle_ttl st \<Longrightarrow>
   sw_live st' = sw_live st \<and> sw_step st' = sw_step st"
  by (simp add: sw_live_def [abs_def] sw_step_def [abs_def] sw_effective_ttl_def)

lemma sw_take_policy:
  assumes "sw_take now k st = Inr (d, st')"
  shows "sw_count st' = sw_count st" "sw_window st' = sw_window st" "sw_idle_ttl st' = sw_idle_ttl st"
  using assms by (auto simp: sw_take_def Let_def and_then_Inr_iff)

interpretation sw: aged_store sw_windows sw_live sw_max_keys sw_maybe_cleanup sw_evict_if_needed
    "\<lambda>now st. sw_next_cleanup st \<le> now" ws_last_seen
  by unfold_locales
     (auto simp: sw_maybe_cleanup_def sw_evict_if_needed_def sw_live_def [abs_def] sw_effective_ttl_def
       not_le)

interpretation sw: keyed_machine sw_windows sw_live sw_max_keys sw_maybe_cleanup sw_evict_if_needed
    sw_access "\<lambda>now. now" sw_step
proof (unfold_locales, goal_cases)
  case (1 now k s r s')
  define st2 where "st2 = sw_evict_if_needed k now (sw_maybe_cleanup now s)"
  have "sw_count st2 = sw_count s" "sw_window st2 = sw_window s" by (simp_all add: st2_def)
  with 1 show ?case
    unfolding st2_def [symmetric]
    by (cases "map_of (sw_windows st2) k")
       (auto simp: sw_access_def sw_take_def sw_step_def Let_def and_then_Inr_iff st2_def [symmetric]
         split: sum.splits)
next
  case (2 now k s r s')
  then obtain d where "sw_take now k s = Inr (d, s')"
    by (auto simp: sw_access_def split: sum.splits)
  then show ?case using sw_take_policy sw_policy_cong by metis
qed

section \<open>The log of one key\<close>

text \<open>
  The log is sorted; its first \<open>count\<close> entries are in the past; a later entry was reserved
  for the moment at which the entry \<open>count\<close> places before it, or an earlier one, leaves the window;
  and no entry lies more than a window beyond the front, or the clock.
\<close>

definition sw_log_ok :: "nat \<Rightarrow> duration \<Rightarrow> instant \<Rightarrow> instant list \<Rightarrow> bool" where
  "sw_log_ok cnt window now ts \<longleftrightarrow> sorted ts \<and>
     (\<forall>i < length ts. if i < cnt then ts ! i \<le> now else ts ! i \<le> ts ! (i - cnt) + int window) \<and>
     (\<forall>t \<in> set ts. t \<le> max now (hd ts + int window))"

lemma sw_log_ok_Nil [simp]: "sw_log_ok cnt window now []"
  by (simp add: sw_log_ok_def)

lemma sw_log_ok_drain:
  assumes "sw_log_ok cnt window past ts" "past \<le> now"
  shows "sw_log_ok cnt window now (dropWhile (\<lambda>t. t \<le> now - int window) ts)"
proof -
  define n where "n = length (takeWhile (\<lambda>t. t \<le> now - int window) ts)"
  define us where "us = dropWhile (\<lambda>t. t \<le> now - int window) ts"
  have us: "us = drop n ts" by (simp add: us_def n_def dropWhile_eq_drop)
  have n: "n \<le> length ts" by (simp add: n_def length_takeWhile_le)
  have gone: "j < n \<Longrightarrow> ts ! j \<le> now - int window" for j
    using nth_length_takeWhile takeWhile_nth [of j "\<lambda>t. t \<le> now - int window" ts]
      set_takeWhileD [of "ts ! j" "\<lambda>t. t \<le> now - int window" ts] nth_mem
    unfolding n_def by metis
  have srt: "sorted us" using assms(1) us by (simp add: sw_log_ok_def sorted_wrt_drop)
  have idx: "if i < cnt then us ! i \<le> now else us ! i \<le> us ! (i - cnt) + int window"
    if i: "i < length us" for i
  proof -
    have *: "if i + n < cnt then ts ! (i + n) \<le> past
        else ts ! (i + n) \<le> ts ! (i + n - cnt) + int window"
      using assms(1) i us by (simp add: sw_log_ok_def)
    show ?thesis
    proof (cases "i < cnt")
      case True
      show ?thesis
      proof (cases "i + n < cnt")
        case True
        then show ?thesis using * i us n assms(2) by (simp add: add.commute)
      next
        case False
        then have "i + n - cnt < n" using \<open>i < cnt\<close> by arith
        then show ?thesis using * False \<open>i < cnt\<close> gone us n i by (fastforce simp: add.commute)
      qed
    next
      case False
      then have "i + n - cnt = n + (i - cnt)" by simp
      then show ?thesis using * False i us n by (simp add: add.commute)
    qed
  qed
  have top: "t \<le> max now (hd us + int window)" if t: "t \<in> set us" for t
  proof -
    have "t \<in> set ts" "hd us \<in> set ts" using t us by (auto dest: in_set_dropD simp: hd_in_set)
       (metis hd_in_set in_set_dropD list.distinct(1) list.set_cases)
    moreover have "hd ts \<le> hd us"
      using assms(1) \<open>hd us \<in> set ts\<close> by (cases ts) (auto simp: sw_log_ok_def)
    ultimately show ?thesis using assms unfolding sw_log_ok_def by fastforce
  qed
  show ?thesis using srt idx top unfolding us_def [symmetric] sw_log_ok_def by blast
qed

lemma sw_log_take_ok:
  assumes "sw_log_ok cnt window past ts" "past \<le> now" "0 < cnt"
  defines "us \<equiv> dropWhile (\<lambda>t. t \<le> now - int window) ts"
  shows "\<exists>d. sw_log_take cnt window now ts = Inr (d, us @ [now + int (case d of None \<Rightarrow> 0 | Some x \<Rightarrow> x)])
    \<and> sw_log_ok cnt window now (us @ [now + int (case d of None \<Rightarrow> 0 | Some x \<Rightarrow> x)])
    \<and> (d = None \<longleftrightarrow> length us < cnt)
    \<and> (\<forall>x. d = Some x \<longrightarrow> 0 < x \<and> x \<le> window \<and> now + int x = hd us + int window)"
proof (cases "length us < cnt")
  case True
  have ok: "sw_log_ok cnt window now us" unfolding us_def by (rule sw_log_ok_drain [OF assms(1,2)])
  then have past: "\<forall>t \<in> set us. t \<le> now"
    using True by (auto simp: sw_log_ok_def in_set_conv_nth)
  have "sw_log_ok cnt window now (us @ [now])"
    using ok past True unfolding sw_log_ok_def
    by (auto simp: sorted_append nth_append hd_append)
  then show ?thesis
    using True by (intro exI [of _ None]) (simp add: sw_log_take_def us_def)
next
  case False
  have ok: "sw_log_ok cnt window now us" unfolding us_def by (rule sw_log_ok_drain [OF assms(1,2)])
  obtain h vs where us: "us = h # vs" using False assms(3) by (cases us) auto
  have h: "now - int window < h" using us hd_dropWhile [of "\<lambda>t. t \<le> now - int window" ts] unfolding us_def by fastforce
  have h': "h \<le> now" using ok us assms(3) unfolding sw_log_ok_def by force
  define x where "x = window - duration_since now h"
  have x: "now + int x = h + int window" "duration_since now h \<le> window" "0 < x" "x \<le> window"
    using h h' by (auto simp: x_def duration_since_def)
  have top: "\<forall>t \<in> set us. t \<le> h + int window" using ok us h unfolding sw_log_ok_def by fastforce
  have front: "i < length us \<Longrightarrow> h \<le> us ! i" for i
    using ok us unfolding sw_log_ok_def by (metis list.set_intros(1) nth_Cons_0 nth_mem sorted_nth_mono zero_le length_greater_0_conv list.discI)
  have "if i < cnt then (us @ [now + int x]) ! i \<le> now
      else (us @ [now + int x]) ! i \<le> (us @ [now + int x]) ! (i - cnt) + int window"
    if "i < length (us @ [now + int x])" for i
  proof (cases "i < length us")
    case True
    then have "i - cnt < length us" by simp
    then show ?thesis using ok True unfolding sw_log_ok_def by (simp add: nth_append)
  next
    case False
    then have "i = length us" using that by simp
    moreover have "i - cnt < length us" using assms(3) \<open>i = length us\<close> us by simp
    ultimately show ?thesis
      using \<open>\<not> length us < cnt\<close> front [of "i - cnt"] x(1) by (simp add: nth_append)
  qed
  moreover have "sorted (us @ [now + int x])"
    using ok top x(1) by (auto simp: sw_log_ok_def sorted_append)
  moreover have "\<forall>t \<in> set (us @ [now + int x]). t \<le> max now (hd (us @ [now + int x]) + int window)"
    using top x(1) us by auto
  ultimately have "sw_log_ok cnt window now (us @ [now + int x])"
    unfolding sw_log_ok_def by blast
  then show ?thesis
    using False x us by (intro exI [of _ "Some x"])
      (simp add: sw_log_take_def us_def [symmetric] duration_sub_def x_def)
qed

lemma sw_log_ok_later: "sw_log_ok cnt window past ts \<Longrightarrow> past \<le> now \<Longrightarrow> sw_log_ok cnt window now ts"
  unfolding sw_log_ok_def by (metis max.mono order.refl order_trans)

lemma sw_step_ok:
  assumes "sw_log_ok (sw_count st) (sw_window st) past ts" "past \<le> now" "0 < sw_count st"
    and "ts = (case e of None \<Rightarrow> [] | Some x \<Rightarrow> ws_timestamps x)"
  defines "us \<equiv> dropWhile (\<lambda>t. t \<le> now - int (sw_window st)) ts"
  shows "\<exists>r imm. sw_step st now e = Some ((r, imm), \<lparr>ws_timestamps = us @ [r], ws_last_seen = now\<rparr>)
    \<and> sw_log_ok (sw_count st) (sw_window st) now (us @ [r])
    \<and> (imm \<longrightarrow> r = now \<and> length us < sw_count st)
    \<and> now \<le> r \<and> r \<le> now + int (sw_window st)"
proof -
  obtain d where d: "sw_log_take (sw_count st) (sw_window st) now ts =
      Inr (d, us @ [now + int (case d of None \<Rightarrow> 0 | Some x \<Rightarrow> x)])"
    "sw_log_ok (sw_count st) (sw_window st) now (us @ [now + int (case d of None \<Rightarrow> 0 | Some x \<Rightarrow> x)])"
    "d = None \<longleftrightarrow> length us < sw_count st"
    "\<forall>x. d = Some x \<longrightarrow> 0 < x \<and> x \<le> sw_window st \<and> now + int x = hd us + int (sw_window st)"
    using sw_log_take_ok [OF assms(1-3)] unfolding us_def by blast
  then show ?thesis
    using assms(4)
    by (intro exI [of _ "now + int (case d of None \<Rightarrow> 0 | Some x \<Rightarrow> x)"] exI [of _ "d = None"])
       (auto simp: sw_step_def split: option.split)
qed

text \<open>Every release of the past is in the log or has left the window.\<close>

lemma sw_run_cap:
  assumes "entry_run (sw_step st) e nows = Some rs" "sorted (past # nows)" "0 < sw_count st"
    and "sw_log_ok (sw_count st) (sw_window st) past ts"
    and "ts = (case e of None \<Rightarrow> [] | Some x \<Rightarrow> ws_timestamps x)"
    and "\<forall>t \<in> set old. t \<le> past - int (sw_window st)"
    and "j < length rs" "rs ! j = (r, True)"
  shows "length (filter (\<lambda>t. r - int (sw_window st) < t \<and> t \<le> r)
      (old @ ts @ map fst (take (Suc j) rs))) \<le> sw_count st"
  using assms
proof (induction nows arbitrary: e rs past ts old j)
  case (Cons now nows)
  define p where "p = (\<lambda>t. t \<le> now - int (sw_window st))"
  define us where "us = dropWhile p ts"
  have pn: "past \<le> now" using Cons.prems(2) by simp
  obtain r0 imm where step: "sw_step st now e =
      Some ((r0, imm), \<lparr>ws_timestamps = us @ [r0], ws_last_seen = now\<rparr>)"
    and ok: "sw_log_ok (sw_count st) (sw_window st) now (us @ [r0])"
    and imm: "imm \<longrightarrow> r0 = now \<and> length us < sw_count st"
    using sw_step_ok [OF Cons.prems(4) pn Cons.prems(3,5)] unfolding us_def p_def by blast
  from Cons.prems(1) step obtain rs' where
    rest: "entry_run (sw_step st) (Some \<lparr>ws_timestamps = us @ [r0], ws_last_seen = now\<rparr>) nows = Some rs'"
    and rs: "rs = (r0, imm) # rs'"
    by (auto split: option.splits)
  have old: "\<forall>t \<in> set (old @ takeWhile p ts). t \<le> now - int (sw_window st)"
    using Cons.prems(6) pn set_takeWhileD unfolding p_def by fastforce
  have split: "old @ ts @ zs = (old @ takeWhile p ts) @ us @ zs" for zs
    unfolding us_def by (metis append_assoc takeWhile_dropWhile_id)
  show ?case
  proof (cases j)
    case 0
    then have r: "r0 = r" "imm" using Cons.prems(8) rs by auto
    then have "\<not> (r - int (sw_window st) < t \<and> t \<le> r)" if "t \<in> set (old @ takeWhile p ts)" for t
      using bspec [OF old that] imm by simp
    then have "filter (\<lambda>t. r - int (sw_window st) < t \<and> t \<le> r) (old @ takeWhile p ts) = []"
      unfolding filter_empty_conv by blast
    then have "filter (\<lambda>t. r - int (sw_window st) < t \<and> t \<le> r) ((old @ takeWhile p ts) @ us @ [r0]) =
        filter (\<lambda>t. r - int (sw_window st) < t \<and> t \<le> r) (us @ [r0])"
      unfolding filter_append by simp
    then have "length (filter (\<lambda>t. r - int (sw_window st) < t \<and> t \<le> r) ((old @ takeWhile p ts) @ us @ [r0]))
        \<le> length us + 1"
      using length_filter_le [of "\<lambda>t. r - int (sw_window st) < t \<and> t \<le> r" "us @ [r0]"] by (simp del: filter_append)
    moreover have one: "map fst (take (Suc j) rs) = [r0]" using 0 rs by simp
    ultimately show ?thesis unfolding split one using imm r by linarith
  next
    case (Suc i)
    have "length (filter (\<lambda>t. r - int (sw_window st) < t \<and> t \<le> r)
      ((old @ takeWhile p ts) @ (us @ [r0]) @ map fst (take (Suc i) rs'))) \<le> sw_count st"
      using Cons.prems(2,7,8) rs Suc
      by (intro Cons.IH [OF rest _ Cons.prems(3) ok _ old]) auto
    moreover have "map fst (take (Suc j) rs) = r0 # map fst (take (Suc i) rs')" using Suc rs by simp
    ultimately show ?thesis unfolding split by simp
  qed
qed simp

definition sw_ok :: "instant \<Rightarrow> sw_shared \<Rightarrow> bool" where
  "sw_ok now st \<longleftrightarrow> distinct (map fst (sw_windows st)) \<and>
     (\<forall>(k, e) \<in> set (sw_windows st). sw_log_ok (sw_count st) (sw_window st) now (ws_timestamps e))"

lemma sw_access_total:
  assumes "sw_ok past st" "past \<le> now" "0 < sw_count st"
  shows "\<exists>r imm st'. sw_access now k st = Some ((r, imm), st') \<and> sw_ok now st'
    \<and> now \<le> r \<and> r \<le> now + int (sw_window st)"
proof -
  define st2 where "st2 = sw_evict_if_needed k now (sw_maybe_cleanup now st)"
  have pol: "sw_count st2 = sw_count st" "sw_window st2 = sw_window st" by (simp_all add: st2_def)
  have sub: "set (sw_windows st2) \<subseteq> set (sw_windows st)"
    unfolding st2_def by (rule sw.prepare_subset)
  have dist: "distinct (map fst (sw_windows st2))"
    using assms(1) unfolding st2_def sw_ok_def by (intro sw.prepare_distinct) simp
  define ts where "ts = (case map_of (sw_windows st2) k of None \<Rightarrow> [] | Some x \<Rightarrow> ws_timestamps x)"
  have "sw_log_ok (sw_count st) (sw_window st) past ts"
    using assms(1) sub by (auto simp: ts_def sw_ok_def split: option.splits dest: map_of_SomeD)
  then obtain d ts' where d: "sw_log_take (sw_count st) (sw_window st) now ts = Inr (d, ts')"
    "sw_log_ok (sw_count st) (sw_window st) now ts'" "\<forall>x. d = Some x \<longrightarrow> x \<le> sw_window st"
    using sw_log_take_ok [OF _ assms(2,3)] by blast
  define st' where "st' = st2\<lparr>sw_windows :=
     AList.update k \<lparr>ws_timestamps = ts', ws_last_seen = now\<rparr> (sw_windows st2)\<rparr>"
  have "ws_timestamps (entry_or_insert (sw_windows st2) k \<lparr>ws_timestamps = [], ws_last_seen = now\<rparr>) = ts"
    by (simp add: ts_def entry_or_insert_def split: option.split)
  then have "sw_take now k st = Inr (d, st')"
    using d(1) by (simp add: sw_take_def Let_def st2_def [symmetric] pol st'_def)
  moreover have "sw_ok now st'"
    using assms(1,2) d(2) sub dist sw_log_ok_later unfolding sw_ok_def st'_def
    by (fastforce simp: distinct_update pol dest: subsetD [OF set_AList_update])
  ultimately show ?thesis using d(3) by (auto simp: sw_access_def split: option.split)
qed

lemma sw_same_slot:
  assumes "sw_windows st = [(k, \<lparr>ws_timestamps = t0 # replicate m (t0 + int w), ws_last_seen = s\<rparr>)]"
    and "sw_count st = 1" "sw_window st = w" "t0 \<le> s" "s \<le> now" "now < t0 + int w"
  shows "\<exists>st'. sw_access now k st = Some ((t0 + int w, False), st')
    \<and> sw_windows st' = [(k, \<lparr>ws_timestamps = t0 # replicate (Suc m) (t0 + int w), ws_last_seen = now\<rparr>)]
    \<and> sw_count st' = 1 \<and> sw_window st' = w"
proof -
  let ?e = "\<lparr>ws_timestamps = t0 # replicate m (t0 + int w), ws_last_seen = s\<rparr>"
  define st2 where "st2 = sw_evict_if_needed k now (sw_maybe_cleanup now st)"
  have "sw_live st now ?e"
    using assms(3-6) by (simp add: sw_live_def sw_effective_ttl_def duration_since_def)
  then have "sw_windows (sw_maybe_cleanup now st) = [(k, ?e)]"
    using assms(1) by (simp add: sw.cleanup_retain retain_def)
  then have st2: "sw_windows st2 = [(k, ?e)]" "sw_count st2 = 1" "sw_window st2 = w"
    using assms(2,3) by (simp_all add: st2_def sw.evict_oldest evict_oldest_def contains_key_def)
  have "dropWhile (\<lambda>t. t \<le> now - int w) (t0 # replicate m (t0 + int w)) = t0 # replicate m (t0 + int w)"
    using assms(6) by simp
  moreover have "duration_sub w (duration_since now t0) = Inr (nat (t0 + int w - now))"
    using assms(4-6) unfolding duration_sub_def duration_since_def by (auto; arith)
  ultimately have "sw_log_take 1 w now (t0 # replicate m (t0 + int w)) =
      Inr (Some (nat (t0 + int w - now)), t0 # replicate (Suc m) (t0 + int w))"
    unfolding sw_log_take_def Let_def using assms(6) by (simp add: replicate_append_same)
  then show ?thesis
    using assms(6) by (simp add: sw_access_def sw_take_def st2_def [symmetric] st2 Let_def)
qed

lemma sw_same_slot_trace:
  assumes "sw_windows st = [(k, \<lparr>ws_timestamps = t0 # replicate m (t0 + int w), ws_last_seen = s\<rparr>)]"
    and "sw_count st = 1" "sw_window st = w" "t0 \<le> s" "sorted (s # nows)" "\<forall>t \<in> set nows. t < t0 + int w"
  shows "map_option fst (keyed_trace sw_access st (map (\<lambda>t. (t, k)) nows)) =
    Some (map (\<lambda>_. (k, t0 + int w, False)) nows)"
  using assms
proof (induction nows arbitrary: st m s)
  case (Cons now nows)
  from sw_same_slot [OF Cons.prems(1-4), of now] obtain st' where
    "sw_access now k st = Some ((t0 + int w, False), st')"
    "sw_windows st' = [(k, \<lparr>ws_timestamps = t0 # replicate (Suc m) (t0 + int w), ws_last_seen = now\<rparr>)]"
    "sw_count st' = 1" "sw_window st' = w"
    using Cons.prems(5,6) by auto
  then show ?case
    using Cons.IH [of st' "Suc m" now] Cons.prems(4-6)
    by (auto simp: option.map_comp comp_def case_prod_unfold)
qed simp

lemma sorted_dropWhile_filter:
  fixes c :: int
  shows "sorted ts \<Longrightarrow> dropWhile (\<lambda>t. t \<le> c) ts = filter (\<lambda>t. \<not> t \<le> c) ts"
  by (induction ts) (auto simp: filter_id_conv intro!: filter_True [symmetric])

lemma min_by_key_hd:
  fixes g :: "'a \<Rightarrow> 'b::linorder" and us :: "int list"
  assumes "sorted us" "us \<noteq> []" "mset us = image_mset f (mset z)" "\<And>x y. f x \<le> f y \<longleftrightarrow> g x \<le> g y"
  shows "\<exists>m. min_by_key g z = Some m \<and> f m = hd us"
proof -
  have set: "set us = f ` set z" using assms(3) by (metis set_image_mset set_mset_mset)
  then obtain m where m: "min_by_key g z = Some m"
    using assms(2) by (cases "min_by_key g z") auto
  have "f m \<in> set us" using min_by_key_in_set [OF m] set by simp
  then have "hd us \<le> f m" using assms(1,2) by (cases us) auto
  moreover obtain x where "x \<in> set z" "f x = hd us" using set assms(2) by (metis hd_in_set imageE)
  then have "f m \<le> hd us" using min_by_key_least [OF m] assms(4) by metis
  ultimately show ?thesis using m by auto
qed

section \<open>Properties\<close>

definition sw_example_store :: sw_shared where
  "sw_example_store = \<lparr>sw_windows = [], sw_count = 2, sw_window = 10, sw_max_keys = 1, sw_idle_ttl = 100,
     sw_next_cleanup = 30\<rparr>"

lemmas sw_eval = sw_access_def sw_take_def sw_evict_if_needed_def sw_maybe_cleanup_def sw_step_def
  sw_log_take_def sw_effective_ttl_def sw_live_def retain_def evict_oldest_def contains_key_def
  entry_or_insert_def duration_sub_def duration_since_def Let_def





text \<open>C33. The cap does not hold for requests that are delayed.  With a count of one, every request
  that arrives in the window opened by the request at \<open>t0\<close> is released at the same instant, the end of
  that window, however many there are.\<close>

theorem sw_delayed_share_a_slot:
  assumes "sw_windows st = []" "sw_count st = 1" "sw_window st = w"
    and "sorted (t0 # nows)" "\<forall>t \<in> set nows. t < t0 + int w"
  shows "map_option fst (keyed_trace sw_access st (map (\<lambda>t. (t, k)) (t0 # nows))) =
    Some ((k, t0, True) # map (\<lambda>_. (k, t0 + int w, False)) nows)"
proof -
  define st2 where "st2 = sw_evict_if_needed k t0 (sw_maybe_cleanup t0 st)"
  have st2: "sw_windows st2 = []" "sw_count st2 = 1" "sw_window st2 = w"
    using assms(1-3) sw.prepare_subset [of k t0 st] by (simp_all add: st2_def)
  have "sw_access t0 k st = Some ((t0, True), st2\<lparr>sw_windows :=
      [(k, \<lparr>ws_timestamps = t0 # replicate 0 (t0 + int w), ws_last_seen = t0\<rparr>)]\<rparr>)"
    by (simp add: sw_access_def sw_take_def st2_def [symmetric] st2 sw_log_take_def Let_def)
  then show ?thesis
    using sw_same_slot_trace [of "st2\<lparr>sw_windows :=
      [(k, \<lparr>ws_timestamps = t0 # replicate 0 (t0 + int w), ws_last_seen = t0\<rparr>)]\<rparr>" k t0 0 w t0 nows]
      assms(4,5) st2
    by (auto simp: option.map_comp comp_def case_prod_unfold)
qed

theorem sw_delayed_share_a_slot_witness:
  "map_option fst (keyed_trace sw_access (sw_example_store\<lparr>sw_count := 1\<rparr>)
     (map (\<lambda>t. (t, ''a'')) [0, 1, 2, 3])) =
   Some [(''a'', 0, True), (''a'', 10, False), (''a'', 10, False), (''a'', 10, False)]"
  using sw_delayed_share_a_slot [of "sw_example_store\<lparr>sw_count := 1\<rparr>" 10 0 "[1, 2, 3]" "''a''"]
  by (simp add: sw_example_store_def)

text \<open>A limiter built with a count of zero panics on its first request, at \<open>timestamps[0]\<close>, and
  leaves the mutex of its store poisoned.\<close>

theorem sw_zero_count_poisons:
  "with_lock (sw_take now k) (sliding_store (sw_keyed 0 window key_fn start)) =
     (Inl (Panicked ''Out of bounds access''), Poisoned)"
  by (simp add: sw_keyed_def sw_store_new_def sw_take_def sw_evict_if_needed_def sw_maybe_cleanup_def
      retain_def evict_oldest_def contains_key_def sw_log_take_def entry_or_insert_def Let_def
      sw_default_max_keys_def)


text \<open>C16. The Lua script of the Redis store refines the in-memory log at millisecond readings: from
  the same timestamps it admits the same requests, answers the same delay and leaves the same
  timestamps.\<close>

theorem sw_lua_agrees:
  assumes "sw_log_ok cnt (from_millis w) past ts" "past \<le> now_ms * 1000000" "0 < cnt"
    and "mset ts = image_mset (\<lambda>(_, s). s * 1000000) (mset zset)" "member \<notin> fst ` set zset"
  shows "\<exists>d ts' delay_ms z'. sw_log_take cnt (from_millis w) (now_ms * 1000000) ts = Inr (d, ts')
    \<and> sliding_window_lua cnt (int w) member now_ms zset = (delay_ms, z')
    \<and> (case d of None \<Rightarrow> delay_ms = 0 | Some x \<Rightarrow> 0 < delay_ms \<and> int x = delay_ms * 1000000)
    \<and> mset ts' = image_mset (\<lambda>(_, s). s * 1000000) (mset z')"
proof -
  define now where "now = now_ms * 1000000"
  define us where "us = dropWhile (\<lambda>t. t \<le> now - int (from_millis w)) ts"
  define z where "z = filter (\<lambda>(_, score). \<not> score \<le> now_ms - int w) zset"
  have srt: "sorted ts" using assms(1) by (simp add: sw_log_ok_def)
  have us: "us = filter (\<lambda>t. \<not> t \<le> now - int (from_millis w)) ts"
    unfolding us_def by (rule sorted_dropWhile_filter [OF srt])
  have fresh: "AList.update member v z = z @ [(member, v)]" for v
    using assms(5) unfolding z_def by (induction zset) (auto simp: image_iff)
  have mz: "mset us = image_mset (\<lambda>(_, s). s * 1000000) (mset z)"
    unfolding us z_def mset_filter assms(4)
    by (auto simp: filter_mset_image_mset case_prod_unfold now_def from_millis_def
        intro!: arg_cong [where f = "image_mset _"] filter_mset_cong)
  have len: "length us = length z" using arg_cong [OF mz, of size] by simp
  obtain d where d: "sw_log_take cnt (from_millis w) now ts =
      Inr (d, us @ [now + int (case d of None \<Rightarrow> 0 | Some x \<Rightarrow> x)])"
    "d = None \<longleftrightarrow> length us < cnt"
    "\<forall>x. d = Some x \<longrightarrow> 0 < x \<and> now + int x = hd us + int (from_millis w)"
    using sw_log_take_ok [OF assms(1) assms(2) [folded now_def] assms(3)] unfolding us_def by blast
  show ?thesis
  proof (cases d)
    case None
    then have "sliding_window_lua cnt (int w) member now_ms zset = (0, z @ [(member, now_ms)])"
      using d(2) len fresh unfolding sliding_window_lua_def Let_def z_def [symmetric] by simp
    then show ?thesis
      using d(1) None mz unfolding now_def [symmetric]
      by (intro exI [of _ None] exI [of _ "us @ [now]"] exI) (auto simp: now_def)
  next
    case (Some x)
    then have full: "\<not> length z < cnt" using d(2) len by simp
    have ne: "us \<noteq> []" using full len assms(3) by auto
    obtain m where m: "min_by_key snd z = Some m" "(\<lambda>(_, s). s * 1000000) m = hd us"
      using min_by_key_hd [OF _ ne mz, of snd] srt unfolding us by (auto simp: sorted_wrt_filter)
    define delay where "delay = max 0 (int w - (now_ms - snd m))"
    have x: "int x = (int w - (now_ms - snd m)) * 1000000" "0 < x"
      using d(3) Some m(2) by (auto simp: now_def from_millis_def case_prod_unfold)
    then have dl: "delay = int w - (now_ms - snd m)" "0 < delay" by (simp_all add: delay_def zero_less_mult_iff)
    have "sliding_window_lua cnt (int w) member now_ms zset = (delay, z @ [(member, now_ms + delay)])"
      using m(1) full fresh unfolding sliding_window_lua_def Let_def z_def [symmetric]
      by (simp add: delay_def case_prod_unfold)
    then show ?thesis
      using d(1) Some mz x dl unfolding now_def [symmetric]
      by (intro exI [of _ "Some x"] exI [of _ "us @ [now + int x]"] exI [of _ delay] exI)
         (auto simp: now_def algebra_simps)
  qed
qed

theorem sw_lua_agrees_witness:
  "sliding_window_lua 1 10 ''m'' 7 [(''l'', 5)] = (8, [(''l'', 5), (''m'', 15)]) \<and>
   (\<exists>d ts'. sw_log_take 1 (from_millis 10) (7 * 1000000) [5000000] = Inr (d, ts') \<and> ts' \<noteq> [])"
proof -
  have "sw_log_ok 1 (from_millis 10) 5000000 [5000000]" by (simp add: sw_log_ok_def)
  then show ?thesis
    using sw_lua_agrees [of 1 10 5000000 "[5000000]" 7 "[(''l'', 5)]" "''m''"]
    by (auto simp: sliding_window_lua_def)
qed

end
