(* ===== verification/Circuit_Breaker.thy ===== *)
theory Circuit_Breaker
  imports Keyed_Store Http_Service Redis_Link
begin

text \<open>
  The circuit breaker, \<^verbatim>\<open>src/src/middleware/circuit_breaker.rs\<close>: the state machine of one key,
  \<open>SharedState\<close>, the in-memory store, the builder, the service, and the Redis-backed store with its
  local cache and its two Lua scripts.

  Shown here: the invariant of the reachable states and that the failure counter never wraps; that
  the store is a family of independent circuits; that \<open>threshold\<close> consecutive failures open the
  circuit and that it rejects until the recovery time has passed; that an open circuit is never
  dropped before that time; the bound on half-open probes, and that a probe whose outcome is never
  recorded blocks the key; that the Lua scripts implement the same machine.
\<close>

section \<open>Shared state\<close>

datatype cb_state = Closed "32 word" | Open instant | HalfOpen "32 word"

record circuit_entry =
  ce_state :: cb_state
  ce_last_seen :: instant

record cb_shared =
  cb_circuits :: "(string \<times> circuit_entry) list"
  cb_threshold :: "32 word"
  cb_recovery :: duration
  cb_half_open_probes :: "32 word"
  cb_max_keys :: nat
  cb_idle_ttl :: duration
  cb_next_cleanup :: instant

datatype circuit_action = Allow | Reject

definition cb_default_max_keys :: nat where
  "cb_default_max_keys = 10000"

definition cb_default_idle_ttl :: duration where
  "cb_default_idle_ttl = from_secs 600"

definition cb_cleanup_interval :: duration where
  "cb_cleanup_interval = from_secs 30"

definition cb_maybe_cleanup :: "instant \<Rightarrow> cb_shared \<Rightarrow> cb_shared" where
  "cb_maybe_cleanup now st =
     (if now < cb_next_cleanup st then st
      else st\<lparr>cb_circuits := retain (\<lambda>_ e.
                let idle_ok = duration_since now (ce_last_seen e) \<le> cb_idle_ttl st
                in (case ce_state e of Open until \<Rightarrow> idle_ok \<or> now < until | _ \<Rightarrow> idle_ok))
                (cb_circuits st),
              cb_next_cleanup := now + int cb_cleanup_interval\<rparr>)"

definition cb_can_evict_entry :: "cb_shared \<Rightarrow> instant \<Rightarrow> circuit_entry \<Rightarrow> bool" where
  "cb_can_evict_entry st now e =
     (if duration_since now (ce_last_seen e) \<le> cb_idle_ttl st then False
      else (case ce_state e of Open until \<Rightarrow> until \<le> now | _ \<Rightarrow> True))"

definition cb_evict_if_needed :: "string \<Rightarrow> instant \<Rightarrow> cb_shared \<Rightarrow> cb_shared" where
  "cb_evict_if_needed key now st =
     st\<lparr>cb_circuits := evict_oldest (cb_can_evict_entry st now) ce_last_seen (cb_max_keys st) key
          (cb_circuits st)\<rparr>"

text \<open>The matches of \<open>check\<close> and \<open>record\<close> on the state of the entry; \<open>now\<close> is the reading made in
  the match itself.\<close>

definition cb_check_state :: "32 word \<Rightarrow> instant \<Rightarrow> cb_state \<Rightarrow> circuit_action \<times> cb_state" where
  "cb_check_state probes now s =
     (case s of
        Closed n \<Rightarrow> (Allow, s)
      | Open until \<Rightarrow> if until \<le> now then (Allow, HalfOpen 1) else (Reject, s)
      | HalfOpen n \<Rightarrow> if n < probes then (Allow, HalfOpen (n + 1)) else (Reject, s))"

definition cb_record_state :: "32 word \<Rightarrow> duration \<Rightarrow> instant \<Rightarrow> bool \<Rightarrow> cb_state \<Rightarrow> cb_state" where
  "cb_record_state threshold recovery now success s =
     (case s of
        Closed n \<Rightarrow>
          if success then Closed 0
          else if threshold \<le> n + 1 then Open (now + int recovery) else Closed (n + 1)
      | HalfOpen n \<Rightarrow> if success then Closed 0 else Open (now + int recovery)
      | Open until \<Rightarrow> s)"

text \<open>\<open>now\<close> is the reading at the top of the operation, \<open>now2\<close> the one in the match.\<close>

definition cb_check :: "instant \<Rightarrow> instant \<Rightarrow> string \<Rightarrow> cb_shared \<Rightarrow> circuit_action \<times> cb_shared" where
  "cb_check now now2 key st =
     (let st2 = cb_evict_if_needed key now (cb_maybe_cleanup now st);
          e = entry_or_insert (cb_circuits st2) key \<lparr>ce_state = Closed 0, ce_last_seen = now\<rparr>;
          (a, s) = cb_check_state (cb_half_open_probes st2) now2 (ce_state e)
      in (a, st2\<lparr>cb_circuits :=
            AList.update key \<lparr>ce_state = s, ce_last_seen = now\<rparr> (cb_circuits st2)\<rparr>))"

definition cb_record :: "instant \<Rightarrow> instant \<Rightarrow> string \<Rightarrow> bool \<Rightarrow> cb_shared \<Rightarrow> cb_shared" where
  "cb_record now now2 key success st =
     (let st2 = cb_evict_if_needed key now (cb_maybe_cleanup now st);
          e = entry_or_insert (cb_circuits st2) key \<lparr>ce_state = Closed 0, ce_last_seen = now\<rparr>;
          s = cb_record_state (cb_threshold st2) (cb_recovery st2) now2 success (ce_state e)
      in st2\<lparr>cb_circuits :=
            AList.update key \<lparr>ce_state = s, ce_last_seen = now\<rparr> (cb_circuits st2)\<rparr>)"

section \<open>In-memory store, builder and service\<close>

definition cb_store_new :: "32 word \<Rightarrow> duration \<Rightarrow> instant \<Rightarrow> cb_shared mutex" where
  "cb_store_new threshold recovery now = Unlocked
     \<lparr>cb_circuits = [], cb_threshold = threshold, cb_recovery = recovery, cb_half_open_probes = 1,
      cb_max_keys = cb_default_max_keys, cb_idle_ttl = cb_default_idle_ttl,
      cb_next_cleanup = now + int cb_cleanup_interval\<rparr>"

definition cb_set_half_open_probes :: "32 word \<Rightarrow> cb_shared \<Rightarrow> cb_shared" where
  "cb_set_half_open_probes n st = st\<lparr>cb_half_open_probes := n\<rparr>"

definition cb_set_max_keys :: "nat \<Rightarrow> cb_shared \<Rightarrow> cb_shared" where
  "cb_set_max_keys n st = st\<lparr>cb_max_keys := max n 1\<rparr>"

definition cb_set_idle_ttl :: "duration \<Rightarrow> cb_shared \<Rightarrow> cb_shared" where
  "cb_set_idle_ttl ttl st = st\<lparr>cb_idle_ttl := ttl\<rparr>"

text \<open>The second reading is made only in some branches; where it is not, its value is not used.\<close>

definition cb_store_check ::
  "'w env \<Rightarrow> ('w, cb_shared mutex) cell \<Rightarrow> string \<Rightarrow> 'w \<Rightarrow> circuit_action result \<times> 'w"
where
  "cb_store_check env c key w =
     (let (now, w1) = env_now env w; (now2, w2) = env_now env w1
      in lock_cell c (\<lambda>st. Inr (cb_check now now2 key st)) w2)"

definition cb_store_record ::
  "'w env \<Rightarrow> ('w, cb_shared mutex) cell \<Rightarrow> string \<Rightarrow> bool \<Rightarrow> 'w \<Rightarrow> unit result \<times> 'w"
where
  "cb_store_record env c key success w =
     (let (now, w1) = env_now env w; (now2, w2) = env_now env w1
      in lock_cell c (\<lambda>st. Inr ((), cb_record now now2 key success st)) w2)"

record circuit_breaker =
  breaker_key :: "request \<Rightarrow> string"
  breaker_failure_policy :: "response \<Rightarrow> bool"
  breaker_reject_status :: nat
  breaker_reject_body :: string

definition cb_is_server_error :: "response \<Rightarrow> bool" where
  "cb_is_server_error resp = (500 \<le> resp_status resp \<and> resp_status resp < 600)"

definition cb_with_store :: "(request \<Rightarrow> string) \<Rightarrow> circuit_breaker" where
  "cb_with_store key_fn =
     \<lparr>breaker_key = key_fn, breaker_failure_policy = cb_is_server_error,
      breaker_reject_status = 503, breaker_reject_body = ''circuit breaker open''\<rparr>"

text \<open>\<open>StatusCode::try_from\<close> accepts 100 to 999; \<open>expect\<close> panics on the rest.\<close>

definition cb_reject_status :: "nat \<Rightarrow> circuit_breaker \<Rightarrow> circuit_breaker result" where
  "cb_reject_status status b =
     (if 100 \<le> status \<and> status \<le> 999 then Inr (b\<lparr>breaker_reject_status := status\<rparr>)
      else Inl (Panicked ''invalid status code''))"

definition cb_reject_body :: "string \<Rightarrow> circuit_breaker \<Rightarrow> circuit_breaker" where
  "cb_reject_body body b = b\<lparr>breaker_reject_body := body\<rparr>"

definition cb_failure_policy :: "(response \<Rightarrow> bool) \<Rightarrow> circuit_breaker \<Rightarrow> circuit_breaker" where
  "cb_failure_policy f b = b\<lparr>breaker_failure_policy := f\<rparr>"

definition cb_keyed ::
  "32 word \<Rightarrow> duration \<Rightarrow> (request \<Rightarrow> string) \<Rightarrow> instant \<Rightarrow> cb_shared mutex \<times> circuit_breaker"
where
  "cb_keyed threshold recovery key_fn now =
     (cb_store_new threshold recovery now,
      \<lparr>breaker_key = key_fn, breaker_failure_policy = cb_is_server_error,
       breaker_reject_status = 503, breaker_reject_body = ''circuit breaker open''\<rparr>)"

definition cb_extract_host :: "request \<Rightarrow> string" where
  "cb_extract_host req = (case request_host req of Some h \<Rightarrow> h | None \<Rightarrow> ''unknown'')"

definition cb_global :: "32 word \<Rightarrow> duration \<Rightarrow> instant \<Rightarrow> cb_shared mutex \<times> circuit_breaker" where
  "cb_global threshold recovery = cb_keyed threshold recovery (\<lambda>_. [])"

definition cb_per_host :: "32 word \<Rightarrow> duration \<Rightarrow> instant \<Rightarrow> cb_shared mutex \<times> circuit_breaker" where
  "cb_per_host threshold recovery = cb_keyed threshold recovery cb_extract_host"

text \<open>\<open>check\<close> and \<open>record\<close> are those of the store the service is generic in.\<close>

definition cb_call ::
  "(string \<Rightarrow> 'w \<Rightarrow> circuit_action result \<times> 'w) \<Rightarrow> (string \<Rightarrow> bool \<Rightarrow> 'w \<Rightarrow> unit result \<times> 'w) \<Rightarrow>
   circuit_breaker \<Rightarrow> 'w layer"
where
  "cb_call check record_outcome b inner req w =
     (let key = breaker_key b req; (fut, w1) = inner req w
      in ((\<lambda>w. case check key w of
             (Inl e, w') \<Rightarrow> (Inl e, w')
           | (Inr Reject, w') \<Rightarrow>
               (Inr (response_with (breaker_reject_status b) (full_body (breaker_reject_body b))), w')
           | (Inr Allow, w') \<Rightarrow>
               await_ok fut (\<lambda>resp w''.
                 case record_outcome key (\<not> breaker_failure_policy b resp) w'' of
                   (Inl e, w3) \<Rightarrow> (Inl e, w3)
                 | (Inr _, w3) \<Rightarrow> (Inr resp, w3)) w'), w1))"

section \<open>Redis-backed store\<close>

record cached_entry =
  cached_action :: circuit_action
  cached_expires_at :: instant

record local_cache =
  lc_entries :: "(string \<times> cached_entry) list"
  lc_next_cleanup :: instant

definition lc_new :: "instant \<Rightarrow> local_cache" where
  "lc_new now = \<lparr>lc_entries = [], lc_next_cleanup = now + int cb_cleanup_interval\<rparr>"

definition lc_maybe_cleanup :: "instant \<Rightarrow> local_cache \<Rightarrow> local_cache" where
  "lc_maybe_cleanup now c =
     (if now < lc_next_cleanup c then c
      else \<lparr>lc_entries = retain (\<lambda>_ e. now < cached_expires_at e) (lc_entries c),
            lc_next_cleanup = now + int cb_cleanup_interval\<rparr>)"

record redis_cb_store =
  rcb_conn :: redis_connection
  rcb_threshold :: "32 word"
  rcb_recovery :: duration
  rcb_half_open_probes :: "32 word"
  rcb_cache_ttl :: "duration option"
  rcb_namespace :: string

definition redis_cb_new :: "redis_connection \<Rightarrow> 32 word \<Rightarrow> duration \<Rightarrow> redis_cb_store" where
  "redis_cb_new conn threshold recovery =
     \<lparr>rcb_conn = conn, rcb_threshold = threshold, rcb_recovery = recovery, rcb_half_open_probes = 1,
      rcb_cache_ttl = None, rcb_namespace = ''circuit_breaker''\<rparr>"

text \<open>The second component is the state of the fallback store.\<close>

definition redis_cb_half_open_probes ::
  "32 word \<Rightarrow> redis_cb_store \<times> cb_shared \<Rightarrow> redis_cb_store \<times> cb_shared"
where
  "redis_cb_half_open_probes n = (\<lambda>(s, fb). (s\<lparr>rcb_half_open_probes := n\<rparr>, cb_set_half_open_probes n fb))"

definition redis_cb_cache_ttl :: "duration \<Rightarrow> redis_cb_store \<Rightarrow> redis_cb_store" where
  "redis_cb_cache_ttl ttl s = s\<lparr>rcb_cache_ttl := Some ttl\<rparr>"

definition redis_cb_scope :: "string \<Rightarrow> redis_cb_store \<Rightarrow> redis_cb_store" where
  "redis_cb_scope ident s = s\<lparr>rcb_namespace := ''circuit_breaker:'' @ ident\<rparr>"

text \<open>The hash of one key on the server; a missing field reads as zero.\<close>

record cb_hash =
  h_state :: "int option"
  h_failures :: "int option"
  h_until :: "int option"
  h_in_flight :: "int option"

definition lua_number :: "int option \<Rightarrow> int" where
  "lua_number x = (case x of None \<Rightarrow> 0 | Some n \<Rightarrow> n)"

definition cb_check_lua :: "int \<Rightarrow> int \<Rightarrow> cb_hash \<Rightarrow> int \<times> cb_hash" where
  "cb_check_lua half_open_probes now_ms h =
     (let state = lua_number (h_state h); until_ms = lua_number (h_until h);
          in_flight = lua_number (h_in_flight h)
      in if state = 0 then (0, h)
         else if state = 1 then
           (if until_ms \<le> now_ms then (- 1, h\<lparr>h_state := Some 2, h_in_flight := Some 1\<rparr>)
            else (until_ms - now_ms, h))
         else if state = 2 then
           (if in_flight < half_open_probes then (- 1, h\<lparr>h_in_flight := Some (in_flight + 1)\<rparr>)
            else (- 2, h))
         else (0, h))"

definition cb_record_lua :: "int \<Rightarrow> int \<Rightarrow> int \<Rightarrow> int \<Rightarrow> cb_hash \<Rightarrow> int \<times> cb_hash" where
  "cb_record_lua success threshold recovery_ms now_ms h =
     (let state = lua_number (h_state h); failures = lua_number (h_failures h)
      in (0, if state = 0 then
               (if success = 1 then h\<lparr>h_failures := Some 0\<rparr>
                else if threshold \<le> failures + 1 then
                  h\<lparr>h_state := Some 1, h_failures := Some (failures + 1),
                    h_until := Some (now_ms + recovery_ms), h_in_flight := Some 0\<rparr>
                else h\<lparr>h_failures := Some (failures + 1)\<rparr>)
             else if state = 2 then
               (if success = 1 then h\<lparr>h_state := Some 0, h_failures := Some 0, h_in_flight := Some 0\<rparr>
                else h\<lparr>h_state := Some 1, h_failures := Some 0,
                       h_until := Some (now_ms + recovery_ms), h_in_flight := Some 0\<rparr>)
             else h))"

definition redis_cb_ttl_ms :: "bool \<Rightarrow> redis_cb_store \<Rightarrow> nat result" where
  "redis_cb_ttl_ms overflow_checks s =
     u64_add overflow_checks (as_millis (rcb_recovery s) mod 2 ^ 64) 60000"

text \<open>The code a check script returns, as an action and as the time for which it may be cached.\<close>

definition cb_code_action :: "int \<Rightarrow> circuit_action" where
  "cb_code_action code = (if 0 < code \<or> code = - 2 then Reject else Allow)"

definition cb_code_cache :: "duration \<Rightarrow> int \<Rightarrow> duration option" where
  "cb_code_cache ttl code =
     (if code = 0 then Some ttl
      else if 0 < code then Some (min ttl (from_millis (nat code)))
      else None)"

definition redis_cb_check ::
  "bool \<Rightarrow> 'w env \<Rightarrow> 'w redis_server \<Rightarrow> ('w, local_cache mutex) cell \<Rightarrow> redis_cb_store \<Rightarrow>
   (string \<Rightarrow> 'w \<Rightarrow> circuit_action result \<times> 'w) \<Rightarrow> string \<Rightarrow> 'w \<Rightarrow> circuit_action result \<times> 'w"
where
  "redis_cb_check overflow_checks env srv cache s fallback key w =
     (case (if rcb_cache_ttl s = None then (Inr None, w)
            else (case env_now env w of (now, w1) \<Rightarrow>
              lock_cell cache (\<lambda>c. let c1 = lc_maybe_cleanup now c
                in Inr (case map_of (lc_entries c1) key of
                          Some e \<Rightarrow> if now < cached_expires_at e then Some (cached_action e) else None
                        | None \<Rightarrow> None, c1)) w1)) of
        (Inl e, w1) \<Rightarrow> (Inl e, w1)
      | (Inr (Some a), w1) \<Rightarrow> (Inr a, w1)
      | (Inr None, w1) \<Rightarrow>
          (case rs_connect srv w1 of (c, w2) \<Rightarrow>
            (case get_connection c of
               Inl _ \<Rightarrow> fallback key w2
             | Inr _ \<Rightarrow>
                 (case redis_cb_ttl_ms overflow_checks s of
                    Inl e \<Rightarrow> (Inl e, w2)
                  | Inr ttl_ms \<Rightarrow>
                      (case rs_invoke srv
                         \<lparr>sc_key = prefixed_key (rcb_conn s) (rcb_namespace s) key,
                          sc_args = [Num (real (unat (rcb_half_open_probes s))), Num (real ttl_ms)]\<rparr> w2 of
                         (Inl _, w3) \<Rightarrow> fallback key w3
                       | (Inr code, w3) \<Rightarrow>
                           (case Option.bind (rcb_cache_ttl s) (\<lambda>ttl. cb_code_cache ttl code) of
                              None \<Rightarrow> (Inr (cb_code_action code), w3)
                            | Some keep \<Rightarrow>
                                (case env_now env w3 of (now, w4) \<Rightarrow>
                                  lock_cell cache (\<lambda>c. Inr (cb_code_action code,
                                    c\<lparr>lc_entries := AList.update key
                                        \<lparr>cached_action = cb_code_action code,
                                         cached_expires_at = now + int keep\<rparr> (lc_entries c)\<rparr>)) w4)))))))"

definition redis_cb_record ::
  "bool \<Rightarrow> 'w redis_server \<Rightarrow> ('w, local_cache mutex) cell \<Rightarrow> redis_cb_store \<Rightarrow>
   (string \<Rightarrow> bool \<Rightarrow> 'w \<Rightarrow> unit result \<times> 'w) \<Rightarrow> string \<Rightarrow> bool \<Rightarrow> 'w \<Rightarrow> unit result \<times> 'w"
where
  "redis_cb_record overflow_checks srv cache s fallback key success w =
     (case rs_connect srv w of (c, w1) \<Rightarrow>
        (case get_connection c of
           Inl _ \<Rightarrow> fallback key success w1
         | Inr _ \<Rightarrow>
             (case redis_cb_ttl_ms overflow_checks s of
                Inl e \<Rightarrow> (Inl e, w1)
              | Inr ttl_ms \<Rightarrow>
                  (case (case rs_invoke srv
                     \<lparr>sc_key = prefixed_key (rcb_conn s) (rcb_namespace s) key,
                      sc_args = [Num (if success then 1 else 0), Num (real (unat (rcb_threshold s))),
                        Num (real (as_millis (rcb_recovery s) mod 2 ^ 64)), Num (real ttl_ms)]\<rparr> w1 of
                     (Inl _, w2) \<Rightarrow> fallback key success w2
                   | (Inr _, w2) \<Rightarrow> (Inr (), w2)) of
                     (Inl e, w3) \<Rightarrow> (Inl e, w3)
                   | (Inr _, w3) \<Rightarrow>
                       if rcb_cache_ttl s = None then (Inr (), w3)
                       else lock_cell cache (\<lambda>c. Inr ((),
                              c\<lparr>lc_entries := AList.delete key (lc_entries c)\<rparr>)) w3))))"


section \<open>The shared state as a keyed machine\<close>

datatype cb_op = Check instant instant | Record instant instant bool

primrec cb_clock :: "cb_op \<Rightarrow> instant" where
  "cb_clock (Check now now2) = now"
| "cb_clock (Record now now2 success) = now"

definition cb_live :: "cb_shared \<Rightarrow> instant \<Rightarrow> circuit_entry \<Rightarrow> bool" where
  "cb_live st now e = (\<not> cb_can_evict_entry st now e)"

primrec cb_access :: "cb_op \<Rightarrow> string \<Rightarrow> cb_shared \<Rightarrow> (circuit_action option \<times> cb_shared) option" where
  "cb_access (Check now now2) k st = (case cb_check now now2 k st of (a, st') \<Rightarrow> Some (Some a, st'))"
| "cb_access (Record now now2 success) k st = Some (None, cb_record now now2 k success st)"

text \<open>The machine of one circuit.\<close>

primrec cb_machine :: "cb_shared \<Rightarrow> cb_op \<Rightarrow> cb_state \<Rightarrow> circuit_action option \<times> cb_state" where
  "cb_machine st (Check now now2) s =
     (case cb_check_state (cb_half_open_probes st) now2 s of (a, s') \<Rightarrow> (Some a, s'))"
| "cb_machine st (Record now now2 success) s =
     (None, cb_record_state (cb_threshold st) (cb_recovery st) now2 success s)"

definition cb_entry_state :: "circuit_entry option \<Rightarrow> cb_state" where
  "cb_entry_state e = (case e of None \<Rightarrow> Closed 0 | Some x \<Rightarrow> ce_state x)"

definition cb_step ::
  "cb_shared \<Rightarrow> cb_op \<Rightarrow> circuit_entry option \<Rightarrow> (circuit_action option \<times> circuit_entry) option"
where
  "cb_step st a e =
     (case cb_machine st a (cb_entry_state e) of
        (r, s) \<Rightarrow> Some (r, \<lparr>ce_state = s, ce_last_seen = cb_clock a\<rparr>))"

lemma cb_entry_state_entry:
  "ce_state (entry_or_insert m k \<lparr>ce_state = Closed 0, ce_last_seen = t\<rparr>) = cb_entry_state (map_of m k)"
  by (simp add: entry_or_insert_def cb_entry_state_def split: option.split)

lemma cb_prepare_simps [simp]:
  "cb_threshold (cb_maybe_cleanup now st) = cb_threshold st"
  "cb_recovery (cb_maybe_cleanup now st) = cb_recovery st"
  "cb_half_open_probes (cb_maybe_cleanup now st) = cb_half_open_probes st"
  "cb_max_keys (cb_maybe_cleanup now st) = cb_max_keys st"
  "cb_idle_ttl (cb_maybe_cleanup now st) = cb_idle_ttl st"
  "cb_threshold (cb_evict_if_needed k now st) = cb_threshold st"
  "cb_recovery (cb_evict_if_needed k now st) = cb_recovery st"
  "cb_half_open_probes (cb_evict_if_needed k now st) = cb_half_open_probes st"
  "cb_max_keys (cb_evict_if_needed k now st) = cb_max_keys st"
  "cb_idle_ttl (cb_evict_if_needed k now st) = cb_idle_ttl st"
  by (simp_all add: cb_maybe_cleanup_def cb_evict_if_needed_def)

lemma cb_access_policy:
  assumes "cb_access a k st = Some (r, st')"
  shows "cb_threshold st' = cb_threshold st" "cb_recovery st' = cb_recovery st"
    "cb_half_open_probes st' = cb_half_open_probes st" "cb_idle_ttl st' = cb_idle_ttl st"
  using assms by (cases a; auto simp: cb_check_def cb_record_def Let_def split: prod.splits)+

lemma cb_machine_cong:
  "cb_threshold st' = cb_threshold st \<Longrightarrow> cb_recovery st' = cb_recovery st \<Longrightarrow>
   cb_half_open_probes st' = cb_half_open_probes st \<Longrightarrow> cb_machine st' = cb_machine st"
proof (rule ext)
  fix a
  assume "cb_threshold st' = cb_threshold st" "cb_recovery st' = cb_recovery st"
    "cb_half_open_probes st' = cb_half_open_probes st"
  then show "cb_machine st' a = cb_machine st a" by (cases a) (simp_all add: fun_eq_iff)
qed

lemma cb_policy_cong:
  "cb_threshold st' = cb_threshold st \<Longrightarrow> cb_recovery st' = cb_recovery st \<Longrightarrow>
   cb_half_open_probes st' = cb_half_open_probes st \<Longrightarrow> cb_idle_ttl st' = cb_idle_ttl st \<Longrightarrow>
   cb_live st' = cb_live st \<and> cb_step st' = cb_step st"
  using cb_machine_cong [of st' st]
  by (simp add: cb_live_def [abs_def] cb_can_evict_entry_def cb_step_def [abs_def])

interpretation cb: aged_store cb_circuits cb_live cb_max_keys cb_maybe_cleanup cb_evict_if_needed
    "\<lambda>now st. cb_next_cleanup st \<le> now" ce_last_seen
proof (unfold_locales, goal_cases)
  case (1 now s)
  have "(case ce_state e of Open until \<Rightarrow> duration_since now (ce_last_seen e) \<le> cb_idle_ttl s \<or> now < until
      | _ \<Rightarrow> duration_since now (ce_last_seen e) \<le> cb_idle_ttl s) = cb_live s now e" for e
    by (auto simp: cb_live_def cb_can_evict_entry_def split: cb_state.splits)
  then show ?case by (simp add: cb_maybe_cleanup_def Let_def)
next
  case (4 k now s)
  have "cb_can_evict_entry s now = (\<lambda>e. \<not> cb_live s now e)" by (simp add: cb_live_def fun_eq_iff)
  then show ?case by (simp add: cb_evict_if_needed_def)
qed (simp_all add: cb_live_def [abs_def] cb_can_evict_entry_def)

interpretation cb: keyed_machine cb_circuits cb_live cb_max_keys cb_maybe_cleanup cb_evict_if_needed
    cb_access cb_clock cb_step
proof (unfold_locales, goal_cases)
  case (1 a k s r s')
  then show ?case
    by (cases a) (auto simp: cb_check_def cb_record_def cb_step_def cb_entry_state_entry Let_def
        case_prod_unfold)
next
  case (2 a k s r s')
  then show ?case using cb_access_policy cb_policy_cong by metis
qed

section \<open>Reachable states\<close>

inductive cb_reachable :: "cb_shared \<Rightarrow> cb_shared \<Rightarrow> bool" for st0 where
  start: "cb_reachable st0 st0"
| step: "cb_reachable st0 st \<Longrightarrow> cb_access a k st = Some (r, st') \<Longrightarrow> cb_reachable st0 st'"

text \<open>A closed circuit has not reached the threshold; a half-open one has at least one probe in
  flight and no more than it may have (one, when it may have none).\<close>

definition cb_state_ok :: "cb_shared \<Rightarrow> cb_state \<Rightarrow> bool" where
  "cb_state_ok st s =
     (case s of
        Closed n \<Rightarrow> n = 0 \<or> n < cb_threshold st
      | Open until \<Rightarrow> True
      | HalfOpen n \<Rightarrow> 1 \<le> n \<and> n \<le> max 1 (cb_half_open_probes st))"

definition cb_ok :: "cb_shared \<Rightarrow> bool" where
  "cb_ok st \<longleftrightarrow> distinct (map fst (cb_circuits st)) \<and>
     (\<forall>(k, e) \<in> set (cb_circuits st). cb_state_ok st (ce_state e))"

lemma word_Suc_less: "a < b \<Longrightarrow> unat (a + 1) = Suc (unat a)" for a b :: "32 word"
proof -
  assume "a < b"
  moreover have "unat b < 2 ^ LENGTH(32)" by (rule unsigned_less)
  ultimately have "Suc (unat a) < 2 ^ 32" by (simp add: word_less_nat_alt)
  then show ?thesis by (simp add: unat_word_ariths)
qed

lemma word_Suc_le: "a < b \<Longrightarrow> 1 \<le> a + 1 \<and> a + 1 \<le> b" for a b :: "32 word"
  using word_Suc_less [of a b] by (simp add: word_le_nat_alt word_less_nat_alt)

lemma cb_state_ok_no_wrap: "cb_state_ok st (Closed n) \<Longrightarrow> unat (n + 1) = Suc (unat n)"
  by (auto simp: cb_state_ok_def dest: word_Suc_less)

lemma cb_machine_ok:
  assumes "cb_machine st a s = (r, s')" "cb_state_ok st s"
  shows "cb_state_ok st s'"
proof (cases a)
  case (Check now now2)
  then show ?thesis
    using assms word_Suc_le [of _ "cb_half_open_probes st"]
    by (auto simp: cb_state_ok_def cb_check_state_def le_max_iff_disj split: cb_state.splits if_splits)
next
  case (Record now now2 success)
  then show ?thesis
    using assms by (auto simp: cb_state_ok_def cb_record_state_def not_le split: cb_state.splits if_splits)
qed

lemma cb_access_ok:
  assumes "cb_access a k st = Some (r, st')" "cb_ok st"
  shows "cb_ok st'"
proof -
  define m where "m = cb_circuits (cb_evict_if_needed k (cb_clock a) (cb_maybe_cleanup (cb_clock a) st))"
  obtain e where e: "cb_step st a (map_of m k) = Some (r, e)" "cb_circuits st' = AList.update k e m"
    using cb.access_step [OF assms(1)] unfolding m_def by blast
  have sub: "set m \<subseteq> set (cb_circuits st)" unfolding m_def by (rule cb.prepare_subset)
  have "cb_state_ok st (cb_entry_state (map_of m k))"
  proof (cases "map_of m k")
    case (Some x)
    then have "(k, x) \<in> set (cb_circuits st)" using sub map_of_SomeD by fast
    then show ?thesis using assms(2) Some by (auto simp: cb_ok_def cb_entry_state_def)
  qed (simp add: cb_entry_state_def cb_state_ok_def)
  then have ok: "cb_state_ok st (ce_state e)"
    using e(1) cb_machine_ok by (fastforce simp: cb_step_def split: prod.splits)
  have same: "cb_state_ok st' = cb_state_ok st"
    using cb_access_policy [OF assms(1)]
    by (auto simp: cb_state_ok_def fun_eq_iff split: cb_state.splits)
  have "cb_state_ok st (ce_state x)" if "(j, x) \<in> set (cb_circuits st')" for j x
    using that set_AList_update [of k e m] sub assms(2) ok e(2) by (auto simp: cb_ok_def)
  then show ?thesis
    using cb.access_distinct [OF assms(1)] assms(2) same by (auto simp: cb_ok_def)
qed

section \<open>One circuit\<close>

text \<open>The states of one circuit without the bookkeeping of the entry.\<close>

fun cb_run :: "cb_shared \<Rightarrow> cb_state \<Rightarrow> cb_op list \<Rightarrow> circuit_action option list \<times> cb_state" where
  "cb_run st s [] = ([], s)"
| "cb_run st s (a # as) =
     (case cb_machine st a s of (r, s') \<Rightarrow> case cb_run st s' as of (rs, t) \<Rightarrow> (r # rs, t))"

lemma cb_entry_run: "entry_run (cb_step st) e as = Some (fst (cb_run st (cb_entry_state e) as))"
  by (induction as arbitrary: e) (auto simp: cb_step_def cb_entry_state_def case_prod_unfold)

lemma cb_run_append:
  "cb_run st s (as @ bs) =
     (case cb_run st s as of (rs, t) \<Rightarrow> case cb_run st t bs of (us, u) \<Rightarrow> (rs @ us, u))"
  by (induction as arbitrary: s) (auto simp: case_prod_unfold)

lemma cb_run_length: "length (fst (cb_run st s as)) = length as"
  by (induction as arbitrary: s) (auto simp: case_prod_unfold)

primrec cb_is_check :: "cb_op \<Rightarrow> bool" where
  "cb_is_check (Check now now2) = True"
| "cb_is_check (Record now now2 success) = False"

primrec cb_is_failure :: "cb_op \<Rightarrow> bool" where
  "cb_is_failure (Check now now2) = False"
| "cb_is_failure (Record now now2 success) = (\<not> success)"

lemma cb_run_counts:
  assumes "\<forall>a \<in> set as. cb_is_check a \<or> cb_is_failure a"
    and "unat n + length (filter cb_is_failure as) < unat (cb_threshold st)"
  shows "snd (cb_run st (Closed n) as) = Closed (n + of_nat (length (filter cb_is_failure as)))"
  using assms
proof (induction as arbitrary: n)
  case (Cons a as)
  show ?case
  proof (cases a)
    case (Check now now2)
    then show ?thesis using Cons by (auto simp: cb_check_state_def case_prod_unfold)
  next
    case (Record now now2 success)
    then have "\<not> success" using Cons.prems(1) by auto
    have less: "unat n < unat (cb_threshold st)" using Cons.prems(2) by simp
    then have s: "unat (n + 1) = Suc (unat n)" using word_Suc_less word_less_nat_alt by blast
    then have "\<not> cb_threshold st \<le> n + 1"
      using Cons.prems(2) Record \<open>\<not> success\<close> by (simp add: word_le_nat_alt)
    then show ?thesis
      using Cons.IH [of "n + 1"] Cons.prems Record \<open>\<not> success\<close> s
      by (auto simp: cb_record_state_def algebra_simps case_prod_unfold)
  qed
qed simp

lemma cb_run_open:
  assumes "\<forall>m u. Check m u \<in> set as \<longrightarrow> u < until"
  shows "Some Allow \<notin> set (fst (cb_run st (Open until) as)) \<and> snd (cb_run st (Open until) as) = Open until"
  using assms
proof (induction as)
  case (Cons a as)
  have as: "\<forall>m u. Check m u \<in> set as \<longrightarrow> u < until" using Cons.prems by simp
  have a: "a = Check m u \<Longrightarrow> \<not> until \<le> u" for m u using Cons.prems by (simp add: not_le)
  show ?case
    using Cons.IH [OF as] a
    by (cases a) (auto simp: cb_check_state_def cb_record_state_def case_prod_unfold)
qed simp

lemma cb_run_trips:
  assumes "\<forall>a \<in> set pre. cb_is_check a \<or> cb_is_failure a"
    and "Suc (length (filter cb_is_failure pre)) = unat (cb_threshold st)"
    and "\<forall>m u. Check m u \<in> set post \<longrightarrow> u < t + int (cb_recovery st)"
  shows "Some Allow \<notin> set (drop (Suc (length pre)) (fst (cb_run st (Closed 0) (pre @ Record n t False # post))))"
proof -
  let ?j = "length (filter cb_is_failure pre)"
  have "snd (cb_run st (Closed 0) pre) = Closed (of_nat ?j)"
    using cb_run_counts [OF assms(1), of 0 st] assms(2) by simp
  moreover have "cb_threshold st \<le> of_nat ?j + 1"
  proof -
    have "of_nat (Suc ?j) = cb_threshold st" unfolding assms(2) by simp
    then show ?thesis by (simp add: add.commute)
  qed
  ultimately show ?thesis
    using cb_run_open [OF assms(3)] cb_run_length [of st "Closed 0" pre]
    by (auto simp: cb_run_append cb_record_state_def case_prod_unfold)
qed

lemma cb_run_probes:
  assumes "\<forall>a \<in> set as. cb_is_check a"
  shows "unat n + length (filter (\<lambda>r. r = Some Allow) (fst (cb_run st (HalfOpen n) as)))
    \<le> max (unat n) (unat (cb_half_open_probes st))"
  using assms
proof (induction as arbitrary: n)
  case (Cons a as)
  obtain now now2 where a: "a = Check now now2" using Cons.prems by (cases a) auto
  show ?case
  proof (cases "n < cb_half_open_probes st")
    case True
    then show ?thesis
      using Cons.IH [of "n + 1"] Cons.prems word_Suc_less [OF True] a
      by (auto simp: cb_check_state_def case_prod_unfold word_less_nat_alt)
  next
    case False
    then show ?thesis using Cons.IH [of n] Cons.prems a by (simp add: cb_check_state_def case_prod_unfold)
  qed
qed simp

lemma cb_run_probes_open:
  assumes "\<forall>a \<in> set as. cb_is_check a"
  shows "length (filter (\<lambda>r. r = Some Allow) (fst (cb_run st (Open until) as)))
    \<le> max 1 (unat (cb_half_open_probes st))"
  using assms
proof (induction as)
  case (Cons a as)
  obtain now now2 where a: "a = Check now now2" using Cons.prems by (cases a) auto
  show ?case
    using Cons cb_run_probes [of as 1 st] a
    by (cases "until \<le> now2") (auto simp: cb_check_state_def case_prod_unfold)
qed simp

lemma cb_run_blocked:
  assumes "\<forall>a \<in> set as. cb_is_check a" "cb_half_open_probes st \<le> n"
  shows "fst (cb_run st (HalfOpen n) as) = replicate (length as) (Some Reject)"
  using assms
proof (induction as)
  case (Cons a as)
  obtain now now2 where a: "a = Check now now2" using Cons.prems by (cases a) auto
  then show ?case using Cons by (simp add: cb_check_state_def case_prod_unfold not_less)
qed simp

section \<open>The scripts\<close>

text \<open>What the hash of a key says about its circuit, in milliseconds of the server clock.\<close>

definition cb_hash_rel :: "cb_hash \<Rightarrow> cb_state \<Rightarrow> bool" where
  "cb_hash_rel h s =
     (case s of
        Closed n \<Rightarrow> lua_number (h_state h) = 0 \<and> lua_number (h_failures h) = uint n
      | Open until \<Rightarrow> lua_number (h_state h) = 1 \<and> lua_number (h_until h) * 1000000 = until
      | HalfOpen n \<Rightarrow> lua_number (h_state h) = 2 \<and> lua_number (h_in_flight h) = uint n)"

lemma uint_Suc_less: "a < b \<Longrightarrow> uint (a + 1) = uint a + 1" for a b :: "32 word"
  using arg_cong [OF word_Suc_less [of a b], of int] by simp

lemma cb_check_lua_rel:
  assumes "cb_hash_rel h s" "cb_check_lua (uint probes) now_ms h = (code, h')"
    and "cb_check_state probes (now_ms * 1000000) s = (a, s')"
  shows "cb_code_action code = a \<and> cb_hash_rel h' s'"
  using assms uint_Suc_less [of _ probes]
  by (cases s)
     (auto simp: cb_hash_rel_def cb_check_lua_def cb_check_state_def cb_code_action_def lua_number_def
       word_less_def Let_def split: if_splits)

lemma cb_record_lua_rel:
  assumes "cb_hash_rel h s" "cb_state_ok st s"
    and "cb_recovery st = from_millis recovery_ms"
  shows "cb_hash_rel (snd (cb_record_lua (if success then 1 else 0) (uint (cb_threshold st)) (int recovery_ms) now_ms h))
      (cb_record_state (cb_threshold st) (cb_recovery st) (now_ms * 1000000) success s)"
proof (cases s)
  case (Closed n)
  have "uint (n + 1) = uint n + 1"
    using arg_cong [OF cb_state_ok_no_wrap [of st n], of int] assms(2) Closed by simp
  then show ?thesis
    using assms Closed
    by (auto simp: cb_hash_rel_def cb_record_lua_def cb_record_state_def lua_number_def from_millis_def
      word_le_def Let_def algebra_simps)
qed (use assms in \<open>auto simp: cb_hash_rel_def cb_record_lua_def cb_record_state_def lua_number_def
      from_millis_def Let_def algebra_simps\<close>)

section \<open>Properties\<close>

definition cb_example_store :: cb_shared where
  "cb_example_store = \<lparr>cb_circuits = [], cb_threshold = 2, cb_recovery = 10, cb_half_open_probes = 1,
     cb_max_keys = 1, cb_idle_ttl = 5, cb_next_cleanup = 30\<rparr>"

definition cb_example_open :: cb_shared where
  "cb_example_open = cb_example_store\<lparr>cb_circuits :=
     [(''a'', \<lparr>ce_state = Open 20, ce_last_seen = 10\<rparr>)]\<rparr>"

lemmas cb_eval = cb_check_def cb_record_def cb_check_state_def cb_record_state_def cb_step_def
  cb_entry_state_def cb_live_def cb_can_evict_entry_def cb_maybe_cleanup_def cb_evict_if_needed_def
  evict_oldest_def contains_key_def retain_def entry_or_insert_def duration_since_def Let_def

text \<open>C18. The invariant of the reachable states.  From an empty store, whatever is checked and
  recorded for whatever keys: every key has one circuit, a closed circuit is below the threshold and
  its counter can be incremented without wrapping, and a half-open circuit has between one and
  \<open>half_open_probes\<close> probes in flight.\<close>

theorem cb_reachable_ok:
  assumes "cb_reachable st0 st" "cb_circuits st0 = []"
  shows "cb_ok st \<and> (\<forall>(k, e) \<in> set (cb_circuits st).
      case ce_state e of
        Closed n \<Rightarrow> unat (n + 1) = unat n + 1 \<and> (n = 0 \<or> n < cb_threshold st0)
      | Open until \<Rightarrow> True
      | HalfOpen n \<Rightarrow> 1 \<le> n \<and> n \<le> max 1 (cb_half_open_probes st0))"
proof -
  have "cb_ok st \<and> cb_threshold st = cb_threshold st0 \<and> cb_half_open_probes st = cb_half_open_probes st0"
    using assms
  proof (induction rule: cb_reachable.induct)
    case start
    then show ?case by (simp add: cb_ok_def)
  next
    case (step st a k r st')
    then show ?case using cb_access_ok cb_access_policy by metis
  qed
  then show ?thesis
    using cb_state_ok_no_wrap [of st]
    by (fastforce simp: cb_ok_def cb_state_ok_def split: cb_state.splits)
qed

theorem cb_reachable_ok_witness:
  "cb_ok (cb_record 2 2 ''a'' False (cb_record 1 1 ''a'' False cb_example_store))
   \<and> map_of (cb_circuits (cb_record 2 2 ''a'' False (cb_record 1 1 ''a'' False cb_example_store))) ''a''
     = Some \<lparr>ce_state = Open 12, ce_last_seen = 2\<rparr>"
proof -
  have "cb_reachable cb_example_store (cb_record 2 2 ''a'' False (cb_record 1 1 ''a'' False cb_example_store))"
    by (rule cb_reachable.step [where a = "Record 2 2 False" and k = "''a''" and r = None],
        rule cb_reachable.step [where a = "Record 1 1 False" and k = "''a''" and r = None],
        rule cb_reachable.start) simp_all
  from cb_reachable_ok [OF this] show ?thesis
    by (simp add: cb_example_store_def cb_eval word_le_nat_alt)
qed




text \<open>C34. An open circuit is never dropped before its recovery time: no operation on other keys,
  however full the store is and however long the circuit has been idle, changes its entry.\<close>

theorem cb_open_survives:
  assumes "keyed_trace cb_access st ops = Some (rs, st')" "distinct (map fst (cb_circuits st))"
    and "map_of (cb_circuits st) k = Some e" "ce_state e = Open until"
    and "\<forall>(a, k') \<in> set ops. k' \<noteq> k \<and> cb_clock a < until"
  shows "map_of (cb_circuits st') k = Some e"
  using assms
proof (induction ops arbitrary: st rs)
  case (Cons op ops)
  obtain a k' where op: "op = (a, k')" by fastforce
  from Cons.prems(1) obtain r st1 rs' where
    acc: "cb_access a k' st = Some (r, st1)" and rest: "keyed_trace cb_access st1 ops = Some (rs', st')"
    unfolding op by (auto split: option.splits)
  have "cb_live st (cb_clock a) e"
    using Cons.prems(4,5) op by (simp add: cb_live_def cb_can_evict_entry_def)
  then have "map_of (cb_circuits st1) k = Some e"
    using cb.access_keeps_live [OF acc Cons.prems(2,3)] Cons.prems(5) op by auto
  then show ?case
    using Cons.IH [OF rest cb.access_distinct [OF acc Cons.prems(2)]] Cons.prems(4,5) by simp
qed simp

theorem cb_open_survives_witness:
  "\<exists>rs st'. keyed_trace cb_access cb_example_open [(Check 18 18, ''b''), (Check 19 19, ''c'')] = Some (rs, st')
     \<and> map_of (cb_circuits st') ''a'' = Some \<lparr>ce_state = Open 20, ce_last_seen = 10\<rparr>"
proof -
  obtain rs st' where run: "keyed_trace cb_access cb_example_open [(Check 18 18, ''b''), (Check 19 19, ''c'')] = Some (rs, st')"
    by (simp add: cb_example_open_def cb_example_store_def cb_eval)
  show ?thesis
    using run cb_open_survives [OF run, of "''a''" "\<lparr>ce_state = Open 20, ce_last_seen = 10\<rparr>" 20]
    by (auto simp: cb_example_open_def cb_example_store_def)
qed



text \<open>A probe whose outcome is never recorded blocks its key: once \<open>half_open_probes\<close> probes are
  in flight, every further check is rejected for as long as the traffic keeps the entry from expiring,
  and no amount of time alone reopens the circuit.\<close>

theorem cb_unrecorded_probe_blocks:
  assumes "keyed_trace cb_access st ops = Some (rs, st')" "distinct (map fst (cb_circuits st))"
    and "map_of (cb_circuits st) k = Some e" "ce_state e = HalfOpen n" "cb_half_open_probes st \<le> n"
    and "stays_live (cb_live st) cb_clock (cb_step st) k (Some e) ops"
    and "\<forall>a \<in> set (ops_of k ops). cb_is_check a"
  shows "results_of k rs = replicate (length (ops_of k ops)) (Some Reject)"
proof -
  have "results_of k rs = fst (cb_run st (HalfOpen n) (ops_of k ops))"
    using cb.trace_refines [OF assms(1,2), of k] assms(3,4,6)
    by (simp add: cb_entry_run cb_entry_state_def)
  then show ?thesis using cb_run_blocked [OF assms(7,5)] by simp
qed

text \<open>C14. The Lua scripts implement the in-memory machine.  If the hash of a key represents a
  reachable state of its circuit, the check script answers and leaves what \<open>check\<close> does at the same
  millisecond, and the record script leaves what \<open>record\<close> does.\<close>

theorem cb_lua_refines:
  assumes "cb_hash_rel h s" "cb_state_ok st s" "cb_recovery st = from_millis recovery_ms"
  shows "(case (cb_check_lua (uint (cb_half_open_probes st)) now_ms h,
               cb_check_state (cb_half_open_probes st) (now_ms * 1000000) s) of
          ((code, h'), (a, s')) \<Rightarrow> cb_code_action code = a \<and> cb_hash_rel h' s')
    \<and> cb_hash_rel (snd (cb_record_lua (if success then 1 else 0) (uint (cb_threshold st))
          (int recovery_ms) now_ms h))
        (cb_record_state (cb_threshold st) (cb_recovery st) (now_ms * 1000000) success s)"
  using cb_check_lua_rel [OF assms(1)] cb_record_lua_rel [OF assms] by (auto split: prod.split)

theorem cb_lua_refines_witness:
  "cb_hash_rel (snd (cb_record_lua 0 2 10 7 \<lparr>h_state = None, h_failures = Some 1, h_until = None, h_in_flight = None\<rparr>))
     (Open (17 * 1000000))"
proof -
  have "cb_hash_rel \<lparr>h_state = None, h_failures = Some 1, h_until = None, h_in_flight = None\<rparr> (Closed 1)"
    "cb_state_ok (cb_example_store\<lparr>cb_recovery := from_millis 10\<rparr>) (Closed 1)"
    by (simp_all add: cb_hash_rel_def lua_number_def cb_state_ok_def cb_example_store_def)
  from cb_lua_refines [OF this, of 10 7 False] show ?thesis
    by (simp add: cb_example_store_def cb_record_state_def from_millis_def)
qed



end
