(* ===== verification/Retry.thy ===== *)
theory Retry
  imports Http_Service
begin

text \<open>
  Retries, \<^verbatim>\<open>src/src/middleware/retry.rs\<close>: the retry budget, the builder, the capture of the
  request body for replay, the delays and the retry loop.

  Shown here: the number of calls a request can cause and what each of them sends; that a replayed
  body is the body the client sent; that the delay is bounded as long as the shift does not overflow,
  and what happens when it does; the bound the budget keeps.
\<close>

section \<open>Budget\<close>

record budget_state =
  bg_ratio :: real
  bg_min_retries :: nat
  bg_window :: duration
  bg_requests :: nat
  bg_retries :: nat
  bg_window_start :: instant

definition budget_new :: "real \<Rightarrow> nat \<Rightarrow> duration \<Rightarrow> instant \<Rightarrow> budget_state" where
  "budget_new ratio min_retries window now =
     \<lparr>bg_ratio = ratio, bg_min_retries = min_retries, bg_window = window, bg_requests = 0,
      bg_retries = 0, bg_window_start = now\<rparr>"

text \<open>\<open>now\<close> is the reading of \<open>elapsed\<close>, \<open>now2\<close> the one stored.\<close>

definition budget_maybe_reset_window :: "instant \<Rightarrow> instant \<Rightarrow> budget_state \<Rightarrow> budget_state" where
  "budget_maybe_reset_window now now2 b =
     (if bg_window b \<le> duration_since now (bg_window_start b)
      then b\<lparr>bg_requests := 0, bg_retries := 0, bg_window_start := now2\<rparr> else b)"

definition budget_record_request :: "instant \<Rightarrow> instant \<Rightarrow> budget_state \<Rightarrow> budget_state" where
  "budget_record_request now now2 b =
     (let b1 = budget_maybe_reset_window now now2 b in b1\<lparr>bg_requests := bg_requests b1 + 1\<rparr>)"

definition budget_allows_retry :: "instant \<Rightarrow> instant \<Rightarrow> budget_state \<Rightarrow> bool \<times> budget_state" where
  "budget_allows_retry now now2 b =
     (let b1 = budget_maybe_reset_window now now2 b;
          total = bg_requests b1 + bg_retries b1
      in (if bg_retries b1 < bg_min_retries b1 then True
          else if total = 0 then True
          else real (bg_retries b1) / real total < bg_ratio b1, b1))"

definition budget_record_retry :: "budget_state \<Rightarrow> budget_state" where
  "budget_record_retry b = b\<lparr>bg_retries := bg_retries b + 1\<rparr>"

section \<open>Builder\<close>

text \<open>A response without its body: status, version and headers.\<close>

type_synonym response_parts = "nat \<times> http_version \<times> headers"

definition response_parts :: "response \<Rightarrow> response_parts" where
  "response_parts r = (resp_status r, resp_version r, resp_headers r)"

datatype policy_kind =
    Headers_Policy "response_parts \<Rightarrow> nat \<Rightarrow> duration option"
  | Body_Policy "response_parts \<times> string \<Rightarrow> nat \<Rightarrow> duration option"

record retry =
  rt_statuses :: "nat list"
  rt_max_retries :: nat
  rt_backoff :: duration
  rt_max_backoff :: duration
  rt_policy :: "policy_kind option"
  rt_max_replay_body_bytes :: nat
  rt_budget_ratio :: "real option"
  rt_budget_window :: duration
  rt_budget_min_retries :: nat
  rt_budget_state :: "budget_state option"
  rt_retry_methods :: "string list option"

definition default_retry_methods :: "string list" where
  "default_retry_methods = [''GET'', ''HEAD'', ''PUT'', ''DELETE'', ''OPTIONS'', ''TRACE'']"

definition retry_with_statuses :: "nat list \<Rightarrow> retry" where
  "retry_with_statuses statuses =
     \<lparr>rt_statuses = statuses, rt_max_retries = 3, rt_backoff = from_secs 1,
      rt_max_backoff = from_secs 30, rt_policy = None, rt_max_replay_body_bytes = 1024 * 1024,
      rt_budget_ratio = None, rt_budget_window = from_secs 10, rt_budget_min_retries = 30,
      rt_budget_state = None, rt_retry_methods = Some default_retry_methods\<rparr>"

definition retry_default :: retry where
  "retry_default = retry_with_statuses [429, 502, 503, 504]"

definition retry_on_status :: "nat \<Rightarrow> retry result" where
  "retry_on_status s =
     (if 100 \<le> s \<and> s \<le> 999 then Inr (retry_with_statuses [s])
      else Inl (Panicked ''invalid status code''))"

definition retry_on_statuses :: "nat list \<Rightarrow> retry result" where
  "retry_on_statuses ss =
     and_then (collect_results (\<lambda>s. if 100 \<le> s \<and> s \<le> 999 then Inr s
                                    else Inl (Panicked ''invalid status code'')) ss)
       (\<lambda>ss. Inr (retry_with_statuses ss))"

definition retry_max_retries :: "nat \<Rightarrow> retry \<Rightarrow> retry" where
  "retry_max_retries n r = r\<lparr>rt_max_retries := n\<rparr>"

definition retry_backoff :: "duration \<Rightarrow> retry \<Rightarrow> retry" where
  "retry_backoff base r = r\<lparr>rt_backoff := base\<rparr>"

definition retry_max_backoff :: "duration \<Rightarrow> retry \<Rightarrow> retry" where
  "retry_max_backoff m r = r\<lparr>rt_max_backoff := m\<rparr>"

definition retry_max_replay_body_bytes :: "nat \<Rightarrow> retry \<Rightarrow> retry" where
  "retry_max_replay_body_bytes n r = r\<lparr>rt_max_replay_body_bytes := n\<rparr>"

definition retry_methods :: "string list \<Rightarrow> retry \<Rightarrow> retry" where
  "retry_methods ms r = r\<lparr>rt_retry_methods := Some ms\<rparr>"

definition retry_all_methods :: "retry \<Rightarrow> retry" where
  "retry_all_methods r = r\<lparr>rt_retry_methods := None\<rparr>"

definition retry_policy_headers :: "(response_parts \<Rightarrow> nat \<Rightarrow> duration option) \<Rightarrow> retry \<Rightarrow> retry" where
  "retry_policy_headers f r = r\<lparr>rt_policy := Some (Headers_Policy f)\<rparr>"

definition retry_policy :: "(response_parts \<times> string \<Rightarrow> nat \<Rightarrow> duration option) \<Rightarrow> retry \<Rightarrow> retry" where
  "retry_policy f r = r\<lparr>rt_policy := Some (Body_Policy f)\<rparr>"

definition retry_budget :: "real \<Rightarrow> instant \<Rightarrow> retry \<Rightarrow> retry" where
  "retry_budget ratio now r =
     r\<lparr>rt_budget_ratio := Some ratio,
       rt_budget_state := Some (budget_new ratio (rt_budget_min_retries r) (rt_budget_window r) now)\<rparr>"

definition retry_budget_window :: "duration \<Rightarrow> instant \<Rightarrow> retry \<Rightarrow> retry" where
  "retry_budget_window window now r =
     (let r1 = r\<lparr>rt_budget_window := window\<rparr>
      in case rt_budget_ratio r of
           None \<Rightarrow> r1
         | Some ratio \<Rightarrow> r1\<lparr>rt_budget_state := Some (budget_new ratio (rt_budget_min_retries r) window now)\<rparr>)"

definition retry_budget_min_retries :: "nat \<Rightarrow> instant \<Rightarrow> retry \<Rightarrow> retry" where
  "retry_budget_min_retries n now r =
     (let r1 = r\<lparr>rt_budget_min_retries := n\<rparr>
      in case rt_budget_ratio r of
           None \<Rightarrow> r1
         | Some ratio \<Rightarrow> r1\<lparr>rt_budget_state := Some (budget_new ratio n (rt_budget_window r) now)\<rparr>)"

section \<open>Capturing the request body\<close>

record replay_capture =
  cap_bytes :: string
  cap_max_bytes :: nat
  cap_overflowed :: bool
  cap_complete :: bool

definition capture_new :: "nat \<Rightarrow> replay_capture" where
  "capture_new max_bytes =
     \<lparr>cap_bytes = [], cap_max_bytes = max_bytes, cap_overflowed = False, cap_complete = False\<rparr>"

definition record_chunk :: "string \<Rightarrow> replay_capture \<Rightarrow> replay_capture" where
  "record_chunk chunk c =
     (if cap_overflowed c then c
      else if cap_max_bytes c < length (cap_bytes c) + length chunk
           then c\<lparr>cap_bytes := [], cap_overflowed := True\<rparr>
      else c\<lparr>cap_bytes := cap_bytes c @ chunk\<rparr>)"

definition capture_snapshot :: "replay_capture \<Rightarrow> string option" where
  "capture_snapshot c = (if cap_complete c \<and> \<not> cap_overflowed c then Some (cap_bytes c) else None)"

text \<open>One \<open>poll_frame\<close> of a \<open>RecordingBody\<close> that is ready: the capture and the frames that remain.\<close>

fun recording_poll :: "replay_capture \<Rightarrow> (string + frame) list \<Rightarrow> replay_capture \<times> (string + frame) list" where
  "recording_poll c [] = (c\<lparr>cap_complete := True\<rparr>, [])"
| "recording_poll c (Inl e # fs) = (c\<lparr>cap_overflowed := True\<rparr>, fs)"
| "recording_poll c (Inr (Data d) # fs) = (record_chunk d c, fs)"
| "recording_poll c (Inr (Trailers t) # fs) = (c, fs)"

fun recording_polls :: "nat \<Rightarrow> replay_capture \<Rightarrow> (string + frame) list \<Rightarrow> replay_capture" where
  "recording_polls 0 c fs = c"
| "recording_polls (Suc n) c fs = (case recording_poll c fs of (c', fs') \<Rightarrow> recording_polls n c' fs')"

section \<open>Delays\<close>

text \<open>\<open>1 << attempt\<close> at 32 bits: a panic with overflow checks, the shift by \<open>attempt mod 32\<close> without.
  \<open>rand\<close> is \<^verbatim>\<open>rand::random_range(0..=bound)\<close>.\<close>

definition exponential_delay ::
  "bool \<Rightarrow> (nat \<Rightarrow> 'w \<Rightarrow> nat \<times> 'w) \<Rightarrow> duration \<Rightarrow> duration \<Rightarrow> nat \<Rightarrow> 'w \<Rightarrow> duration result \<times> 'w"
where
  "exponential_delay overflow_checks rand base max_backoff attempt w =
     (if 32 \<le> attempt \<and> overflow_checks then (Inl (Panicked ''attempt to shift left with overflow''), w)
      else let max_delay = min (saturating_mul base (2 ^ (attempt mod 32))) max_backoff
           in (case rand (max_delay mod 2 ^ 64) w of (jitter_nanos, w') \<Rightarrow> (Inr jitter_nanos, w')))"

definition retry_after_delay :: "response \<Rightarrow> duration option" where
  "retry_after_delay resp =
     Option.bind (hdr_get (resp_headers resp) ''retry-after'') (\<lambda>header.
     Option.bind (to_str header) (\<lambda>value.
     map_option from_secs (parse_u64 value)))"

section \<open>The loop\<close>

text \<open>What the loop reaches: the clock and timer, the buffered inner service, how often that service
  has polled the recorded body so far, randomness, the shared budget, and the build mode.\<close>

record 'w retry_ctx =
  rx_env :: "'w env"
  rx_inner :: "'w service"
  rx_polls :: "'w \<Rightarrow> nat"
  rx_rand :: "nat \<Rightarrow> 'w \<Rightarrow> nat \<times> 'w"
  rx_budget :: "('w, budget_state mutex) cell option"
  rx_overflow_checks :: bool

text \<open>Both uses of the budget: under one lock, with two clock readings.\<close>

definition with_budget ::
  "'w retry_ctx \<Rightarrow> 'a \<Rightarrow> (instant \<Rightarrow> instant \<Rightarrow> budget_state \<Rightarrow> 'a \<times> budget_state) \<Rightarrow> 'w \<Rightarrow> 'a result \<times> 'w"
where
  "with_budget x absent f w =
     (case rx_budget x of
        None \<Rightarrow> (Inr absent, w)
      | Some c \<Rightarrow>
          (let (now, w1) = env_now (rx_env x) w; (now2, w2) = env_now (rx_env x) w1
           in lock_cell c (\<lambda>b. Inr (f now now2 b)) w2))"

definition budget_spend :: "instant \<Rightarrow> instant \<Rightarrow> budget_state \<Rightarrow> bool \<times> budget_state" where
  "budget_spend now now2 b =
     (case budget_allows_retry now now2 b of
        (ok, b1) \<Rightarrow> (ok, if ok then budget_record_retry b1 else b1))"

text \<open>The request of one attempt, rebuilt from its parts: the extensions of the original are gone.\<close>

definition retry_request :: "request \<Rightarrow> nat \<Rightarrow> string option \<Rightarrow> request" where
  "retry_request req attempt replay =
     req\<lparr>req_target := None,
         req_body := (if attempt = 0 then req_body req
                      else full_body (case replay of None \<Rightarrow> [] | Some b \<Rightarrow> b))\<rparr>"

text \<open>The part the three policies share once they want a retry: take the captured body, spend the
  budget.  \<open>Inr None\<close> gives up and returns the response at hand.\<close>

definition retry_gate ::
  "'w retry_ctx \<Rightarrow> retry \<Rightarrow> request \<Rightarrow> string option \<Rightarrow> 'w \<Rightarrow> string option result \<times> 'w"
where
  "retry_gate x r req replay w =
     (case (case replay of
              Some b \<Rightarrow> Some b
            | None \<Rightarrow> capture_snapshot
                (recording_polls (rx_polls x w) (capture_new (rt_max_replay_body_bytes r))
                   (body_frames (req_body req)))) of
        None \<Rightarrow> (Inr None, w)
      | Some b \<Rightarrow>
          (case with_budget x True budget_spend w of
             (Inl e, w1) \<Rightarrow> (Inl e, w1)
           | (Inr ok, w1) \<Rightarrow> (Inr (if ok then Some b else None), w1)))"

text \<open>What a policy says of a response: the response to return if it is accepted, and the delay if a
  retry is wanted (for the default policy the delay is computed only after the gate).\<close>

datatype wanted = Wanted_After duration | Wanted_With_Backoff

definition retry_decide :: "retry \<Rightarrow> nat \<Rightarrow> nat \<Rightarrow> response \<Rightarrow> (response \<times> wanted option) result" where
  "retry_decide r max_retries attempt resp =
     (case rt_policy r of
        Some (Body_Policy f) \<Rightarrow>
          and_then (collect_frames (body_frames (resp_body resp))) (\<lambda>bytes.
            Inr (resp\<lparr>resp_body := full_body bytes\<rparr>,
                 if attempt < max_retries
                 then map_option Wanted_After (f (response_parts resp, bytes) attempt) else None))
      | Some (Headers_Policy f) \<Rightarrow>
          Inr (resp, if attempt < max_retries
                     then map_option Wanted_After (f (response_parts resp) attempt) else None)
      | None \<Rightarrow>
          Inr (resp, if attempt = max_retries \<or> resp_status resp \<notin> set (rt_statuses r)
                     then None else Some Wanted_With_Backoff))"

definition retry_delay ::
  "'w retry_ctx \<Rightarrow> retry \<Rightarrow> nat \<Rightarrow> response \<Rightarrow> wanted \<Rightarrow> 'w \<Rightarrow> duration result \<times> 'w"
where
  "retry_delay x r attempt resp d w =
     (case d of
        Wanted_After t \<Rightarrow> (Inr t, w)
      | Wanted_With_Backoff \<Rightarrow>
          (case retry_after_delay resp of
             Some t \<Rightarrow> (Inr t, w)
           | None \<Rightarrow> exponential_delay (rx_overflow_checks x) (rx_rand x) (rt_backoff r)
                       (rt_max_backoff r) attempt w))"

text \<open>\<open>for attempt in 0..=max_retries\<close>: \<open>left\<close> is \<open>max_retries - attempt\<close>.\<close>

fun retry_loop ::
  "'w retry_ctx \<Rightarrow> retry \<Rightarrow> request \<Rightarrow> nat \<Rightarrow> nat \<Rightarrow> string option \<Rightarrow> 'w \<Rightarrow> response result \<times> 'w"
where
  "retry_loop x r req max_retries left replay w =
     (let attempt = max_retries - left;
          (fut, w1) = rx_inner x (retry_request req attempt replay) w
      in case fut w1 of
           (Inl e, w2) \<Rightarrow> (Inl e, w2)
         | (Inr resp, w2) \<Rightarrow>
             (case retry_decide r max_retries attempt resp of
                Inl e \<Rightarrow> (Inl e, w2)
              | Inr (out, None) \<Rightarrow> (Inr out, w2)
              | Inr (out, Some d) \<Rightarrow>
                  (case retry_gate x r req replay w2 of
                     (Inl e, w3) \<Rightarrow> (Inl e, w3)
                   | (Inr None, w3) \<Rightarrow> (Inr out, w3)
                   | (Inr (Some bytes), w3) \<Rightarrow>
                       (case retry_delay x r attempt resp d w3 of
                          (Inl e, w4) \<Rightarrow> (Inl e, w4)
                        | (Inr t, w4) \<Rightarrow>
                            (case left of
                               0 \<Rightarrow> (Inl (Panicked ''internal error: entered unreachable code''), w4)
                             | Suc n \<Rightarrow> retry_loop x r req max_retries n (Some bytes)
                                         (env_sleep (rx_env x) t w4))))))"

declare retry_loop.simps [simp del]

lemmas retry_loop_unfold [simp] =
  retry_loop.simps [where left = 0] retry_loop.simps [where left = "Suc n" for n]

definition retry_method_ok :: "retry \<Rightarrow> request \<Rightarrow> bool" where
  "retry_method_ok r req =
     (case rt_retry_methods r of None \<Rightarrow> True | Some ms \<Rightarrow> req_method req \<in> set ms)"

definition retry_call :: "'w retry_ctx \<Rightarrow> retry \<Rightarrow> 'w service" where
  "retry_call x r req w =
     ((\<lambda>w. let max_retries = (if retry_method_ok r req then rt_max_retries r else 0);
              replay = (if body_exact_size (req_body req) = Some 0 then Some [] else None)
          in case with_budget x () (\<lambda>now now2 b. ((), budget_record_request now now2 b)) w of
               (Inl e, w1) \<Rightarrow> (Inl e, w1)
             | (Inr _, w1) \<Rightarrow> retry_loop x r req max_retries max_retries replay w1), w)"

section \<open>Replayed bodies\<close>

lemma record_chunk_overflowed [simp]: "cap_overflowed c \<Longrightarrow> record_chunk d c = c"
  by (simp add: record_chunk_def)

lemma recording_polls_overflowed:
  "cap_overflowed c \<Longrightarrow> cap_overflowed (recording_polls n c fs)"
proof (induction n arbitrary: c fs)
  case (Suc n)
  then show ?case by (cases "(c, fs)" rule: recording_poll.cases) auto
qed simp

lemma recording_polls_done: "recording_polls (Suc n) c [] = c\<lparr>cap_complete := True\<rparr>"
  by (induction n arbitrary: c) auto

lemma recording_polls_whole:
  assumes "capture_snapshot (recording_polls n c fs) = Some b" "\<not> cap_complete c"
    and "length (cap_bytes c) \<le> cap_max_bytes c"
  shows "\<exists>rest. collect_frames fs = Inr rest \<and> b = cap_bytes c @ rest \<and> length b \<le> cap_max_bytes c"
  using assms
proof (induction n arbitrary: c fs)
  case 0
  then show ?case by (simp add: capture_snapshot_def)
next
  case (Suc n)
  have no: "\<not> cap_overflowed (recording_polls (Suc n) c fs)"
    using Suc.prems(1) by (auto simp: capture_snapshot_def split: if_splits)
  show ?case
  proof (cases "(c, fs)" rule: recording_poll.cases)
    case (1 c)
    then show ?thesis using Suc.prems recording_polls_done [of n c]
      by (auto simp: capture_snapshot_def split: if_splits)
  next
    case (2 c e gs)
    then show ?thesis using no recording_polls_overflowed by force
  next
    case (3 c d gs)
    have "\<not> cap_overflowed (record_chunk d c)" using no 3 recording_polls_overflowed by force
    then have c': "record_chunk d c = c\<lparr>cap_bytes := cap_bytes c @ d\<rparr>"
      "length (cap_bytes c @ d) \<le> cap_max_bytes c"
      by (auto simp: record_chunk_def split: if_splits)
    then show ?thesis using Suc.IH [of "record_chunk d c" gs] Suc.prems 3 by auto
  next
    case (4 c t gs)
    then show ?thesis using Suc.IH [of c gs] Suc.prems by auto
  qed
qed

lemma recording_polls_complete:
  assumes "collect_frames fs = Inr b" "length fs < n" "\<not> cap_overflowed c"
    and "length (cap_bytes c) + length b \<le> cap_max_bytes c"
  shows "capture_snapshot (recording_polls n c fs) = Some (cap_bytes c @ b)"
  using assms
proof (induction fs arbitrary: n c b rule: collect_frames.induct)
  case 1
  then show ?case by (cases n) (simp_all add: recording_polls_done capture_snapshot_def del: recording_polls.simps)
next
  case (3 d fs)
  then obtain m r where "n = Suc m" "collect_frames fs = Inr r" "b = d @ r"
    by (cases n) (auto simp: and_then_Inr_iff)
  then show ?case
    using "3.IH" [of r m "record_chunk d c"] "3.prems" by (auto simp: record_chunk_def)
next
  case (4 t fs)
  then show ?case by (cases n) auto
qed simp

section \<open>Calls\<close>

text \<open>\<open>calls\<close> reads from the world the requests the inner service has been called with; the clock, the
  timer, randomness and the budget leave it alone.\<close>

definition call_log_ok :: "('w \<Rightarrow> request list) \<Rightarrow> 'w retry_ctx \<Rightarrow> bool" where
  "call_log_ok calls x \<longleftrightarrow>
     (\<forall>req w. calls (snd (rx_inner x req w)) = calls w @ [req]) \<and>
     (\<forall>req w w'. calls (snd (fst (rx_inner x req w) w')) = calls w') \<and>
     (\<forall>w. calls (snd (env_now (rx_env x) w)) = calls w) \<and>
     (\<forall>d w. calls (env_sleep (rx_env x) d w) = calls w) \<and>
     (\<forall>n w. calls (snd (rx_rand x n w)) = calls w) \<and>
     (\<forall>c m w. rx_budget x = Some c \<longrightarrow> calls (cell_put c m w) = calls w)"

lemma with_budget_calls:
  assumes "call_log_ok calls x"
  shows "calls (snd (with_budget x a f w)) = calls w"
  using assms
  by (auto simp: with_budget_def call_log_ok_def lock_cell_def Let_def case_prod_unfold split: option.split)

lemma retry_gate_calls:
  assumes "call_log_ok calls x"
  shows "calls (snd (retry_gate x r req replay w)) = calls w"
  using with_budget_calls [OF assms, of True budget_spend w]
  by (auto simp: retry_gate_def split: option.split prod.splits sum.splits)

lemma retry_delay_calls:
  assumes "call_log_ok calls x"
  shows "calls (snd (retry_delay x r attempt resp d w)) = calls w"
  using assms
  by (auto simp: retry_delay_def exponential_delay_def call_log_ok_def Let_def case_prod_unfold
    split: option.split wanted.split)

lemma retry_gate_replay:
  assumes "retry_gate x r req replay w = (Inr (Some b), w')"
  shows "replay = Some b \<or> (replay = None \<and> collect_frames (body_frames (req_body req)) = Inr b)"
proof (cases replay)
  case None
  then have "capture_snapshot (recording_polls (rx_polls x w) (capture_new (rt_max_replay_body_bytes r))
      (body_frames (req_body req))) = Some b"
    using assms by (auto simp: retry_gate_def split: option.splits prod.splits sum.splits if_splits)
  then show ?thesis
    using recording_polls_whole None by (fastforce simp: capture_new_def)
next
  case (Some a)
  then show ?thesis using assms by (auto simp: retry_gate_def split: prod.splits sum.splits if_splits)
qed

lemma retry_decide_last: "retry_decide r m m resp = Inr (out, d) \<Longrightarrow> d = None"
  by (auto simp: retry_decide_def and_then_Inr_iff split: option.splits policy_kind.splits)

lemma retry_loop_calls:
  assumes "call_log_ok calls x" "left \<le> m" "retry_loop x r req m left replay w = (res, w')"
    and "\<forall>b. replay = Some b \<longrightarrow> collect_frames (body_frames (req_body req)) = Inr b"
  shows "\<exists>reqs. calls w' = calls w @ retry_request req (m - left) replay # reqs \<and> length reqs \<le> left \<and>
    (\<forall>q \<in> set reqs. \<exists>b. collect_frames (body_frames (req_body req)) = Inr b \<and>
       q = req\<lparr>req_target := None, req_body := full_body b\<rparr>)"
  using assms(2-4)
proof (induction left arbitrary: replay w)
  case 0
  obtain fut w1 where inner: "rx_inner x (retry_request req m replay) w = (fut, w1)" by fastforce
  obtain q w2 where fut: "fut w1 = (q, w2)" by fastforce
  have log: "calls w2 = calls w @ [retry_request req m replay]"
    using assms(1) inner fut unfolding call_log_ok_def by (metis fst_conv snd_conv)
  show ?case
    using "0.prems"(2) inner fut log
    by (auto simp: Let_def split: sum.splits option.splits prod.splits dest: retry_decide_last)
next
  case (Suc n)
  let ?q = "retry_request req (m - Suc n) replay"
  obtain fut w1 where inner: "rx_inner x ?q w = (fut, w1)" by fastforce
  obtain q w2 where fut: "fut w1 = (q, w2)" by fastforce
  have log: "calls w2 = calls w @ [?q]"
    using assms(1) inner fut unfolding call_log_ok_def by (metis fst_conv snd_conv)
  show ?case
  proof (cases "\<exists>resp out d b w3 t w4. q = Inr resp \<and> retry_decide r m (m - Suc n) resp = Inr (out, Some d) \<and>
      retry_gate x r req replay w2 = (Inr (Some b), w3) \<and>
      retry_delay x r (m - Suc n) resp d w3 = (Inr t, w4)")
    case True
    then obtain resp out d b w3 t w4 where *: "q = Inr resp"
      "retry_decide r m (m - Suc n) resp = Inr (out, Some d)"
      "retry_gate x r req replay w2 = (Inr (Some b), w3)"
      "retry_delay x r (m - Suc n) resp d w3 = (Inr t, w4)" by blast
    have whole: "collect_frames (body_frames (req_body req)) = Inr b"
      using retry_gate_replay [OF *(3)] Suc.prems(3) by auto
    have "calls (env_sleep (rx_env x) t w4) = calls w2"
      using retry_gate_calls [OF assms(1), of r req replay w2] *(3)
        retry_delay_calls [OF assms(1), of r "m - Suc n" resp d w3] *(4) assms(1)
      by (simp add: call_log_ok_def)
    moreover have "retry_loop x r req m n (Some b) (env_sleep (rx_env x) t w4) = (res, w')"
      using Suc.prems(2) inner fut * by simp
    moreover have "retry_request req (m - n) (Some b) = req\<lparr>req_target := None, req_body := full_body b\<rparr>"
      using Suc.prems(1) by (simp add: retry_request_def)
    ultimately show ?thesis
      using Suc.IH [of "Some b" "env_sleep (rx_env x) t w4"] Suc.prems(1) log whole by auto
  next
    case False
    obtain g w3 where gate: "retry_gate x r req replay w2 = (g, w3)" by fastforce
    have w3: "calls w3 = calls w2" using retry_gate_calls [OF assms(1), of r req replay w2] gate by simp
    have "calls w' = calls w2"
    proof (cases "\<exists>resp out d b. q = Inr resp \<and> retry_decide r m (m - Suc n) resp = Inr (out, Some d) \<and> g = Inr (Some b)")
      case True
      then obtain resp out d b where *: "q = Inr resp"
        "retry_decide r m (m - Suc n) resp = Inr (out, Some d)" "g = Inr (Some b)" by blast
      obtain t w4 where t: "retry_delay x r (m - Suc n) resp d w3 = (t, w4)" by fastforce
      then obtain e where "t = Inl e" using False * gate by (cases t) auto
      then show ?thesis
        using Suc.prems(2) inner fut * gate t w3 retry_delay_calls [OF assms(1), of r "m - Suc n" resp d w3]
        by simp
    next
      case no: False
      then show ?thesis
        using Suc.prems(2) inner fut gate w3
        by (auto simp: Let_def split: sum.splits option.splits prod.splits)
    qed
    then show ?thesis using log by auto
  qed
qed

section \<open>Delays and budget\<close>

datatype budget_op = Budget_Request instant instant | Budget_Retry instant instant

primrec budget_step :: "budget_op \<Rightarrow> budget_state \<Rightarrow> budget_state" where
  "budget_step (Budget_Request now now2) b = budget_record_request now now2 b"
| "budget_step (Budget_Retry now now2) b = snd (budget_spend now now2 b)"

definition budget_ok :: "budget_state \<Rightarrow> bool" where
  "budget_ok b \<longleftrightarrow> real (bg_retries b)
     \<le> max (real (bg_min_retries b)) (bg_ratio b * real (bg_requests b + bg_retries b) + 1)"

lemma budget_reset_ok:
  "budget_ok b \<Longrightarrow> budget_ok (budget_maybe_reset_window now now2 b)"
  by (simp add: budget_ok_def budget_maybe_reset_window_def le_max_iff_disj)

lemma budget_reset_policy [simp]:
  "bg_ratio (budget_maybe_reset_window now now2 b) = bg_ratio b"
  "bg_min_retries (budget_maybe_reset_window now now2 b) = bg_min_retries b"
  by (simp_all add: budget_maybe_reset_window_def)

lemma budget_more_requests:
  assumes "budget_ok b" "0 \<le> bg_ratio b"
  shows "budget_ok (b\<lparr>bg_requests := bg_requests b + 1\<rparr>)"
proof -
  have "bg_ratio b * real (bg_requests b + bg_retries b) \<le> bg_ratio b * real (bg_requests b + 1 + bg_retries b)"
    using assms(2) by (intro mult_left_mono) auto
  then show ?thesis using assms(1) unfolding budget_ok_def by simp
qed

lemma budget_one_retry:
  assumes "budget_allows_retry now now2 b = (True, b1)" "0 \<le> bg_ratio b"
  shows "budget_ok (budget_record_retry b1)"
proof -
  have b1: "b1 = budget_maybe_reset_window now now2 b"
    and ok: "bg_retries b1 < bg_min_retries b1 \<or> bg_requests b1 + bg_retries b1 = 0 \<or>
      real (bg_retries b1) / real (bg_requests b1 + bg_retries b1) < bg_ratio b1"
    using assms(1) by (auto simp: budget_allows_retry_def Let_def split: if_splits)
  have r: "0 \<le> bg_ratio b1" using assms(2) b1 by simp
  consider "bg_retries b1 < bg_min_retries b1" | "bg_retries b1 = 0"
    | "real (bg_retries b1) < bg_ratio b1 * real (bg_requests b1 + bg_retries b1)"
    using ok by (cases "bg_requests b1 + bg_retries b1 = 0") (auto simp: divide_less_eq)
  then show ?thesis
  proof cases
    case 3
    have "bg_ratio b1 * real (bg_requests b1 + bg_retries b1)
        \<le> bg_ratio b1 * real (bg_requests b1 + (bg_retries b1 + 1))"
      using r by (intro mult_left_mono) auto
    then show ?thesis using 3 by (simp add: budget_ok_def budget_record_retry_def)
  qed (use r in \<open>auto simp: budget_ok_def budget_record_retry_def le_max_iff_disj\<close>)
qed

lemma recording_polls_incomplete:
  "cap_complete (recording_polls n c fs) \<Longrightarrow> \<not> cap_complete c \<Longrightarrow> length fs < n"
proof (induction n arbitrary: c fs)
  case (Suc n)
  have keep: "cap_complete (record_chunk d c) = cap_complete c" for d by (simp add: record_chunk_def)
  show ?case using Suc keep by (cases "(c, fs)" rule: recording_poll.cases) fastforce+
qed simp

section \<open>Properties\<close>

text \<open>A service that records its requests and answers 503 to the first.\<close>

definition retry_example_ctx :: "request list retry_ctx" where
  "retry_example_ctx =
     \<lparr>rx_env = \<lparr>env_now = (\<lambda>w. (0, w)), env_sleep = (\<lambda>d w. w)\<rparr>,
      rx_inner = (\<lambda>req w. (\<lambda>w. (Inr (response_with (if length w \<le> 1 then 503 else 200) empty_body), w), w @ [req])),
      rx_polls = (\<lambda>w. 2), rx_rand = (\<lambda>n w. (0, w)), rx_budget = None, rx_overflow_checks = True\<rparr>"

definition retry_example_request :: request where
  "retry_example_request =
     \<lparr>req_method = ''PUT'', req_uri = \<lparr>uri_scheme = None, uri_authority = None, uri_path_and_query = Some (''/'', None)\<rparr>,
      req_version = HTTP_11, req_headers = [], req_target = None,
      req_body = \<lparr>body_frames = [Inr (Data ''hi'')], body_exact_size = None\<rparr>\<rparr>"

text \<open>C9. What one request costs and sends.  Whatever the policy and the responses, a request calls the
  inner service at most \<open>max_retries + 1\<close> times, and at most once when its method may not be retried.
  The first call carries the request itself, and every later one the same method, URI, version and
  headers with exactly the bytes of the original body.  None of them carries the extensions of the
  original request.\<close>

theorem retry_calls:
  assumes "call_log_ok calls x" "fst (retry_call x r req w0) w = (res, w')"
    and "body_exact_size (req_body req) = Some 0 \<longrightarrow> collect_frames (body_frames (req_body req)) = Inr []"
  shows "\<exists>reqs. calls w' = calls w @ reqs \<and>
    length reqs \<le> (if retry_method_ok r req then rt_max_retries r + 1 else 1) \<and>
    (\<forall>q \<in> set (take 1 reqs). q = req\<lparr>req_target := None\<rparr>) \<and>
    (\<forall>q \<in> set (drop 1 reqs). \<exists>b. collect_frames (body_frames (req_body req)) = Inr b \<and>
       q = req\<lparr>req_target := None, req_body := full_body b\<rparr>)"
proof -
  define m where "m = (if retry_method_ok r req then rt_max_retries r else 0)"
  define replay :: "string option" where
    "replay = (if body_exact_size (req_body req) = Some 0 then Some [] else None)"
  obtain q w1 where budget: "with_budget x () (\<lambda>now now2 b. ((), budget_record_request now now2 b)) w = (q, w1)"
    by fastforce
  have w1: "calls w1 = calls w" using with_budget_calls [OF assms(1)] budget by (metis snd_conv)
  show ?thesis
  proof (cases q)
    case (Inl e)
    then show ?thesis using assms(2) budget w1 by (auto simp: retry_call_def)
  next
    case (Inr u)
    then have run: "retry_loop x r req m m replay w1 = (res, w')"
      using assms(2) budget by (simp add: retry_call_def m_def replay_def Let_def)
    have whole: "\<forall>b. replay = Some b \<longrightarrow> collect_frames (body_frames (req_body req)) = Inr b"
      using assms(3) by (auto simp: replay_def)
    obtain reqs where "calls w' = calls w1 @ retry_request req (m - m) replay # reqs" "length reqs \<le> m"
      "\<forall>q \<in> set reqs. \<exists>b. collect_frames (body_frames (req_body req)) = Inr b \<and>
         q = req\<lparr>req_target := None, req_body := full_body b\<rparr>"
      using retry_loop_calls [OF assms(1) order_refl run whole] by blast
    then show ?thesis
      using w1 by (intro exI [of _ "retry_request req 0 replay # reqs"]) (auto simp: m_def retry_request_def)
  qed
qed

theorem retry_calls_witness:
  "call_log_ok (\<lambda>w. w) retry_example_ctx \<and>
   snd (fst (retry_call retry_example_ctx retry_default retry_example_request []) []) =
     [retry_example_request, retry_example_request\<lparr>req_body := full_body ''hi''\<rparr>] \<and>
   length [retry_example_request, retry_example_request\<lparr>req_body := full_body ''hi''\<rparr>]
     \<le> rt_max_retries retry_default + 1"
proof -
  have ok: "call_log_ok (\<lambda>w. w) retry_example_ctx"
    by (simp add: call_log_ok_def retry_example_ctx_def)
  have run: "fst (retry_call retry_example_ctx retry_default retry_example_request []) [] =
      (Inr (response_with 200 empty_body),
       [retry_example_request, retry_example_request\<lparr>req_body := full_body ''hi''\<rparr>])"
    by (simp add: retry_call_def retry_default_def retry_with_statuses_def retry_method_ok_def
      default_retry_methods_def retry_example_request_def retry_example_ctx_def with_budget_def
      retry_request_def retry_decide_def retry_gate_def retry_delay_def retry_after_delay_def hdr_get_def
      exponential_delay_def capture_snapshot_def capture_new_def record_chunk_def numeral_2_eq_2
      numeral_3_eq_3 Let_def)
  have size: "body_exact_size (req_body retry_example_request) = Some 0 \<longrightarrow>
      collect_frames (body_frames (req_body retry_example_request)) = Inr []"
    by (simp add: retry_example_request_def)
  show ?thesis
    using ok run retry_calls [OF ok run size]
    by (simp add: retry_method_ok_def retry_default_def retry_with_statuses_def)
qed

text \<open>C19. What a replay sends.  The capture yields a body exactly when the inner service has read the
  original to its end, the original did not fail and it fits into \<open>max_replay_body_bytes\<close>; what it
  yields is the original.\<close>

theorem retry_replay_exact:
  "capture_snapshot (recording_polls n (capture_new max_bytes) frames) = Some b \<longleftrightarrow>
     collect_frames frames = Inr b \<and> length b \<le> max_bytes \<and> length frames < n"
proof
  assume snap: "capture_snapshot (recording_polls n (capture_new max_bytes) frames) = Some b"
  then have "length frames < n"
    by (intro recording_polls_incomplete) (auto simp: capture_snapshot_def capture_new_def split: if_splits)
  then show "collect_frames frames = Inr b \<and> length b \<le> max_bytes \<and> length frames < n"
    using recording_polls_whole [OF snap] by (auto simp: capture_new_def)
next
  assume "collect_frames frames = Inr b \<and> length b \<le> max_bytes \<and> length frames < n"
  then show "capture_snapshot (recording_polls n (capture_new max_bytes) frames) = Some b"
    using recording_polls_complete [of frames b n "capture_new max_bytes"] by (simp add: capture_new_def)
qed

text \<open>C37. The jittered backoff of the first 32 attempts is at most \<open>max_backoff\<close> and at most
  \<open>base * 2 ^ attempt\<close>.\<close>

theorem retry_backoff_bounded:
  assumes "attempt < 32" "\<And>n w. fst (rand n w) \<le> n"
    and "exponential_delay overflow_checks rand base max_backoff attempt w = (d, w')"
  shows "\<exists>t. d = Inr t \<and> t \<le> max_backoff \<and> t \<le> base * 2 ^ attempt"
proof -
  define top where "top = min (saturating_mul base (2 ^ (attempt mod 32))) max_backoff"
  have "d = Inr (fst (rand (top mod 2 ^ 64) w))"
    using assms(1,3) by (auto simp: exponential_delay_def top_def Let_def split: prod.splits)
  moreover have "fst (rand (top mod 2 ^ 64) w) \<le> top"
    by (rule order_trans [OF assms(2)]) simp
  moreover have "top \<le> max_backoff" "top \<le> base * 2 ^ attempt"
    using assms(1) by (auto simp: top_def saturating_mul_def min.coboundedI1)
  ultimately show ?thesis by auto
qed

theorem retry_backoff_bounded_witness:
  "\<exists>t. exponential_delay True (\<lambda>n w. (n div 2, w)) 100 300 2 () = (Inr t, ()) \<and> t \<le> 300"
proof -
  have run: "exponential_delay True (\<lambda>n w. (n div 2, w)) 100 300 2 () = (Inr 150, ())"
    by (simp add: exponential_delay_def saturating_mul_def duration_max_def)
  show ?thesis using run retry_backoff_bounded [OF _ _ run] by auto
qed

text \<open>From attempt 32 on \<open>1 << attempt\<close> overflows: a build with overflow checks panics, and one
  without starts the backoff over from the base delay.\<close>

theorem retry_backoff_overflows:
  assumes "32 \<le> attempt"
  shows "exponential_delay True rand base max_backoff attempt w =
      (Inl (Panicked ''attempt to shift left with overflow''), w)
    \<and> exponential_delay False rand base max_backoff attempt w =
      exponential_delay False rand base max_backoff (attempt - 32) w"
  using assms by (simp add: exponential_delay_def le_mod_geq)

text \<open>C20. The retry budget.  After any sequence of requests and retry decisions, the retries counted in
  the current window are at most the floor, or at most \<open>ratio\<close> of all attempts of the window plus one.\<close>

theorem retry_budget_bound:
  assumes "0 \<le> ratio"
  shows "budget_ok (fold budget_step ops (budget_new ratio min_retries window now))"
proof -
  have "budget_ok b \<and> 0 \<le> bg_ratio b \<Longrightarrow>
      budget_ok (fold budget_step ops b)" for b
  proof (induction ops arbitrary: b)
    case (Cons op ops)
    have "budget_ok (budget_step op b) \<and> 0 \<le> bg_ratio (budget_step op b)"
    proof (cases op)
      case (Budget_Request n n2)
      then show ?thesis
        using Cons.prems budget_reset_ok budget_more_requests
        by (simp add: budget_record_request_def Let_def)
    next
      case (Budget_Retry n n2)
      obtain ok b1 where b1: "budget_allows_retry n n2 b = (ok, b1)" by fastforce
      then have "b1 = budget_maybe_reset_window n n2 b"
        by (simp add: budget_allows_retry_def Let_def)
      then show ?thesis
        using Cons.prems Budget_Retry b1 budget_one_retry [of n n2 b b1] budget_reset_ok
        by (cases ok) (auto simp: budget_spend_def budget_record_retry_def)
    qed
    then show ?case using Cons.IH by simp
  qed simp
  then show ?thesis using assms by (simp add: budget_ok_def budget_new_def)
qed

theorem retry_budget_bound_witness:
  "bg_retries (fold budget_step [Budget_Request 0 0, Budget_Retry 0 0, Budget_Retry 0 0] (budget_new (1 / 2) 1 10 0)) = 1
   \<and> budget_ok (fold budget_step [Budget_Request 0 0, Budget_Retry 0 0, Budget_Retry 0 0] (budget_new (1 / 2) 1 10 0))"
  using retry_budget_bound [of "1 / 2" "[Budget_Request 0 0, Budget_Retry 0 0, Budget_Retry 0 0]" 1 10 0]
  by (simp add: budget_record_request_def budget_spend_def budget_allows_retry_def budget_record_retry_def
    budget_maybe_reset_window_def budget_new_def Let_def)

end
