(* ===== verification/Router.thy ===== *)
theory Router
  imports Http_Service "HOL-Library.Multiset"
begin

text \<open>
  The router and its load-balanced upstreams, \<^verbatim>\<open>src/src/middleware/router.rs\<close>.  The counter of an
  upstream is an \<^verbatim>\<open>AtomicUsize\<close> shared by all clones: a cell that holds a 64-bit word.  URL parsing and
  randomness are parameters.

  Shown here: a pick never indexes out of range; round robin serves every backend once per cycle; the
  first matching route wins, and a request that matches nothing is answered with 502 without
  reaching the inner service.
\<close>

section \<open>Upstreams\<close>

datatype load_balance_strategy = RoundRobin | Random

record backend =
  be_authority :: authority
  be_scheme :: string

record 'w upstream =
  up_backends :: "backend list"
  up_strategy :: load_balance_strategy
  up_counter :: "('w, 64 word) cell"

text \<open>\<open>parse_uri\<close> is \<^verbatim>\<open>str::parse::<Uri>()\<close>.\<close>

definition parse_backend :: "(string \<Rightarrow> uri option) \<Rightarrow> string \<Rightarrow> backend result" where
  "parse_backend parse_uri url =
     and_then (ok_or (Box_Error ''invalid upstream URL'') (parse_uri url)) (\<lambda>u.
     and_then (ok_or (Box_Error ''upstream URL must contain a host'') (uri_authority u)) (\<lambda>a.
       Inr \<lparr>be_authority = a, be_scheme = (case uri_scheme u of None \<Rightarrow> ''http'' | Some s \<Rightarrow> s)\<rparr>))"

text \<open>\<open>counter\<close> is the fresh counter, which starts at zero.\<close>

definition upstream_new ::
  "(string \<Rightarrow> uri option) \<Rightarrow> ('w, 64 word) cell \<Rightarrow> string list \<Rightarrow> 'w upstream result"
where
  "upstream_new parse_uri counter urls =
     and_then (collect_results (parse_backend parse_uri) urls) (\<lambda>backends.
       if backends = [] then Inl (Box_Error ''at least one upstream URL is required'')
       else Inr \<lparr>up_backends = backends, up_strategy = RoundRobin, up_counter = counter\<rparr>)"

definition upstream_strategy :: "load_balance_strategy \<Rightarrow> 'w upstream \<Rightarrow> 'w upstream" where
  "upstream_strategy strategy u = u\<lparr>up_strategy := strategy\<rparr>"

definition index_backend :: "backend list \<Rightarrow> nat \<Rightarrow> backend result" where
  "index_backend bs i =
     (if i < length bs then Inr (bs ! i) else Inl (Panicked ''index out of bounds''))"

text \<open>\<open>rand_index n\<close> is \<^verbatim>\<open>rand::random_range(0..n)\<close>, which panics on an empty range.  \<open>fetch_add\<close> wraps
  around.\<close>

definition upstream_pick :: "(nat \<Rightarrow> 'w \<Rightarrow> nat \<times> 'w) \<Rightarrow> 'w upstream \<Rightarrow> 'w \<Rightarrow> backend result \<times> 'w" where
  "upstream_pick rand_index u w =
     (let n = length (up_backends u)
      in if n = 1 then (index_backend (up_backends u) 0, w)
         else (case up_strategy u of
                 RoundRobin \<Rightarrow>
                   (let old = cell_get (up_counter u) w; w1 = cell_put (up_counter u) (old + 1) w
                    in if n = 0 then (Inl (Panicked ''attempt to calculate the remainder with a divisor of zero''), w1)
                       else (index_backend (up_backends u) (unat old mod n), w1))
               | Random \<Rightarrow>
                   if n = 0 then (Inl (Panicked ''cannot sample empty range''), w)
                   else (case rand_index n w of (i, w1) \<Rightarrow> (index_backend (up_backends u) i, w1))))"

definition to_target :: "(nat \<Rightarrow> 'w \<Rightarrow> nat \<times> 'w) \<Rightarrow> 'w upstream \<Rightarrow> 'w \<Rightarrow> upstream_target result \<times> 'w" where
  "to_target rand_index u w =
     (case upstream_pick rand_index u w of
        (Inl e, w1) \<Rightarrow> (Inl e, w1)
      | (Inr b, w1) \<Rightarrow> (Inr \<lparr>target_authority = be_authority b, target_scheme = be_scheme b\<rparr>, w1))"

section \<open>Router\<close>

record 'w router =
  router_routes :: "((request \<Rightarrow> bool) \<times> 'w upstream) list"
  router_default :: "'w upstream option"

definition router_new :: "'w router" where
  "router_new = \<lparr>router_routes = [], router_default = None\<rparr>"

definition router_route :: "(request \<Rightarrow> bool) \<Rightarrow> 'w upstream \<Rightarrow> 'w router \<Rightarrow> 'w router" where
  "router_route p u r = r\<lparr>router_routes := router_routes r @ [(p, u)]\<rparr>"

definition router_default_upstream :: "'w upstream \<Rightarrow> 'w router \<Rightarrow> 'w router" where
  "router_default_upstream u r = r\<lparr>router_default := Some u\<rparr>"

definition router_target :: "'w router \<Rightarrow> request \<Rightarrow> 'w upstream option" where
  "router_target r req =
     (case List.find (\<lambda>(p, _). p req) (router_routes r) of
        Some (_, u) \<Rightarrow> Some u
      | None \<Rightarrow> router_default r)"

text \<open>A panic of \<open>pick\<close> unwinds out of \<open>call\<close>; it is the result of the future here.\<close>

definition router_call :: "(nat \<Rightarrow> 'w \<Rightarrow> nat \<times> 'w) \<Rightarrow> 'w router \<Rightarrow> 'w layer" where
  "router_call rand_index r inner req w =
     (case router_target r req of
        Some u \<Rightarrow>
          (case to_target rand_index u w of
             (Inl e, w1) \<Rightarrow> (ready (Inl e), w1)
           | (Inr t, w1) \<Rightarrow> inner (req\<lparr>req_target := Some t\<rparr>) w1)
      | None \<Rightarrow>
          (ready (Inr (response_with 502 (full_body ''no upstream configured for this request''))), w))"

section \<open>Picks\<close>

text \<open>A sequence of picks.\<close>

fun picks :: "(nat \<Rightarrow> 'w \<Rightarrow> nat \<times> 'w) \<Rightarrow> 'w upstream \<Rightarrow> nat \<Rightarrow> 'w \<Rightarrow> backend result list \<times> 'w" where
  "picks rand_index u 0 w = ([], w)"
| "picks rand_index u (Suc k) w =
     (case upstream_pick rand_index u w of (b, w1) \<Rightarrow>
      case picks rand_index u k w1 of (bs, w2) \<Rightarrow> (b # bs, w2))"

lemma upstream_new_backends:
  "upstream_new parse_uri counter urls = Inr u \<Longrightarrow>
     length (up_backends u) = length urls \<and> up_backends u \<noteq> []"
  by (auto simp: upstream_new_def and_then_Inr_iff collect_results_Inr dest: list_all2_lengthD
      split: if_splits)

lemma unat_add_1_mod: "unat (c + 1) = (unat c + 1) mod 2 ^ 64" for c :: "64 word"
  by (simp add: unat_word_ariths)

lemma picks_round_robin:
  assumes "\<And>s w. cell_get (up_counter u) (cell_put (up_counter u) s w) = s"
    and "up_strategy u = RoundRobin" "length (up_backends u) = n" "2 \<le> n"
    and "unat (cell_get (up_counter u) w) + k < 2 ^ 64"
  shows "fst (picks rand_index u k w) =
    map (\<lambda>i. Inr (up_backends u ! ((unat (cell_get (up_counter u) w) + i) mod n))) [0..<k]"
  using assms(5)
proof (induction k arbitrary: w)
  case (Suc k)
  define c where "c = cell_get (up_counter u) w"
  define w1 where "w1 = cell_put (up_counter u) (c + 1) w"
  have pick: "upstream_pick rand_index u w = (Inr (up_backends u ! (unat c mod n)), w1)"
    using assms(2-4) by (simp add: upstream_pick_def index_backend_def c_def w1_def Let_def)
  have c1: "unat (cell_get (up_counter u) w1) = unat c + 1"
    using Suc.prems assms(1) by (simp add: w1_def unat_add_1_mod c_def)
  have "fst (picks rand_index u k w1) =
      map (\<lambda>i. Inr (up_backends u ! ((unat c + 1 + i) mod n))) [0..<k]"
    using Suc.IH [of w1] Suc.prems c1 by (simp add: c_def)
  then show ?case
    using pick unfolding c_def [symmetric]
    by (simp add: case_prod_unfold upt_conv_Cons map_Suc_upt [symmetric] comp_def del: upt_Suc)
qed simp

lemma mset_mod_cycle: "0 < n \<Longrightarrow> mset (map (\<lambda>i. (c + i) mod n) [0..<n]) = mset [0..<n]" for c n :: nat
proof -
  assume n: "0 < n"
  have le: "i = j" if "(c + i) mod n = (c + j) mod n" "i \<le> j" "j < n" for i j
  proof -
    have "n dvd (c + j) - (c + i)" using that mod_eq_dvd_iff_nat [of "c + i" "c + j" n] by simp
    then have "n dvd j - i" by simp
    then show "i = j" using that dvd_imp_le [of n "j - i"] by fastforce
  qed
  have inj: "inj_on (\<lambda>i. (c + i) mod n) {0..<n}"
    using le by (intro inj_onI) (metis atLeastLessThan_iff nat_le_linear)
  have "distinct (map (\<lambda>i. (c + i) mod n) [0..<n])" using inj by (simp add: distinct_map)
  moreover have "set (map (\<lambda>i. (c + i) mod n) [0..<n]) = set [0..<n]"
    using inj n by (intro card_subset_eq) (auto simp: card_image)
  ultimately show ?thesis by (intro iffD1 [OF set_eq_iff_mset_eq_distinct]) auto
qed

section \<open>Properties\<close>

text \<open>C29. Round robin is fair: whatever the counter shows, as long as it does not wrap around, one
  cycle of picks serves every backend exactly once, in rotation, and no pick panics.\<close>

theorem round_robin_cycle:
  assumes "\<And>s w. cell_get (up_counter u) (cell_put (up_counter u) s w) = s"
    and "up_strategy u = RoundRobin" "2 \<le> length (up_backends u)"
    and "unat (cell_get (up_counter u) w) + length (up_backends u) < 2 ^ 64"
  shows "mset (fst (picks rand_index u (length (up_backends u)) w)) = image_mset Inr (mset (up_backends u))"
proof -
  define n where "n = length (up_backends u)"
  define c where "c = unat (cell_get (up_counter u) w)"
  have "fst (picks rand_index u n w) = map (\<lambda>i. Inr (up_backends u ! ((c + i) mod n))) [0..<n]"
    using picks_round_robin [OF assms(1,2), of n w n] assms(3,4) by (simp add: n_def c_def)
  also have "\<dots> = map Inr (map (\<lambda>i. up_backends u ! i) (map (\<lambda>i. (c + i) mod n) [0..<n]))"
    by (simp add: comp_def)
  finally have "mset (fst (picks rand_index u n w)) =
      image_mset Inr (image_mset (\<lambda>i. up_backends u ! i) (mset (map (\<lambda>i. (c + i) mod n) [0..<n])))"
    by (simp only: mset_map)
  also have "mset (map (\<lambda>i. (c + i) mod n) [0..<n]) = mset [0..<n]"
    using assms(3) by (intro mset_mod_cycle) (auto simp: n_def)
  also have "image_mset (\<lambda>i. up_backends u ! i) (mset [0..<n]) = mset (up_backends u)"
    unfolding n_def mset_map [symmetric] map_nth ..
  finally show ?thesis unfolding n_def .
qed

definition router_example_upstream :: "64 word upstream" where
  "router_example_upstream =
     \<lparr>up_backends = map (\<lambda>h. \<lparr>be_authority = \<lparr>auth_text = h, auth_host = h, auth_port = None\<rparr>, be_scheme = ''http''\<rparr>) [''a'', ''b'', ''c''],
      up_strategy = RoundRobin, up_counter = \<lparr>cell_get = (\<lambda>w. w), cell_put = (\<lambda>s w. s)\<rparr>\<rparr>"

theorem round_robin_cycle_witness:
  "mset (fst (picks (\<lambda>n w. (0, w)) router_example_upstream 3 7)) =
     image_mset Inr (mset (up_backends router_example_upstream))"
proof -
  have len: "length (up_backends router_example_upstream) = 3"
    and strategy: "up_strategy router_example_upstream = RoundRobin"
    and cell: "cell_get (up_counter router_example_upstream) (cell_put (up_counter router_example_upstream) s w) = s"
    and start: "unat (cell_get (up_counter router_example_upstream) 7) = 7" for s w
    by (simp_all add: router_example_upstream_def)
  show ?thesis using round_robin_cycle [OF cell strategy, of 7 "\<lambda>n w. (0, w)"] len start by simp
qed

text \<open>C28. The first matching route wins.  If \<open>p\<close> matches the request and no earlier route does, the
  inner service is called once, with the request unchanged but for a target that is one of the
  backends of that route; a request that matches no route and has no default is answered with 502 and
  the inner service is not called.\<close>

theorem router_first_match:
  assumes "\<And>n w. 0 < n \<Longrightarrow> fst (rand_index n w) < n" "up_backends u \<noteq> []"
    and "router_routes r = pre @ (p, u) # post" "p req" "\<forall>(q, _) \<in> set pre. \<not> q req"
    and "\<forall>(q, _) \<in> set (router_routes s). \<not> q req" "router_default s = None"
  shows "(\<exists>b \<in> set (up_backends u). \<exists>w1. router_call rand_index r inner req w =
      inner (req\<lparr>req_target := Some \<lparr>target_authority = be_authority b, target_scheme = be_scheme b\<rparr>\<rparr>) w1)
    \<and> router_call rand_index s inner req w =
      (ready (Inr (response_with 502 (full_body ''no upstream configured for this request''))), w)"
proof -
  have "List.find (\<lambda>(p, _). p req) (pre @ (p, u) # post) = Some (p, u)"
    using assms(4,5) by (induction pre) auto
  then have target: "router_target r req = Some u" using assms(3) by (simp add: router_target_def)
  obtain b w1 where b: "upstream_pick rand_index u w = (Inr b, w1)" "b \<in> set (up_backends u)"
  proof -
    have "\<exists>i w1. upstream_pick rand_index u w = (index_backend (up_backends u) i, w1) \<and> i < length (up_backends u)"
      using assms(1) [of "length (up_backends u)" w] assms(2)
      by (auto simp: upstream_pick_def Let_def split: load_balance_strategy.split prod.splits)
    then show ?thesis using that by (auto simp: index_backend_def)
  qed
  have "List.find (\<lambda>(p, _). p req) (router_routes s) = None"
    using assms(6) by (auto simp: find_None_iff)
  then have "router_target s req = None" using assms(7) by (simp add: router_target_def)
  then show ?thesis using target b by (auto simp: router_call_def to_target_def)
qed

theorem router_first_match_witness:
  "\<exists>b \<in> set (up_backends router_example_upstream). \<exists>w1.
     router_call (\<lambda>n w. (0, w)) (router_route (\<lambda>r. True) router_example_upstream router_new)
       (\<lambda>req w. (ready (Inr (response_with 200 empty_body)), w))
       \<lparr>req_method = ''GET'', req_uri = \<lparr>uri_scheme = None, uri_authority = None, uri_path_and_query = None\<rparr>,
        req_version = HTTP_11, req_headers = [], req_target = None, req_body = empty_body\<rparr> 7
     = (ready (Inr (response_with 200 empty_body)), w1)"
  using router_first_match [where rand_index = "\<lambda>n w. (0, w)" and u = router_example_upstream and
      r = "router_route (\<lambda>r. True) router_example_upstream router_new" and pre = "[]" and post = "[]" and
      p = "\<lambda>r. True" and s = router_new and inner = "\<lambda>req w. (ready (Inr (response_with 200 empty_body)), w)"
      and w = 7]
  by (auto simp: router_route_def router_new_def router_example_upstream_def)

end
