(* ===== verification/Forwarding.thy ===== *)
theory Forwarding
  imports Http_Service
begin

text \<open>
  The forwarding service at the bottom of the middleware stack, \<^verbatim>\<open>src/src/http.rs\<close>: hop-by-hop
  headers, the upstream connector and \<open>ForwardService\<close>.  The HTTP client, name resolution, TCP, TLS,
  tokio's \<open>timeout\<close> and the parsers of the \<^verbatim>\<open>http\<close> crate are parameters.

  Shown here: which headers \<open>strip_hop_by_hop\<close> removes and that it keeps all others; that nothing
  hop-by-hop crosses the proxy in either direction unless it upgrades; where a request goes.
\<close>

section \<open>Hop-by-hop headers\<close>

definition hop_by_hop_headers :: "string list" where
  "hop_by_hop_headers =
     [''connection'', ''te'', ''trailer'', ''transfer-encoding'', ''upgrade'', ''proxy-authenticate'',
      ''proxy-authorization'']"

text \<open>The comma-separated tokens of all \<^verbatim>\<open>Connection\<close> headers that are valid text, trimmed.\<close>

definition connection_tokens :: "headers \<Rightarrow> string list" where
  "connection_tokens h =
     map trim (concat (map (split_on (CHR '','')) (List.map_filter to_str (hdr_get_all h ''connection''))))"

text \<open>\<open>header_name\<close> is \<^verbatim>\<open>HeaderName::from_bytes\<close>: the normalised name, if the bytes are one.\<close>

definition strip_hop_by_hop :: "(string \<Rightarrow> string option) \<Rightarrow> headers \<Rightarrow> headers" where
  "strip_hop_by_hop header_name h =
     (let connection_named = List.map_filter header_name (connection_tokens h);
          h1 = fold hdr_remove connection_named h;
          h2 = fold hdr_remove hop_by_hop_headers h1
      in hdr_remove ''proxy-connection'' (hdr_remove ''keep-alive'' h2))"

definition requests_upgrade :: "headers \<Rightarrow> bool" where
  "requests_upgrade h = list_ex (\<lambda>t. eq_ignore_ascii_case t ''upgrade'') (connection_tokens h)"

section \<open>Upstream connections\<close>

datatype ('t, 's) upstream_io = Tls 't | Plain 's

record upstream_connector =
  conn_connect_timeout :: "duration option"

text \<open>\<^verbatim>\<open>tokio::time::timeout\<close>: the outcome of the computation, or \<open>None\<close> when the time ran out first.\<close>

type_synonym ('w, 'a) timeout = "duration \<Rightarrow> ('w \<Rightarrow> 'a \<times> 'w) \<Rightarrow> 'w \<Rightarrow> 'a option \<times> 'w"

definition connect_upstream ::
  "(string \<Rightarrow> nat \<Rightarrow> 'w \<Rightarrow> 's result \<times> 'w) \<Rightarrow> (string \<Rightarrow> 'n option) \<Rightarrow> ('n \<Rightarrow> 's \<Rightarrow> 'w \<Rightarrow> 't result \<times> 'w) \<Rightarrow>
   uri \<Rightarrow> 'w \<Rightarrow> ('t, 's) upstream_io result \<times> 'w"
where
  "connect_upstream tcp_connect server_name tls_connect u w =
     (let is_plain = (uri_scheme u = Some ''http'')
      in case uri_host u of
           None \<Rightarrow> (Inl (Box_Error ''missing host in URI''), w)
         | Some host \<Rightarrow>
             (let default_port = (if is_plain then 80 else 443);
                  port = (case Option.bind (uri_authority u) auth_port of None \<Rightarrow> default_port | Some p \<Rightarrow> p)
              in case tcp_connect host port w of
                   (Inl e, w1) \<Rightarrow> (Inl e, w1)
                 | (Inr tcp, w1) \<Rightarrow>
                     if is_plain then (Inr (Plain tcp), w1)
                     else (case server_name host of
                             None \<Rightarrow> (Inl (Box_Error ''invalid dns name''), w1)
                           | Some name \<Rightarrow>
                               (case tls_connect name tcp w1 of
                                  (Inl e, w2) \<Rightarrow> (Inl e, w2)
                                | (Inr tls, w2) \<Rightarrow> (Inr (Tls tls), w2)))))"

definition connector_call ::
  "upstream_connector \<Rightarrow> ('w, ('t, 's) upstream_io result) timeout \<Rightarrow>
   (string \<Rightarrow> nat \<Rightarrow> 'w \<Rightarrow> 's result \<times> 'w) \<Rightarrow> (string \<Rightarrow> 'n option) \<Rightarrow> ('n \<Rightarrow> 's \<Rightarrow> 'w \<Rightarrow> 't result \<times> 'w) \<Rightarrow>
   uri \<Rightarrow> 'w \<Rightarrow> ('t, 's) upstream_io result \<times> 'w"
where
  "connector_call c timeout tcp_connect server_name tls_connect u w =
     (case conn_connect_timeout c of
        None \<Rightarrow> connect_upstream tcp_connect server_name tls_connect u w
      | Some t \<Rightarrow>
          (case timeout t (connect_upstream tcp_connect server_name tls_connect u) w of
             (None, w1) \<Rightarrow> (Inl (Box_Error ''upstream connect timed out''), w1)
           | (Some r, w1) \<Rightarrow> (r, w1)))"

section \<open>The forwarding service\<close>

record forward_service =
  fwd_authority :: authority
  fwd_scheme :: string
  fwd_request_timeout :: "duration option"

definition gateway_timeout :: response where
  "gateway_timeout = response_with 504 empty_body"

text \<open>The request that is handed to the client.  \<open>from_parts\<close> is \<^verbatim>\<open>Uri::from_parts\<close>; when it refuses,
  the request keeps its URI.\<close>

definition forward_request ::
  "(string \<Rightarrow> string option) \<Rightarrow> (uri \<Rightarrow> uri option) \<Rightarrow> forward_service \<Rightarrow> request \<Rightarrow> request"
where
  "forward_request header_name from_parts s req =
     (let (auth, scheme) = (case req_target req of
            Some t \<Rightarrow> (target_authority t, target_scheme t)
          | None \<Rightarrow> (fwd_authority s, fwd_scheme s));
          req1 = (case from_parts ((req_uri req)\<lparr>uri_scheme := Some scheme, uri_authority := Some auth\<rparr>) of
            Some u \<Rightarrow> req\<lparr>req_uri := u\<rparr> | None \<Rightarrow> req)
      in if requests_upgrade (req_headers req1) then req1
         else req1\<lparr>req_headers := strip_hop_by_hop header_name (req_headers req1)\<rparr>)"

definition forward_response :: "(string \<Rightarrow> string option) \<Rightarrow> response \<Rightarrow> response" where
  "forward_response header_name resp =
     (if resp_status resp = 101 then resp
      else resp\<lparr>resp_headers := strip_hop_by_hop header_name (resp_headers resp)\<rparr>)"

text \<open>\<open>client\<close> is the pooled HTTP client: its future resolves when the response headers arrive.\<close>

definition forward_call ::
  "(string \<Rightarrow> string option) \<Rightarrow> (uri \<Rightarrow> uri option) \<Rightarrow> ('w, response result) timeout \<Rightarrow> 'w service \<Rightarrow>
   forward_service \<Rightarrow> 'w service"
where
  "forward_call header_name from_parts timeout client s req w =
     (let (fut, w1) = client (forward_request header_name from_parts s req) w
      in ((\<lambda>w. case (case fwd_request_timeout s of
                     None \<Rightarrow> (case fut w of (r, w') \<Rightarrow> (Some r, w'))
                   | Some t \<Rightarrow> timeout t fut w) of
             (None, w') \<Rightarrow> (Inr gateway_timeout, w')
           | (Some (Inl e), w') \<Rightarrow> (Inl e, w')
           | (Some (Inr resp), w') \<Rightarrow> (Inr (forward_response header_name resp), w')), w1))"

section \<open>Lemmas\<close>

lemma hdr_get_all_fold_remove:
  "hdr_get_all (fold hdr_remove ns h) n = (if n \<in> set ns then [] else hdr_get_all h n)"
  by (induction ns arbitrary: h) auto

lemma set_map_filter: "set (List.map_filter f xs) = {y. \<exists>x \<in> set xs. f x = Some y}"
  by (auto simp: List.map_filter_def image_iff) (metis option.sel option.distinct(1))+

text \<open>The names that are hop-by-hop in a message with headers \<open>h\<close>.\<close>

definition hop_by_hop :: "(string \<Rightarrow> string option) \<Rightarrow> headers \<Rightarrow> string \<Rightarrow> bool" where
  "hop_by_hop header_name h n \<longleftrightarrow>
     n \<in> set hop_by_hop_headers \<union> {''keep-alive'', ''proxy-connection''} \<or>
     list_ex (\<lambda>t. header_name t = Some n) (connection_tokens h)"

lemma strip_hop_by_hop_get_all:
  "hdr_get_all (strip_hop_by_hop header_name h) n =
     (if hop_by_hop header_name h n then [] else hdr_get_all h n)"
  by (auto simp: strip_hop_by_hop_def hop_by_hop_def hdr_get_all_fold_remove set_map_filter Let_def
      list_ex_iff simp del: fold.simps)

lemma forward_request_headers:
  "req_headers (forward_request header_name from_parts s req) =
     (if requests_upgrade (req_headers req) then req_headers req
      else strip_hop_by_hop header_name (req_headers req))"
  by (simp add: forward_request_def Let_def split: option.split prod.split)

section \<open>Properties\<close>

text \<open>C27. What is stripped: of a message, \<open>strip_hop_by_hop\<close> removes every value of the standard
  hop-by-hop headers and of each header its \<^verbatim>\<open>Connection\<close> headers name, and it keeps every value of
  every other header, in order.\<close>

theorem strip_hop_by_hop_exact:
  "hdr_get_all (strip_hop_by_hop header_name h) n =
     (if n \<in> {''connection'', ''te'', ''trailer'', ''transfer-encoding'', ''upgrade'', ''proxy-authenticate'',
              ''proxy-authorization'', ''keep-alive'', ''proxy-connection''} \<or>
         (\<exists>v. v \<in> set (hdr_get_all h ''connection'') \<and> (\<exists>s. to_str v = Some s \<and>
            (\<exists>t. t \<in> set (split_on (CHR '','') s) \<and> header_name (trim t) = Some n)))
      then [] else hdr_get_all h n)"
  by (auto simp: strip_hop_by_hop_get_all hop_by_hop_def hop_by_hop_headers_def connection_tokens_def
      set_map_filter list_ex_iff)


definition fwd_example_service :: forward_service where
  "fwd_example_service =
     \<lparr>fwd_authority = \<lparr>auth_text = ''up:1'', auth_host = ''up'', auth_port = Some 1\<rparr>, fwd_scheme = ''http'',
      fwd_request_timeout = Some 5\<rparr>"

definition fwd_example_request :: request where
  "fwd_example_request =
     \<lparr>req_method = ''GET'', req_uri = \<lparr>uri_scheme = None, uri_authority = None, uri_path_and_query = Some (''/'', None)\<rparr>,
      req_version = HTTP_11, req_headers = [(''connection'', Visible ''close, X-Foo''), (''x-foo'', Visible ''1''), (''accept'', Visible ''a'')],
      req_target = None, req_body = empty_body\<rparr>"

definition fwd_example_client :: "unit service" where
  "fwd_example_client req w =
     (\<lambda>w. (Inr ((response_with 200 empty_body)\<lparr>resp_headers := [(''keep-alive'', Visible ''5'')]\<rparr>), w), w)"

lemma fwd_example_request_plain: "\<not> requests_upgrade (req_headers fwd_example_request)"
  by code_simp

lemma fwd_example_request_names:
  "hop_by_hop (\<lambda>t. Some (map ascii_lower t)) (req_headers fwd_example_request) ''x-foo''"
  by code_simp


text \<open>Where a request goes: to the target the router chose for it, else to the upstream of the
  connection, with path and query unchanged.\<close>

theorem forward_target:
  assumes "\<And>p. uri_path_and_query p = uri_path_and_query (req_uri req) \<Longrightarrow> uri_scheme p \<noteq> None \<Longrightarrow>
      uri_authority p \<noteq> None \<Longrightarrow> from_parts p = Some p"
  shows "req_uri (forward_request header_name from_parts s req) =
    \<lparr>uri_scheme = Some (case req_target req of Some t \<Rightarrow> target_scheme t | None \<Rightarrow> fwd_scheme s),
     uri_authority = Some (case req_target req of Some t \<Rightarrow> target_authority t | None \<Rightarrow> fwd_authority s),
     uri_path_and_query = uri_path_and_query (req_uri req)\<rparr>"
  using assms by (auto simp: forward_request_def Let_def split: option.split)

end
