(* ===== verification/Header_Ops.thy ===== *)
theory Header_Ops
  imports Http_Service
begin

text \<open>
  The header middleware, \<^verbatim>\<open>src/src/middleware/modify_headers.rs\<close>: its operations, the builder, and
  the service that applies the request operations before and the response operations after the inner
  call.  \<open>header_name\<close> and \<open>header_value\<close> are \<^verbatim>\<open>HeaderName::from_bytes\<close> and \<^verbatim>\<open>HeaderValue::from_str\<close> of the
  \<^verbatim>\<open>http\<close> crate.

  Shown here: what a sequence of operations does to each header, from the operations that name it
  alone, and that the service changes nothing but the headers of the two messages.
\<close>

section \<open>Operations\<close>

datatype header_op =
    Op_Set string header_value
  | Op_Append string header_value
  | Op_Remove string

datatype phase = Phase_Request | Phase_Response

record modify_headers =
  mh_ops :: "(phase \<times> header_op) list"

definition mh_new :: modify_headers where
  "mh_new = \<lparr>mh_ops = []\<rparr>"

definition mh_push :: "phase \<Rightarrow> header_op \<Rightarrow> modify_headers \<Rightarrow> modify_headers" where
  "mh_push p op m = m\<lparr>mh_ops := mh_ops m @ [(p, op)]\<rparr>"

definition parse_name :: "(string \<Rightarrow> string option) \<Rightarrow> string \<Rightarrow> string result" where
  "parse_name header_name n = ok_or (Panicked ''invalid header name'') (header_name n)"

definition parse_value :: "(string \<Rightarrow> header_value option) \<Rightarrow> string \<Rightarrow> header_value result" where
  "parse_value header_value v = ok_or (Panicked ''invalid header value'') (header_value v)"

definition mh_set_request ::
  "(string \<Rightarrow> string option) \<Rightarrow> (string \<Rightarrow> header_value option) \<Rightarrow> string \<Rightarrow> string \<Rightarrow>
   modify_headers \<Rightarrow> modify_headers result"
where
  "mh_set_request header_name header_value n v m =
     and_then (parse_name header_name n) (\<lambda>k. and_then (parse_value header_value v) (\<lambda>x.
       Inr (mh_push Phase_Request (Op_Set k x) m)))"

definition mh_append_request ::
  "(string \<Rightarrow> string option) \<Rightarrow> (string \<Rightarrow> header_value option) \<Rightarrow> string \<Rightarrow> string \<Rightarrow>
   modify_headers \<Rightarrow> modify_headers result"
where
  "mh_append_request header_name header_value n v m =
     and_then (parse_name header_name n) (\<lambda>k. and_then (parse_value header_value v) (\<lambda>x.
       Inr (mh_push Phase_Request (Op_Append k x) m)))"

definition mh_remove_request ::
  "(string \<Rightarrow> string option) \<Rightarrow> string \<Rightarrow> modify_headers \<Rightarrow> modify_headers result"
where
  "mh_remove_request header_name n m =
     and_then (parse_name header_name n) (\<lambda>k. Inr (mh_push Phase_Request (Op_Remove k) m))"

definition mh_set_response ::
  "(string \<Rightarrow> string option) \<Rightarrow> (string \<Rightarrow> header_value option) \<Rightarrow> string \<Rightarrow> string \<Rightarrow>
   modify_headers \<Rightarrow> modify_headers result"
where
  "mh_set_response header_name header_value n v m =
     and_then (parse_name header_name n) (\<lambda>k. and_then (parse_value header_value v) (\<lambda>x.
       Inr (mh_push Phase_Response (Op_Set k x) m)))"

definition mh_append_response ::
  "(string \<Rightarrow> string option) \<Rightarrow> (string \<Rightarrow> header_value option) \<Rightarrow> string \<Rightarrow> string \<Rightarrow>
   modify_headers \<Rightarrow> modify_headers result"
where
  "mh_append_response header_name header_value n v m =
     and_then (parse_name header_name n) (\<lambda>k. and_then (parse_value header_value v) (\<lambda>x.
       Inr (mh_push Phase_Response (Op_Append k x) m)))"

definition mh_remove_response ::
  "(string \<Rightarrow> string option) \<Rightarrow> string \<Rightarrow> modify_headers \<Rightarrow> modify_headers result"
where
  "mh_remove_response header_name n m =
     and_then (parse_name header_name n) (\<lambda>k. Inr (mh_push Phase_Response (Op_Remove k) m))"

section \<open>Service\<close>

fun apply_op :: "header_op \<Rightarrow> headers \<Rightarrow> headers" where
  "apply_op (Op_Set n v) h = hdr_insert n v h"
| "apply_op (Op_Append n v) h = hdr_append n v h"
| "apply_op (Op_Remove n) h = hdr_remove n h"

definition apply_ops :: "header_op list \<Rightarrow> headers \<Rightarrow> headers" where
  "apply_ops ops h = fold apply_op ops h"

fun mh_split :: "(phase \<times> header_op) list \<Rightarrow> header_op list \<times> header_op list" where
  "mh_split [] = ([], [])"
| "mh_split ((Phase_Request, op) # ops) = (case mh_split ops of (rq, rs) \<Rightarrow> (op # rq, rs))"
| "mh_split ((Phase_Response, op) # ops) = (case mh_split ops of (rq, rs) \<Rightarrow> (rq, op # rs))"

definition mh_call :: "header_op list \<Rightarrow> header_op list \<Rightarrow> 'w layer" where
  "mh_call request_ops response_ops inner req w =
     (let (fut, w1) = inner (req\<lparr>req_headers := apply_ops request_ops (req_headers req)\<rparr>) w
      in (await_ok fut (\<lambda>resp. ready (Inr (resp\<lparr>resp_headers := apply_ops response_ops (resp_headers resp)\<rparr>))), w1))"

definition mh_layer :: "modify_headers \<Rightarrow> 'w layer" where
  "mh_layer m inner = (case mh_split (mh_ops m) of (rq, rs) \<Rightarrow> mh_call rq rs inner)"

section \<open>What a sequence of operations does\<close>

fun op_name :: "header_op \<Rightarrow> string" where
  "op_name (Op_Set n _) = n"
| "op_name (Op_Append n _) = n"
| "op_name (Op_Remove n) = n"

text \<open>The values of one header after one operation on it.\<close>

fun op_values :: "header_op \<Rightarrow> header_value list \<Rightarrow> header_value list" where
  "op_values (Op_Set _ v) vs = [v]"
| "op_values (Op_Append _ v) vs = vs @ [v]"
| "op_values (Op_Remove _) vs = []"

definition phase_ops :: "phase \<Rightarrow> string \<Rightarrow> modify_headers \<Rightarrow> header_op list" where
  "phase_ops p n m = map snd (filter (\<lambda>(q, op). q = p \<and> op_name op = n) (mh_ops m))"

lemma mh_split_filter:
  "mh_split ops = (map snd (filter (\<lambda>(p, _). p = Phase_Request) ops),
                   map snd (filter (\<lambda>(p, _). p = Phase_Response) ops))"
  by (induction ops rule: mh_split.induct) simp_all

lemma apply_op_get_all:
  "hdr_get_all (apply_op op h) n =
     (if op_name op = n then op_values op (hdr_get_all h n) else hdr_get_all h n)"
  by (cases op) auto

lemma apply_ops_get_all:
  "hdr_get_all (apply_ops ops h) n =
     fold op_values (filter (\<lambda>op. op_name op = n) ops) (hdr_get_all h n)"
  unfolding apply_ops_def by (induction ops arbitrary: h) (simp_all add: apply_op_get_all)

lemma phase_ops_split:
  "filter (\<lambda>op. op_name op = n) (map snd (filter (\<lambda>(q, _). q = p) ops)) =
     map snd (filter (\<lambda>(q, op). q = p \<and> op_name op = n) ops)"
  by (induction ops) auto

lemma mh_layer_phase:
  "hdr_get_all (apply_ops (fst (mh_split (mh_ops m))) h) n =
     fold op_values (phase_ops Phase_Request n m) (hdr_get_all h n)"
  "hdr_get_all (apply_ops (snd (mh_split (mh_ops m))) h) n =
     fold op_values (phase_ops Phase_Response n m) (hdr_get_all h n)"
  by (simp_all add: mh_split_filter apply_ops_get_all phase_ops_def phase_ops_split)

section \<open>Properties\<close>

text \<open>C24. The middleware calls the inner service with the client's request changed in its headers
  only, where each header holds what the request operations that name it, in the order they were
  added, make of the client's values.  It answers with the inner response changed in its headers only,
  in the same way by the response operations.  Operations on other headers or of the other phase have
  no effect, and an error of the inner service is passed on.\<close>

theorem mh_effect:
  "\<exists>rq rs. mh_layer m inner req w =
       (case inner (req\<lparr>req_headers := rq\<rparr>) w of (fut, w1) \<Rightarrow>
          (\<lambda>w2. case fut w2 of
                   (Inl e, w3) \<Rightarrow> (Inl e, w3)
                 | (Inr resp, w3) \<Rightarrow> (Inr (resp\<lparr>resp_headers := rs resp\<rparr>), w3), w1)) \<and>
     (\<forall>n. hdr_get_all rq n =
            fold op_values (phase_ops Phase_Request n m) (hdr_get_all (req_headers req) n)) \<and>
     (\<forall>resp n. hdr_get_all (rs resp) n =
            fold op_values (phase_ops Phase_Response n m) (hdr_get_all (resp_headers resp) n))"
proof -
  obtain rq rs where sp: "mh_split (mh_ops m) = (rq, rs)" by fastforce
  show ?thesis
    using mh_layer_phase [of m, unfolded sp] unfolding mh_layer_def sp prod.case mh_call_def await_ok_def ready_def
    by (intro exI [of _ "apply_ops rq (req_headers req)"] exI [of _ "\<lambda>resp. apply_ops rs (resp_headers resp)"])
       (simp add: case_prod_unfold Let_def)
qed

end
