(* ===== verification/Block_List.thy ===== *)
theory Block_List
  imports Http_Service
begin

text \<open>
  The block list, \<^verbatim>\<open>src/src/middleware/block_list.rs\<close>.  \<open>glob\<close> is the compilation of a pattern by the
  \<^verbatim>\<open>globset\<close> crate with \<open>literal_separator(true)\<close>: the matcher, or nothing for an invalid pattern.

  Shown here: adding patterns one at a time blocks the same requests as giving them at once, and a
  blocked request never reaches the inner service while every other request passes untouched.
\<close>

type_synonym glob_matcher = "string \<Rightarrow> bool"

record block_list =
  bl_is_blocked :: "request \<Rightarrow> bool"
  bl_respond :: "request \<Rightarrow> response"

definition bl_default_respond :: "request \<Rightarrow> response" where
  "bl_default_respond req = response_with 403 empty_body"

definition bl_always_false :: "request \<Rightarrow> bool" where
  "bl_always_false req = False"

definition compile_glob :: "(string \<Rightarrow> glob_matcher option) \<Rightarrow> string \<Rightarrow> glob_matcher result" where
  "compile_glob glob pattern = ok_or (Box_Error ''invalid glob'') (glob pattern)"

definition bl_extract_host :: "request \<Rightarrow> string option" where
  "bl_extract_host req =
     map_option (\<lambda>h. hd (split_on (CHR '':'') h))
       (case uri_host (req_uri req) of
          Some h \<Rightarrow> Some h
        | None \<Rightarrow> Option.bind (hdr_get (req_headers req) ''host'') to_str)"

definition bl_new :: block_list where
  "bl_new = \<lparr>bl_is_blocked = bl_always_false, bl_respond = bl_default_respond\<rparr>"

definition bl_matching :: "(request \<Rightarrow> bool) \<Rightarrow> block_list" where
  "bl_matching predicate = \<lparr>bl_is_blocked = predicate, bl_respond = bl_default_respond\<rparr>"

definition bl_hosts :: "(string \<Rightarrow> glob_matcher option) \<Rightarrow> string list \<Rightarrow> block_list result" where
  "bl_hosts glob patterns =
     and_then (collect_results (compile_glob glob) patterns) (\<lambda>matchers.
       Inr \<lparr>bl_is_blocked = (\<lambda>req. case bl_extract_host req of
                               None \<Rightarrow> False
                             | Some host \<Rightarrow> list_ex (\<lambda>m. m host) matchers),
            bl_respond = bl_default_respond\<rparr>)"

definition bl_paths :: "(string \<Rightarrow> glob_matcher option) \<Rightarrow> string list \<Rightarrow> block_list result" where
  "bl_paths glob patterns =
     and_then (collect_results (compile_glob glob) patterns) (\<lambda>matchers.
       Inr \<lparr>bl_is_blocked = (\<lambda>req. list_ex (\<lambda>m. m (uri_path (req_uri req))) matchers),
            bl_respond = bl_default_respond\<rparr>)"

definition bl_host :: "(string \<Rightarrow> glob_matcher option) \<Rightarrow> string \<Rightarrow> block_list \<Rightarrow> block_list result" where
  "bl_host glob pattern b =
     and_then (compile_glob glob pattern) (\<lambda>matcher.
       Inr \<lparr>bl_is_blocked = (\<lambda>req. if bl_is_blocked b req then True
                               else case bl_extract_host req of None \<Rightarrow> False | Some host \<Rightarrow> matcher host),
            bl_respond = bl_respond b\<rparr>)"

definition bl_path :: "(string \<Rightarrow> glob_matcher option) \<Rightarrow> string \<Rightarrow> block_list \<Rightarrow> block_list result" where
  "bl_path glob pattern b =
     and_then (compile_glob glob pattern) (\<lambda>matcher.
       Inr \<lparr>bl_is_blocked = (\<lambda>req. if bl_is_blocked b req then True else matcher (uri_path (req_uri req))),
            bl_respond = bl_respond b\<rparr>)"

definition bl_response :: "nat \<Rightarrow> string \<Rightarrow> block_list \<Rightarrow> block_list" where
  "bl_response status body b =
     \<lparr>bl_is_blocked = bl_is_blocked b, bl_respond = (\<lambda>_. response_with status (full_body body))\<rparr>"

definition bl_respond_with :: "(request \<Rightarrow> response) \<Rightarrow> block_list \<Rightarrow> block_list" where
  "bl_respond_with f b = \<lparr>bl_is_blocked = bl_is_blocked b, bl_respond = f\<rparr>"

definition bl_call :: "block_list \<Rightarrow> 'w layer" where
  "bl_call b inner req w =
     (if bl_is_blocked b req then (ready (Inr (bl_respond b req)), w) else inner req w)"

section \<open>Lemmas\<close>

text \<open>A loop over the patterns, as the configuration adds them.\<close>

fun bl_add_all ::
  "(string \<Rightarrow> block_list \<Rightarrow> block_list result) \<Rightarrow> string list \<Rightarrow> block_list \<Rightarrow> block_list result"
where
  "bl_add_all add [] b = Inr b"
| "bl_add_all add (p # ps) b = and_then (add p b) (bl_add_all add ps)"

text \<open>Some of the patterns is valid and matches.\<close>

definition some_match :: "(string \<Rightarrow> glob_matcher option) \<Rightarrow> string list \<Rightarrow> string option \<Rightarrow> bool" where
  "some_match glob ps target =
     (case target of None \<Rightarrow> False
      | Some t \<Rightarrow> list_ex (\<lambda>p. case glob p of None \<Rightarrow> False | Some m \<Rightarrow> m t) ps)"

lemma some_match_simps [simp]:
  "some_match glob [] target = False"
  "some_match glob (p # ps) target \<longleftrightarrow>
     (case target of None \<Rightarrow> False | Some t \<Rightarrow> (case glob p of None \<Rightarrow> False | Some m \<Rightarrow> m t)) \<or>
     some_match glob ps target"
  by (simp_all add: some_match_def split: option.splits)

lemma bl_add_hosts:
  "bl_add_all (bl_host glob) ps b =
     (if list_all (\<lambda>p. glob p \<noteq> None) ps
      then Inr \<lparr>bl_is_blocked = (\<lambda>req. bl_is_blocked b req \<or> some_match glob ps (bl_extract_host req)),
                bl_respond = bl_respond b\<rparr>
      else Inl (Box_Error ''invalid glob''))"
  by (induction ps arbitrary: b)
     (auto simp: bl_host_def compile_glob_def ok_or_def fun_eq_iff split: option.splits)

lemma bl_add_paths:
  "bl_add_all (bl_path glob) ps b =
     (if list_all (\<lambda>p. glob p \<noteq> None) ps
      then Inr \<lparr>bl_is_blocked = (\<lambda>req. bl_is_blocked b req \<or> some_match glob ps (Some (uri_path (req_uri req)))),
                bl_respond = bl_respond b\<rparr>
      else Inl (Box_Error ''invalid glob''))"
  by (induction ps arbitrary: b)
     (auto simp: bl_path_def compile_glob_def ok_or_def fun_eq_iff split: option.splits)

lemma compile_globs:
  "collect_results (compile_glob glob) ps =
     (if list_all (\<lambda>p. glob p \<noteq> None) ps then Inr (map (\<lambda>p. the (glob p)) ps)
      else Inl (Box_Error ''invalid glob''))"
  by (induction ps) (auto simp: compile_glob_def ok_or_def split: option.splits)

lemma list_ex_the:
  "list_all (\<lambda>p. glob p \<noteq> None) ps \<Longrightarrow>
     list_ex (\<lambda>m. m t) (map (\<lambda>p. the (glob p)) ps) = some_match glob ps (Some t)"
  by (induction ps) (auto split: option.splits)

lemma bl_hosts_alt: "bl_hosts glob ps = bl_add_all (bl_host glob) ps bl_new"
  by (auto simp: bl_hosts_def bl_add_hosts compile_globs bl_new_def bl_always_false_def list_ex_the fun_eq_iff
      some_match_def split: option.splits)

lemma bl_paths_alt: "bl_paths glob ps = bl_add_all (bl_path glob) ps bl_new"
  by (auto simp: bl_paths_def bl_add_paths compile_globs bl_new_def bl_always_false_def list_ex_the fun_eq_iff)

lemma bl_call_simps:
  "bl_is_blocked b req \<Longrightarrow> bl_call b inner req w = (ready (Inr (bl_respond b req)), w)"
  "\<not> bl_is_blocked b req \<Longrightarrow> bl_call b inner req w = inner req w"
  by (simp_all add: bl_call_def)

end
