(* ===== verification/Conditional.thy ===== *)
theory Conditional
  imports Block_List
begin

text \<open>
  Conditional middleware, \<^verbatim>\<open>src/src/middleware/conditional.rs\<close>: a list of rules, each a predicate and a
  layer, and the trait that puts one condition on any layer.  All rules and the fall-through share one
  inner service.  The mutex around it is transparent here: a service of the model reports a panic in
  its result, so poisoning by a panic inside the locked call is not represented.

  Shown here: the first rule whose predicate holds handles the request with its own layer around the
  shared inner service; a request that no rule matches reaches the inner service directly.
\<close>

record 'w conditional =
  cond_rules :: "((request \<Rightarrow> bool) \<times> 'w layer) list"

definition cond_new :: "'w conditional" where
  "cond_new = \<lparr>cond_rules = []\<rparr>"

definition cond_when :: "(request \<Rightarrow> bool) \<Rightarrow> 'w layer \<Rightarrow> 'w conditional \<Rightarrow> 'w conditional" where
  "cond_when p l c = c\<lparr>cond_rules := cond_rules c @ [(p, l)]\<rparr>"

definition method_predicate :: "string \<Rightarrow> request \<Rightarrow> bool" where
  "method_predicate m req = (req_method req = m)"

definition methods_predicate :: "string list \<Rightarrow> request \<Rightarrow> bool" where
  "methods_predicate ms req = List.member ms (req_method req)"

definition cond_when_path :: "string \<Rightarrow> 'w layer \<Rightarrow> 'w conditional \<Rightarrow> 'w conditional" where
  "cond_when_path path = cond_when (\<lambda>req. uri_path (req_uri req) = path)"

definition cond_when_path_glob ::
  "(string \<Rightarrow> glob_matcher option) \<Rightarrow> string \<Rightarrow> 'w layer \<Rightarrow> 'w conditional \<Rightarrow> 'w conditional result"
where
  "cond_when_path_glob glob pattern l c =
     and_then (compile_glob glob pattern) (\<lambda>matcher.
       Inr (cond_when (\<lambda>req. matcher (uri_path (req_uri req))) l c))"

definition cond_when_method :: "string \<Rightarrow> 'w layer \<Rightarrow> 'w conditional \<Rightarrow> 'w conditional" where
  "cond_when_method m = cond_when (method_predicate m)"

definition cond_when_methods :: "string list \<Rightarrow> 'w layer \<Rightarrow> 'w conditional \<Rightarrow> 'w conditional" where
  "cond_when_methods ms = cond_when (methods_predicate ms)"

text \<open>The trait \<^verbatim>\<open>ConditionalLayer\<close>, implemented by every layer.\<close>

definition layer_when :: "(request \<Rightarrow> bool) \<Rightarrow> 'w layer \<Rightarrow> 'w conditional" where
  "layer_when p l = cond_when p l cond_new"

definition layer_when_path :: "string \<Rightarrow> 'w layer \<Rightarrow> 'w conditional" where
  "layer_when_path path l = cond_when_path path l cond_new"

definition layer_when_path_glob ::
  "(string \<Rightarrow> glob_matcher option) \<Rightarrow> string \<Rightarrow> 'w layer \<Rightarrow> 'w conditional result"
where
  "layer_when_path_glob glob pattern l = cond_when_path_glob glob pattern l cond_new"

definition layer_when_method :: "string \<Rightarrow> 'w layer \<Rightarrow> 'w conditional" where
  "layer_when_method m l = cond_when_method m l cond_new"

definition layer_when_methods :: "string list \<Rightarrow> 'w layer \<Rightarrow> 'w conditional" where
  "layer_when_methods ms l = cond_when_methods ms l cond_new"

text \<open>\<^verbatim>\<open>SharedInnerService::call\<close>\<close>

definition shared_inner_call :: "'w service \<Rightarrow> 'w service" where
  "shared_inner_call inner req w = inner req w"

fun cond_call :: "((request \<Rightarrow> bool) \<times> 'w service) list \<Rightarrow> 'w service \<Rightarrow> 'w service" where
  "cond_call [] inner req w = inner req w"
| "cond_call ((p, svc) # rules) inner req w =
     (if p req then svc req w else cond_call rules inner req w)"

definition cond_layer :: "'w conditional \<Rightarrow> 'w layer" where
  "cond_layer c inner =
     cond_call (map (\<lambda>(p, l). (p, l (shared_inner_call inner))) (cond_rules c)) inner"

lemma shared_inner_call_eq [simp]: "shared_inner_call inner = inner"
  by (simp add: shared_inner_call_def fun_eq_iff)

lemma cond_layer_find:
  "cond_layer c inner req w =
     (case List.find (\<lambda>(p, _). p req) (cond_rules c) of
        Some (_, l) \<Rightarrow> l inner req w
      | None \<Rightarrow> inner req w)"
proof -
  have "cond_call (map (\<lambda>(p, l). (p, l inner)) rules) inner req w =
      (case List.find (\<lambda>(p, _). p req) rules of Some (_, l) \<Rightarrow> l inner req w | None \<Rightarrow> inner req w)" for rules
    by (induction rules) auto
  then show ?thesis by (simp add: cond_layer_def)
qed

text \<open>One rule, as the configuration installs it.\<close>

lemma cond_layer_single:
  "cond_layer (cond_when p l cond_new) inner req w = (if p req then l inner req w else inner req w)"
  by (simp add: cond_layer_find cond_when_def cond_new_def)

end
