(* ===== verification/Rust_Text.thy ===== *)
theory Rust_Text
  imports Http_Service
begin

text \<open>
  The part of Rust's text handling that the logger, the configuration and the rewriting middleware
  use: printing of numbers and durations, \<^verbatim>\<open>str::lines\<close>, \<^verbatim>\<open>str::from_utf8\<close>, \<^verbatim>\<open>str::replace\<close>,
  splitting at any of several characters and joining.  A string is the list of its bytes.

  Shown here: reading back a printed number gives the number; a replacement leaves text alone that
  cannot contain the pattern, which is what the template lemmas of the rewriting middleware need.
\<close>

section \<open>Numbers\<close>

definition digit_char :: "nat \<Rightarrow> char" where
  "digit_char d = char_of (48 + d)"

fun show_nat :: "nat \<Rightarrow> string" where
  "show_nat n = (if n < 10 then [digit_char n] else show_nat (n div 10) @ [digit_char (n mod 10)])"

declare show_nat.simps [simp del]

lemma digit_value_digit_char [simp]: "d < 10 \<Longrightarrow> digit_value (digit_char d) = Some d"
  by (simp add: digit_value_def digit_char_def Let_def)

lemma parse_digits_append:
  "parse_digits acc (s @ t) = Option.bind (parse_digits acc s) (\<lambda>a. parse_digits a t)"
  by (induction acc s rule: parse_digits.induct) (auto split: option.splits)

lemma parse_digits_show_nat:
  "parse_digits acc (show_nat n) = Some (acc * 10 ^ length (show_nat n) + n)"
proof (induction n arbitrary: acc rule: show_nat.induct)
  case (1 n)
  show ?case
  proof (cases "n < 10")
    case False
    then have "parse_digits acc (show_nat (n div 10)) =
        Some (acc * 10 ^ length (show_nat (n div 10)) + n div 10)"
      using 1 by blast
    moreover have "(n div 10) * 10 + n mod 10 = n" by simp
    ultimately show ?thesis
      using False by (simp add: show_nat.simps [of n] parse_digits_append algebra_simps)
  qed (simp add: show_nat.simps [of n])
qed

lemma show_nat_not_Nil [simp]: "show_nat n \<noteq> []"
  by (subst show_nat.simps) simp

lemma digit_char_code: "d < 10 \<Longrightarrow> of_char (digit_char d) = (48 + d :: nat)"
  by (simp add: digit_char_def)

lemma set_show_nat: "c \<in> set (show_nat n) \<Longrightarrow> digit_value c \<noteq> None"
proof (induction n rule: show_nat.induct)
  case (1 n)
  then show ?case
    by (cases "n < 10") (auto simp: show_nat.simps [of n])
qed

lemma not_digit: "digit_value c = None \<Longrightarrow> c \<notin> set (show_nat n)"
  using set_show_nat by blast

lemma parse_uint_show_nat: "parse_uint b (show_nat n) = (if n \<le> b then Some n else None)"
proof -
  obtain c cs where s: "show_nat n = c # cs" by (cases "show_nat n") simp_all
  have "digit_value (CHR ''+'') = None" by (simp add: digit_value_def)
  then have "c \<noteq> CHR ''+''" using set_show_nat [of c n] s by auto
  then show ?thesis
    using parse_digits_show_nat [of 0 n] s by (simp add: parse_uint_def)
qed

text \<open>\<^verbatim>\<open>{:?}\<close> of a duration: the largest unit with a non-zero integer part, the fraction without its
  trailing zeros.\<close>

fun pad_digits :: "nat \<Rightarrow> nat \<Rightarrow> string" where
  "pad_digits 0 n = []"
| "pad_digits (Suc k) n = pad_digits k (n div 10) @ [digit_char (n mod 10)]"

definition show_fraction :: "nat \<Rightarrow> nat \<Rightarrow> string" where
  "show_fraction width n =
     (let ds = rev (dropWhile (\<lambda>c. c = CHR ''0'') (rev (pad_digits width n)))
      in if ds = [] then [] else CHR ''.'' # ds)"

definition show_duration :: "duration \<Rightarrow> string" where
  "show_duration d =
     (if nanos_per_sec \<le> d then show_nat (d div nanos_per_sec) @ show_fraction 9 (d mod nanos_per_sec) @ ''s''
      else if 1000000 \<le> d then show_nat (d div 1000000) @ show_fraction 6 (d mod 1000000) @ ''ms''
      else if 1000 \<le> d then show_nat (d div 1000) @ show_fraction 3 (d mod 1000) @ [char_of (194::nat), char_of (181::nat)] @ ''s''
      else show_nat d @ ''ns'')"

section \<open>Lines and encodings\<close>

text \<open>\<^verbatim>\<open>str::lines\<close>: pieces between line feeds, a trailing carriage return cut off each, no piece after
  a final line feed.\<close>

definition strip_cr :: "string \<Rightarrow> string" where
  "strip_cr s = (if s \<noteq> [] \<and> last s = CHR 0x0D then butlast s else s)"

definition lines_of :: "string \<Rightarrow> string list" where
  "lines_of s =
     (let pieces = split_on (CHR 0x0A) s
      in map strip_cr (butlast pieces) @ (if last pieces = [] then [] else [last pieces]))"

text \<open>\<^verbatim>\<open>str::from_utf8\<close>: well-formed byte sequences, without overlong forms and surrogates.\<close>

definition utf8_tail :: "nat \<Rightarrow> nat \<Rightarrow> nat \<Rightarrow> bool" where
  "utf8_tail lo hi b = (lo \<le> b \<and> b \<le> hi)"

fun utf8_bytes :: "nat list \<Rightarrow> bool" where
  "utf8_bytes [] = True"
| "utf8_bytes (a # bs) =
     (if a < 128 then utf8_bytes bs
      else if 194 \<le> a \<and> a \<le> 223 then
        (case bs of b # r \<Rightarrow> utf8_tail 128 191 b \<and> utf8_bytes r | [] \<Rightarrow> False)
      else if 224 \<le> a \<and> a \<le> 239 then
        (case bs of b # c # r \<Rightarrow>
             utf8_tail (if a = 224 then 160 else 128) (if a = 237 then 159 else 191) b \<and>
             utf8_tail 128 191 c \<and> utf8_bytes r
         | _ \<Rightarrow> False)
      else if 240 \<le> a \<and> a \<le> 244 then
        (case bs of b # c # d # r \<Rightarrow>
             utf8_tail (if a = 240 then 144 else 128) (if a = 244 then 143 else 191) b \<and>
             utf8_tail 128 191 c \<and> utf8_tail 128 191 d \<and> utf8_bytes r
         | _ \<Rightarrow> False)
      else False)"

definition from_utf8 :: "string \<Rightarrow> string option" where
  "from_utf8 s = (if utf8_bytes (map of_char s) then Some s else None)"

section \<open>Splitting, joining and replacing\<close>

fun split_any :: "char list \<Rightarrow> string \<Rightarrow> string list" where
  "split_any cs [] = [[]]"
| "split_any cs (x # xs) =
     (if x \<in> set cs then [] # split_any cs xs
      else (case split_any cs xs of [] \<Rightarrow> [[x]] | y # ys \<Rightarrow> (x # y) # ys))"

fun join :: "string \<Rightarrow> string list \<Rightarrow> string" where
  "join sep [] = []"
| "join sep [s] = s"
| "join sep (s # t # ts) = s @ sep @ join sep (t # ts)"

text \<open>\<^verbatim>\<open>str::split_once\<close> with a string as the separator\<close>

fun split_once_str :: "string \<Rightarrow> string \<Rightarrow> (string \<times> string) option" where
  "split_once_str pat s =
     (case strip_prefix pat s of
        Some r \<Rightarrow> Some ([], r)
      | None \<Rightarrow> (case s of [] \<Rightarrow> None
               | c # cs \<Rightarrow> map_option (\<lambda>(a, b). (c # a, b)) (split_once_str pat cs)))"

declare split_once_str.simps [simp del]

text \<open>\<^verbatim>\<open>str::replace\<close> for a non-empty pattern: matches from the left, none overlapping.\<close>

function str_replace :: "string \<Rightarrow> string \<Rightarrow> string \<Rightarrow> string" where
  "str_replace pat to [] = []"
| "str_replace pat to (c # s) =
     (if pat \<noteq> [] \<and> take (length pat) (c # s) = pat
      then to @ str_replace pat to (drop (length pat - 1) s)
      else c # str_replace pat to s)"
  by pat_completeness auto
termination
  by (relation "measure (\<lambda>(_, _, s). length s)") auto

declare str_replace.simps [simp del]

lemma split_any_not_Nil [simp]: "split_any cs s \<noteq> []"
  by (induction cs s rule: split_any.induct) (auto split: list.splits)

lemma str_replace_Nil [simp]: "str_replace pat to [] = []"
  by (simp add: str_replace.simps)

lemma str_replace_hit:
  "pat \<noteq> [] \<Longrightarrow> str_replace pat to (pat @ s) = to @ str_replace pat to s"
  by (cases pat) (simp_all add: str_replace.simps)

lemma str_replace_miss:
  "take (length pat) (c # s) \<noteq> pat \<Longrightarrow> str_replace pat to (c # s) = c # str_replace pat to s"
  by (simp add: str_replace.simps)

lemma str_replace_skip:
  "pat = p # ps \<Longrightarrow> p \<notin> set s \<Longrightarrow> str_replace pat to (s @ t) = s @ str_replace pat to t"
  by (induction s) (auto simp: str_replace.simps)

end
