(* ===== verification/Url_Rewrite.thy ===== *)
theory Url_Rewrite
  imports Rust_Text
begin

text \<open>
  Path rewriting, \<^verbatim>\<open>src/src/middleware/url_rewrite.rs\<close>.  The route matcher of \<^verbatim>\<open>matchit\<close> and the
  regular expressions of \<^verbatim>\<open>regex\<close> are parameters: \<open>path_router\<close> compiles a pattern to the function from
  a path to its captured parameters, \<open>regex_new\<close> compiles an expression to its \<open>is_match\<close> and \<open>replace\<close>.
  \<open>parse_pq\<close> and \<open>from_parts\<close> are the parsers of the \<^verbatim>\<open>http\<close> crate that \<open>rewrite_uri\<close> unwraps.

  Shown here: the loop of replacements fills the holes of a template simultaneously, as long as no
  captured value contains an opening brace, and what happens when one does.
\<close>

datatype rewrite_rule =
    Rewrite_Pattern "string \<Rightarrow> (string \<times> string) list option" string
  | Rewrite_Regex "string \<Rightarrow> bool" "string \<Rightarrow> string \<Rightarrow> string" string

definition hole :: "string \<Rightarrow> string" where
  "hole key = CHR ''{'' # key @ ''}''"

fun rule_rewrite :: "rewrite_rule \<Rightarrow> string \<Rightarrow> string option" where
  "rule_rewrite (Rewrite_Pattern route template) path =
     (case route path of
        None \<Rightarrow> None
      | Some params \<Rightarrow> Some (fold (\<lambda>(key, v) result. str_replace (hole key) v result) params template))"
| "rule_rewrite (Rewrite_Regex is_match repl replacement) path =
     (if is_match path then Some (repl path replacement) else None)"

record url_rewrite =
  ur_rewrites :: "rewrite_rule list"

definition ur_path ::
  "(string \<Rightarrow> (string \<Rightarrow> (string \<times> string) list option) option) \<Rightarrow> string \<Rightarrow> string \<Rightarrow> url_rewrite result"
where
  "ur_path path_router pattern replacement =
     and_then (ok_or (Box_Error ''invalid route pattern'') (path_router pattern)) (\<lambda>route.
       Inr \<lparr>ur_rewrites = [Rewrite_Pattern route replacement]\<rparr>)"

definition ur_regex ::
  "(string \<Rightarrow> ((string \<Rightarrow> bool) \<times> (string \<Rightarrow> string \<Rightarrow> string)) option) \<Rightarrow> string \<Rightarrow> string \<Rightarrow> url_rewrite result"
where
  "ur_regex regex_new pattern replacement =
     and_then (ok_or (Box_Error ''invalid regex'') (regex_new pattern)) (\<lambda>(is_match, repl).
       Inr \<lparr>ur_rewrites = [Rewrite_Regex is_match repl replacement]\<rparr>)"

definition ur_and_path ::
  "(string \<Rightarrow> (string \<Rightarrow> (string \<times> string) list option) option) \<Rightarrow> string \<Rightarrow> string \<Rightarrow>
   url_rewrite \<Rightarrow> url_rewrite result"
where
  "ur_and_path path_router pattern replacement u =
     and_then (ok_or (Box_Error ''invalid route pattern'') (path_router pattern)) (\<lambda>route.
       Inr \<lparr>ur_rewrites = ur_rewrites u @ [Rewrite_Pattern route replacement]\<rparr>)"

definition ur_and_regex ::
  "(string \<Rightarrow> ((string \<Rightarrow> bool) \<times> (string \<Rightarrow> string \<Rightarrow> string)) option) \<Rightarrow> string \<Rightarrow> string \<Rightarrow>
   url_rewrite \<Rightarrow> url_rewrite result"
where
  "ur_and_regex regex_new pattern replacement u =
     and_then (ok_or (Box_Error ''invalid regex'') (regex_new pattern)) (\<lambda>(is_match, repl).
       Inr \<lparr>ur_rewrites = ur_rewrites u @ [Rewrite_Regex is_match repl replacement]\<rparr>)"

definition with_query :: "string \<Rightarrow> string option \<Rightarrow> string" where
  "with_query path query = (case query of None \<Rightarrow> path | Some q \<Rightarrow> path @ ''?'' @ q)"

definition rewrite_uri ::
  "(string \<Rightarrow> (string \<times> string option) option) \<Rightarrow> (uri \<Rightarrow> uri option) \<Rightarrow> uri \<Rightarrow> string \<Rightarrow> uri result"
where
  "rewrite_uri parse_pq from_parts u new_path =
     and_then (ok_or (Panicked ''called `Result::unwrap()` on an `Err` value'')
                (parse_pq (with_query new_path (uri_query u)))) (\<lambda>pq.
       ok_or (Panicked ''called `Result::unwrap()` on an `Err` value'')
         (from_parts (u\<lparr>uri_path_and_query := Some pq\<rparr>)))"

fun first_rewrite :: "rewrite_rule list \<Rightarrow> string \<Rightarrow> string option" where
  "first_rewrite [] path = None"
| "first_rewrite (r # rs) path =
     (case rule_rewrite r path of Some p \<Rightarrow> Some p | None \<Rightarrow> first_rewrite rs path)"

text \<open>A panic of \<open>rewrite_uri\<close> unwinds out of \<open>call\<close>; it is the result of the future here.\<close>

definition ur_call ::
  "(string \<Rightarrow> (string \<times> string option) option) \<Rightarrow> (uri \<Rightarrow> uri option) \<Rightarrow> url_rewrite \<Rightarrow> 'w layer"
where
  "ur_call parse_pq from_parts u inner req w =
     (case first_rewrite (ur_rewrites u) (uri_path (req_uri req)) of
        None \<Rightarrow> inner req w
      | Some new_path \<Rightarrow>
          (case rewrite_uri parse_pq from_parts (req_uri req) new_path of
             Inl e \<Rightarrow> (ready (Inl e), w)
           | Inr new_uri \<Rightarrow> inner (req\<lparr>req_uri := new_uri\<rparr>) w))"

section \<open>Templates\<close>

text \<open>A template is text with holes; \<open>fill f\<close> puts \<open>f k\<close> into each hole \<open>k\<close>.\<close>

datatype segment = Lit string | Hole string

fun fill_segment :: "(string \<Rightarrow> string) \<Rightarrow> segment \<Rightarrow> string" where
  "fill_segment f (Lit s) = s"
| "fill_segment f (Hole k) = f k"

definition fill :: "(string \<Rightarrow> string) \<Rightarrow> segment list \<Rightarrow> string" where
  "fill f segs = concat (map (fill_segment f) segs)"

abbreviation no_brace :: "string \<Rightarrow> bool" where
  "no_brace s \<equiv> CHR ''{'' \<notin> set s \<and> CHR ''}'' \<notin> set s"

fun segment_ok :: "segment \<Rightarrow> bool" where
  "segment_ok (Lit s) = (CHR ''{'' \<notin> set s)"
| "segment_ok (Hole k) = no_brace k"

text \<open>What the captured parameters put into a hole: the first value with that name, else the hole
  stays as it is.\<close>

definition captured :: "(string \<times> string) list \<Rightarrow> string \<Rightarrow> string" where
  "captured params k = (case map_of params k of Some v \<Rightarrow> v | None \<Rightarrow> hole k)"

lemma hole_not_Nil: "hole k \<noteq> []"
  by (simp add: hole_def)

lemma hole_not_value: "CHR ''{'' \<notin> set v \<Longrightarrow> v \<noteq> hole k"
  by (auto simp: hole_def)

lemma until_first_eq:
  "c \<notin> set k \<Longrightarrow> c \<notin> set k' \<Longrightarrow> k @ c # s = k' @ c # t \<Longrightarrow> k = k'"
proof (induction k arbitrary: k')
  case Nil
  then show ?case by (cases k') auto
next
  case (Cons a k)
  then show ?case by (cases k') auto
qed

lemma hole_not_prefix:
  assumes "no_brace k" "no_brace k'" "k \<noteq> k'"
  shows "take (length (hole k)) (hole k' @ t) \<noteq> hole k"
proof
  assume "take (length (hole k)) (hole k' @ t) = hole k"
  then have tk: "take (length k + 1) (k' @ ''}'' @ t) = k @ ''}''" by (simp add: hole_def)
  have "k @ CHR ''}'' # drop (length k + 1) (k' @ ''}'' @ t) = k' @ CHR ''}'' # t"
    using append_take_drop_id [of "length k + 1" "k' @ ''}'' @ t"] unfolding tk by simp
  then show False using until_first_eq assms by metis
qed

lemma replace_other_hole:
  assumes "no_brace k" "no_brace k'" "k \<noteq> k'"
  shows "str_replace (hole k) v (hole k' @ t) = hole k' @ str_replace (hole k) v t"
proof -
  have "str_replace (hole k) v (CHR ''{'' # (k' @ ''}'') @ t) =
      CHR ''{'' # str_replace (hole k) v ((k' @ ''}'') @ t)"
    using hole_not_prefix [OF assms] by (intro str_replace_miss) (simp add: hole_def)
  also have "str_replace (hole k) v ((k' @ ''}'') @ t) = (k' @ ''}'') @ str_replace (hole k) v t"
    using assms(2) by (intro str_replace_skip [where p = "CHR ''{''"]) (auto simp: hole_def)
  finally show ?thesis by (simp add: hole_def)
qed

lemma replace_fill:
  assumes "list_all segment_ok segs" "no_brace k"
    and f: "\<And>j. f j = hole j \<or> CHR ''{'' \<notin> set (f j)"
  shows "str_replace (hole k) v (fill f segs) = fill (f(k := if f k = hole k then v else f k)) segs"
  using assms(1)
proof (induction segs)
  case (Cons s segs)
  have skip: "str_replace (hole k) v (x @ t) = x @ str_replace (hole k) v t" if "CHR ''{'' \<notin> set x" for x t
    using that by (intro str_replace_skip [where p = "CHR ''{''"]) (simp_all add: hole_def)
  show ?case
  proof (cases s)
    case (Lit x)
    then show ?thesis using Cons by (simp add: fill_def skip)
  next
    case (Hole j)
    then have j: "no_brace j" using Cons.prems by simp
    consider "f j = hole j" "j = k" | "f j = hole j" "j \<noteq> k" | "f j \<noteq> hole j" by blast
    then show ?thesis
    proof cases
      case 1
      then show ?thesis using Cons Hole str_replace_hit [of "hole k" v "fill f segs"] by (simp add: fill_def hole_not_Nil)
    next
      case 2
      then show ?thesis using Cons Hole replace_other_hole [OF assms(2) j] by (simp add: fill_def)
    next
      case 3
      then show ?thesis using Cons Hole f [of j] by (auto simp: fill_def skip)
    qed
  qed
qed (simp add: fill_def)

lemma replace_all_fill:
  assumes "list_all segment_ok segs" "list_all (\<lambda>(k, v). no_brace k \<and> CHR ''{'' \<notin> set v) params"
    and "\<And>j. f j = hole j \<or> CHR ''{'' \<notin> set (f j)"
  shows "fold (\<lambda>(k, v) r. str_replace (hole k) v r) params (fill f segs) =
     fill (\<lambda>j. if f j = hole j then captured params j else f j) segs"
  using assms(2,3)
proof (induction params arbitrary: f)
  case Nil
  have "(\<lambda>j. if f j = hole j then captured [] j else f j) = f" by (auto simp: captured_def)
  then show ?case by simp
next
  case (Cons kv params)
  obtain k v where kv: "kv = (k, v)" by fastforce
  define g where "g = f(k := if f k = hole k then v else f k)"
  have ok: "no_brace k" "CHR ''{'' \<notin> set v" using Cons.prems(1) kv by auto
  have g: "g j = hole j \<or> CHR ''{'' \<notin> set (g j)" for j using Cons.prems(2) [of j] ok by (auto simp: g_def)
  have "(\<lambda>j. if g j = hole j then captured params j else g j) =
      (\<lambda>j. if f j = hole j then captured ((k, v) # params) j else f j)"
    using ok hole_not_value [OF ok(2)] by (auto simp: g_def captured_def fun_eq_iff)
  moreover have "fold (\<lambda>(k, v) r. str_replace (hole k) v r) (kv # params) (fill f segs) =
      fold (\<lambda>(k, v) r. str_replace (hole k) v r) params (fill g segs)"
    using replace_fill [OF assms(1) ok(1) Cons.prems(2)] unfolding kv g_def fold_simps prod.case by simp
  ultimately show ?case
    using Cons.IH [OF _ g] Cons.prems(1) by (simp only: kv list.pred_inject)
qed

lemma rule_rewrite_fill:
  assumes "list_all segment_ok segs" "list_all (\<lambda>(k, v). no_brace k \<and> CHR ''{'' \<notin> set v) params"
    and "route path = Some params"
  shows "rule_rewrite (Rewrite_Pattern route (fill hole segs)) path = Some (fill (captured params) segs)"
  using replace_all_fill [OF assms(1,2), of hole] assms(3) by simp

lemma first_rewrite_skip:
  "list_all (\<lambda>r. rule_rewrite r path = None) pre \<Longrightarrow> first_rewrite (pre @ rs) path = first_rewrite rs path"
  by (induction pre) auto

text \<open>Without the condition on the values the claim fails: a captured value that spells a later hole is
  itself expanded.\<close>

lemma captured_text_is_expanded:
  "rule_rewrite (Rewrite_Pattern (\<lambda>_. Some [(''a'', ''{b}''), (''b'', ''x'')]) ''/{a}'') path = Some ''/x''"
  by (simp add: hole_def str_replace.simps)

text \<open>An instance of \<open>parse_pq\<close> for the witness: everything up to the first question mark is the path.\<close>

definition split_query :: "string \<Rightarrow> (string \<times> string option) option" where
  "split_query s = Some (case split_once (CHR ''?'') s of None \<Rightarrow> (s, None) | Some (p, q) \<Rightarrow> (p, Some q))"

section \<open>Properties\<close>


definition rewrite_example_request :: request where
  "rewrite_example_request =
     \<lparr>req_method = ''GET'',
      req_uri = \<lparr>uri_scheme = None, uri_authority = None,
                 uri_path_and_query = Some (''/api/v1/users'', Some ''page=2'')\<rparr>,
      req_version = HTTP_11, req_headers = [], req_target = None, req_body = empty_body\<rparr>"


end
