(* ===== verification/Injectors.thy ===== *)
theory Injectors
  imports Http_Service
begin

text \<open>
  The middleware that replaces or delays responses: \<^verbatim>\<open>src/src/middleware/fault_injector.rs\<close>,
  \<^verbatim>\<open>latency_injector.rs\<close>, \<^verbatim>\<open>set_response.rs\<close>, and the adapter of \<^verbatim>\<open>from_fn.rs\<close> that turns an async
  function into a layer.  Randomness is a parameter: \<open>roll\<close> is \<^verbatim>\<open>rng.random::<f64>()\<close> and \<open>rand_range\<close>
  is \<^verbatim>\<open>rng.random_range(lo..hi)\<close> on a non-empty range.

  Shown here: the three outcomes of the fault injector partition the rolls, an abort and an injected
  error never reach the inner service, and a latency range that is empty makes every request panic.
\<close>

section \<open>Faults\<close>

record fault_injector =
  fi_abort_rate :: real
  fi_error_rate :: real
  fi_error_status :: nat

definition fi_new :: fault_injector where
  "fi_new = \<lparr>fi_abort_rate = 0, fi_error_rate = 0, fi_error_status = 500\<rparr>"

definition fi_set_abort_rate :: "real \<Rightarrow> fault_injector \<Rightarrow> fault_injector" where
  "fi_set_abort_rate rate f = f\<lparr>fi_abort_rate := rate\<rparr>"

definition fi_set_error_rate :: "real \<Rightarrow> fault_injector \<Rightarrow> fault_injector" where
  "fi_set_error_rate rate f = f\<lparr>fi_error_rate := rate\<rparr>"

definition fi_set_error_status :: "nat \<Rightarrow> fault_injector \<Rightarrow> fault_injector" where
  "fi_set_error_status status f = f\<lparr>fi_error_status := status\<rparr>"

definition fi_call :: "('w \<Rightarrow> real \<times> 'w) \<Rightarrow> fault_injector \<Rightarrow> 'w layer" where
  "fi_call roll f inner req w =
     (case roll w of (r, w1) \<Rightarrow>
        if r < fi_abort_rate f then (ready (Inl (Box_Error ''fault injector: connection aborted'')), w1)
        else if r < fi_abort_rate f + fi_error_rate f
          then (ready (Inr (response_with (fi_error_status f) (full_body ''fault injected''))), w1)
        else inner req w1)"

lemma fi_call_cases:
  assumes "roll w = (r, w1)"
  shows "r < fi_abort_rate f \<Longrightarrow>
      fi_call roll f inner req w = (ready (Inl (Box_Error ''fault injector: connection aborted'')), w1)"
    and "fi_abort_rate f \<le> r \<Longrightarrow> r < fi_abort_rate f + fi_error_rate f \<Longrightarrow>
      fi_call roll f inner req w =
        (ready (Inr (response_with (fi_error_status f) (full_body ''fault injected''))), w1)"
    and "fi_abort_rate f \<le> r \<Longrightarrow> fi_abort_rate f + fi_error_rate f \<le> r \<Longrightarrow>
      fi_call roll f inner req w = inner req w1"
  using assms by (simp_all add: fi_call_def)

text \<open>Both checks look at the same roll, so the two rates add up: with \<open>abort_rate + error_rate \<ge> 1\<close> no
  request is forwarded, and an error needs a roll beyond \<open>abort_rate\<close>.\<close>

lemma fi_never_forwards:
  assumes "1 \<le> fi_abort_rate f + fi_error_rate f" "roll w = (r, w1)" "r < 1"
  shows "fi_call roll f inner req w = fi_call roll f inner' req w"
  using assms by (auto simp: fi_call_def)

section \<open>Latency\<close>

datatype delay = Delay_Fixed duration | Delay_Uniform duration duration

record latency_injector =
  li_delay :: delay

definition li_fixed :: "duration \<Rightarrow> latency_injector" where
  "li_fixed d = \<lparr>li_delay = Delay_Fixed d\<rparr>"

definition li_uniform :: "duration \<Rightarrow> duration \<Rightarrow> latency_injector" where
  "li_uniform lo hi = \<lparr>li_delay = Delay_Uniform lo hi\<rparr>"

fun delay_duration ::
  "(duration \<Rightarrow> duration \<Rightarrow> 'w \<Rightarrow> duration \<times> 'w) \<Rightarrow> delay \<Rightarrow> 'w \<Rightarrow> duration result \<times> 'w"
where
  "delay_duration rand_range (Delay_Fixed d) w = (Inr d, w)"
| "delay_duration rand_range (Delay_Uniform lo hi) w =
     (if lo < hi then (case rand_range lo hi w of (d, w1) \<Rightarrow> (Inr d, w1))
      else (Inl (Panicked ''cannot sample empty range''), w))"

text \<open>The inner service is called before the sleep, and its future awaited after it.\<close>

definition li_call ::
  "'w env \<Rightarrow> (duration \<Rightarrow> duration \<Rightarrow> 'w \<Rightarrow> duration \<times> 'w) \<Rightarrow> latency_injector \<Rightarrow> 'w layer"
where
  "li_call env rand_range l inner req w =
     (case delay_duration rand_range (li_delay l) w of
        (Inl e, w1) \<Rightarrow> (ready (Inl e), w1)
      | (Inr d, w1) \<Rightarrow>
          (case inner req w1 of (fut, w2) \<Rightarrow> ((\<lambda>w. fut (env_sleep env d w)), w2)))"

lemma li_call_empty_range:
  "hi \<le> lo \<Longrightarrow> li_call env rand_range (li_uniform lo hi) inner req w =
     (ready (Inl (Panicked ''cannot sample empty range'')), w)"
  by (simp add: li_call_def li_uniform_def)

lemma li_call_fixed:
  "li_call env rand_range (li_fixed d) inner req w =
     (case inner req w of (fut, w2) \<Rightarrow> ((\<lambda>w. fut (env_sleep env d w)), w2))"
  by (simp add: li_call_def li_fixed_def)

section \<open>Fixed responses\<close>

record set_response =
  sr_status :: nat
  sr_body :: string

definition sr_ok :: "string \<Rightarrow> set_response" where
  "sr_ok body = \<lparr>sr_status = 200, sr_body = body\<rparr>"

definition sr_new :: "nat \<Rightarrow> string \<Rightarrow> set_response" where
  "sr_new status body = \<lparr>sr_status = status, sr_body = body\<rparr>"

definition sr_call :: "set_response \<Rightarrow> 'w layer" where
  "sr_call s inner req w = (ready (Inr (response_with (sr_status s) (full_body (sr_body s)))), w)"

section \<open>Middleware from a function\<close>

text \<open>\<^verbatim>\<open>Next::run\<close>: the inner service is called and awaited when the function runs.\<close>

definition next_run :: "'w service \<Rightarrow> request \<Rightarrow> 'w future" where
  "next_run inner req = (\<lambda>w. case inner req w of (fut, w1) \<Rightarrow> fut w1)"

definition from_fn_call :: "(request \<Rightarrow> (request \<Rightarrow> 'w future) \<Rightarrow> 'w future) \<Rightarrow> 'w layer" where
  "from_fn_call f inner req w = (f req (next_run inner), w)"

text \<open>A function that only forwards is transparent, up to the moment at which the inner service is
  called.\<close>

lemma from_fn_forward:
  "fst (from_fn_call (\<lambda>req run. run req) inner req w) w = (case inner req w of (fut, w1) \<Rightarrow> fut w1)"
  by (simp add: from_fn_call_def next_run_def)

end
