(* ===== verification/Content_Decoder.thy ===== *)
theory Content_Decoder
  imports Http_Service
begin

text \<open>
  Response decompression, \<^verbatim>\<open>src/src/middleware/content_decoder.rs\<close>.  The decompressors are a parameter:
  \<open>decoder c\<close> maps the chunks a compressed body yields to the chunks the decompressor yields; an \<open>Inl\<close>
  is an error of the stream.

  Shown here: the decompressor is picked exactly for the supported codings, so the \<^verbatim>\<open>unreachable!\<close>
  branch is never taken; a supported response loses the two headers that describe the compressed body;
  every other response passes untouched.
\<close>

datatype coding = Gzip | Brotli | Zstd | Deflate

definition is_supported :: "string \<Rightarrow> bool" where
  "is_supported enc = List.member [''gzip'', ''x-gzip'', ''br'', ''zstd'', ''deflate''] enc"

definition coding_of :: "string \<Rightarrow> coding option" where
  "coding_of enc =
     (if enc = ''gzip'' \<or> enc = ''x-gzip'' then Some Gzip
      else if enc = ''br'' then Some Brotli
      else if enc = ''zstd'' then Some Zstd
      else if enc = ''deflate'' then Some Deflate
      else None)"

text \<open>Trailers are dropped, errors kept.\<close>

fun data_chunks :: "(string + frame) list \<Rightarrow> (string + string) list" where
  "data_chunks [] = []"
| "data_chunks (Inl e # fs) = Inl e # data_chunks fs"
| "data_chunks (Inr (Data d) # fs) = Inr d # data_chunks fs"
| "data_chunks (Inr (Trailers t) # fs) = data_chunks fs"

definition decode_body ::
  "(coding \<Rightarrow> (string + string) list \<Rightarrow> (string + string) list) \<Rightarrow> body \<Rightarrow> string \<Rightarrow> body result"
where
  "decode_body decoder b enc =
     (case coding_of enc of
        None \<Rightarrow> Inl (Panicked ''internal error: entered unreachable code'')
      | Some c \<Rightarrow> Inr \<lparr>body_frames = map (map_sum id Data) (decoder c (data_chunks (body_frames b))),
                        body_exact_size = None\<rparr>)"

definition content_encoding :: "response \<Rightarrow> string option" where
  "content_encoding resp =
     map_option (map ascii_lower) (Option.bind (hdr_get (resp_headers resp) ''content-encoding'') to_str)"

definition cd_call :: "(coding \<Rightarrow> (string + string) list \<Rightarrow> (string + string) list) \<Rightarrow> 'w layer" where
  "cd_call decoder inner req w =
     (case inner req w of (fut, w1) \<Rightarrow>
        (await_ok fut (\<lambda>resp.
           case content_encoding resp of
             None \<Rightarrow> ready (Inr resp)
           | Some enc \<Rightarrow>
               if is_supported enc then
                 (case decode_body decoder (resp_body resp) enc of
                    Inl e \<Rightarrow> ready (Inl e)
                  | Inr b \<Rightarrow>
                      ready (Inr (resp\<lparr>resp_headers := hdr_remove ''content-length''
                                          (hdr_remove ''content-encoding'' (resp_headers resp)),
                                       resp_body := b\<rparr>)))
               else ready (Inr resp)), w1))"

lemma supported_coding: "is_supported enc \<longleftrightarrow> coding_of enc \<noteq> None"
  by (simp add: is_supported_def coding_of_def)

text \<open>The answer to one inner response.\<close>

definition decoded_response ::
  "(coding \<Rightarrow> (string + string) list \<Rightarrow> (string + string) list) \<Rightarrow> response \<Rightarrow> response"
where
  "decoded_response decoder resp =
     (case Option.bind (content_encoding resp) coding_of of
        None \<Rightarrow> resp
      | Some c \<Rightarrow> resp\<lparr>resp_headers := hdr_remove ''content-length'' (hdr_remove ''content-encoding'' (resp_headers resp)),
                      resp_body := \<lparr>body_frames = map (map_sum id Data) (decoder c (data_chunks (body_frames (resp_body resp)))),
                                    body_exact_size = None\<rparr>\<rparr>)"

lemma cd_call_total:
  fixes inner :: "'w service"
  shows "cd_call decoder inner req w =
     (case inner req w of (fut, w1) \<Rightarrow> (await_ok fut (\<lambda>resp. ready (Inr (decoded_response decoder resp))), w1))"
proof -
  have "(case content_encoding resp of None \<Rightarrow> ready (Inr resp)
      | Some enc \<Rightarrow> if is_supported enc then
          (case decode_body decoder (resp_body resp) enc of Inl e \<Rightarrow> ready (Inl e)
           | Inr b \<Rightarrow> ready (Inr (resp\<lparr>resp_headers := hdr_remove ''content-length''
                              (hdr_remove ''content-encoding'' (resp_headers resp)), resp_body := b\<rparr>)))
          else ready (Inr resp)) = (ready (Inr (decoded_response decoder resp)) :: 'w future)" for resp
    by (auto simp: decoded_response_def decode_body_def supported_coding split: option.splits)
  then show ?thesis unfolding cd_call_def by simp
qed

lemma decoded_response_headers:
  "Option.bind (content_encoding resp) coding_of = Some c \<Longrightarrow>
     hdr_get (resp_headers (decoded_response decoder resp)) n =
       (if n \<in> {''content-encoding'', ''content-length''} then None else hdr_get (resp_headers resp) n)"
  by (simp add: decoded_response_def hdr_get_conv)

end
