(* ===== verification/Throttle.thy ===== *)
theory Throttle
  imports Http_Service
begin

text \<open>
  Bandwidth throttling, \<^verbatim>\<open>src/src/middleware/bandwidth_throttle.rs\<close>: the body wrapper that holds back
  data frames.  One poll of the wrapper is one step; its clock readings are the fields of \<open>poll_times\<close>,
  in the order the code takes them, and \<open>inner_ready\<close> says whether the inner body has a frame (or its
  end) available at that poll.  tokio's timer is the parameter \<open>sleep_done deadline now\<close>; what the code
  relies on is that a sleep does not complete before its deadline.

  Shown here: whatever the polls, no frame is lost, duplicated or reordered, no poll panics, and the
  bytes handed out never exceed the configured rate.
\<close>

datatype 'a poll = Pending | Ready 'a

record bandwidth_throttle =
  bt_bytes_per_second :: nat

definition bt_new :: "nat \<Rightarrow> bandwidth_throttle result" where
  "bt_new bytes_per_second =
     (if 0 < bytes_per_second then Inr \<lparr>bt_bytes_per_second = bytes_per_second\<rparr>
      else Inl (Panicked ''bytes_per_second must be > 0''))"

record throttled_body =
  th_inner :: "(string + frame) list"
  th_rate :: nat
  th_delivered :: nat
  th_start :: "instant option"
  th_pending :: "(frame \<times> instant) option"

definition th_new :: "(string + frame) list \<Rightarrow> nat \<Rightarrow> throttled_body" where
  "th_new inner bytes_per_second =
     \<lparr>th_inner = inner, th_rate = bytes_per_second, th_delivered = 0, th_start = None, th_pending = None\<rparr>"

fun frame_size :: "frame \<Rightarrow> nat" where
  "frame_size (Data d) = length d"
| "frame_size (Trailers _) = 0"

record poll_times =
  pt_pending :: instant
  pt_now :: instant
  pt_elapsed :: instant
  pt_sleep :: instant
  pt_first :: instant

text \<open>A data frame taken from the inner body: it is counted, and handed out or put to sleep.\<close>

definition th_throttle ::
  "(instant \<Rightarrow> instant \<Rightarrow> bool) \<Rightarrow> bool \<Rightarrow> poll_times \<Rightarrow> frame \<Rightarrow> throttled_body \<Rightarrow>
   (string + frame) option poll result \<times> throttled_body"
where
  "th_throttle sleep_done overflow_checks ts f b =
     (let start = (case th_start b of Some s \<Rightarrow> s | None \<Rightarrow> pt_now ts);
          b1 = b\<lparr>th_start := Some start\<rparr>
      in case u64_add overflow_checks (th_delivered b1) (frame_size f) of
           Inl e \<Rightarrow> (Inl e, b1)
         | Inr n \<Rightarrow>
             (let b2 = b1\<lparr>th_delivered := n\<rparr>
              in case from_secs_f64 (f64_div (real n) (real (th_rate b2))) of
                   Inl e \<Rightarrow> (Inl e, b2)
                 | Inr expected \<Rightarrow>
                     (let elapsed = duration_since (pt_elapsed ts) start
                      in if expected \<le> elapsed then (Inr (Ready (Some (Inr f))), b2)
                         else (let deadline = pt_sleep ts + int (expected - elapsed)
                               in if sleep_done deadline (pt_first ts) then (Inr (Ready (Some (Inr f))), b2)
                                  else (Inr Pending, b2\<lparr>th_pending := Some (f, deadline)\<rparr>)))))"

definition th_poll_frame ::
  "(instant \<Rightarrow> instant \<Rightarrow> bool) \<Rightarrow> bool \<Rightarrow> bool \<Rightarrow> poll_times \<Rightarrow> throttled_body \<Rightarrow>
   (string + frame) option poll result \<times> throttled_body"
where
  "th_poll_frame sleep_done overflow_checks inner_ready ts b =
     (case th_pending b of
        Some (f, deadline) \<Rightarrow>
          if sleep_done deadline (pt_pending ts) then (Inr (Ready (Some (Inr f))), b\<lparr>th_pending := None\<rparr>)
          else (Inr Pending, b)
      | None \<Rightarrow>
          if \<not> inner_ready then (Inr Pending, b)
          else (case th_inner b of
                  [] \<Rightarrow> (Inr (Ready None), b)
                | Inl e # fs \<Rightarrow> (Inr (Ready (Some (Inl e))), b\<lparr>th_inner := fs\<rparr>)
                | Inr f # fs \<Rightarrow>
                    if frame_size f = 0 then (Inr (Ready (Some (Inr f))), b\<lparr>th_inner := fs\<rparr>)
                    else th_throttle sleep_done overflow_checks ts f (b\<lparr>th_inner := fs\<rparr>)))"

text \<open>The service.  A \<open>body\<close> of the model says which frames come, not when, and \<open>size_hint\<close> is the inner
  body's, so the wrapped body is the same \<open>body\<close>; its pace is that of the \<open>throttled_body\<close>.\<close>

definition bt_wrap :: "bandwidth_throttle \<Rightarrow> response \<Rightarrow> throttled_body" where
  "bt_wrap t resp = th_new (body_frames (resp_body resp)) (bt_bytes_per_second t)"

definition bt_call :: "bandwidth_throttle \<Rightarrow> 'w layer" where
  "bt_call t inner req w =
     (case inner req w of (fut, w1) \<Rightarrow>
        (await_ok fut (\<lambda>resp. ready (Inr (resp\<lparr>resp_body := (resp_body resp)
           \<lparr>body_frames := th_inner (bt_wrap t resp)\<rparr>\<rparr>))), w1))"

section \<open>Runs of polls\<close>

fun th_polls ::
  "(instant \<Rightarrow> instant \<Rightarrow> bool) \<Rightarrow> bool \<Rightarrow> (bool \<times> poll_times) list \<Rightarrow> throttled_body \<Rightarrow>
   (string + frame) option poll result list \<times> throttled_body"
where
  "th_polls sleep_done oc [] b = ([], b)"
| "th_polls sleep_done oc ((rdy, ts) # ps) b =
     (case th_poll_frame sleep_done oc rdy ts b of (r, b1) \<Rightarrow>
      case th_polls sleep_done oc ps b1 of (rs, b2) \<Rightarrow> (r # rs, b2))"

text \<open>Readings never go back, within a poll and from one poll to the next.\<close>

fun clock_ok :: "instant \<Rightarrow> (bool \<times> poll_times) list \<Rightarrow> bool" where
  "clock_ok t [] = True"
| "clock_ok t ((_, ts) # ps) \<longleftrightarrow>
     t \<le> pt_pending ts \<and> pt_pending ts \<le> pt_now ts \<and> pt_now ts \<le> pt_elapsed ts \<and>
     pt_elapsed ts \<le> pt_sleep ts \<and> pt_sleep ts \<le> pt_first ts \<and> clock_ok (pt_first ts) ps"

fun clock_end :: "instant \<Rightarrow> (bool \<times> poll_times) list \<Rightarrow> instant" where
  "clock_end t [] = t"
| "clock_end t ((_, ts) # ps) = clock_end (pt_first ts) ps"

fun handed :: "(string + frame) option poll result list \<Rightarrow> (string + frame) list" where
  "handed [] = []"
| "handed (Inr (Ready (Some x)) # rs) = x # handed rs"
| "handed (_ # rs) = handed rs"

fun bytes_of :: "(string + frame) list \<Rightarrow> nat" where
  "bytes_of [] = 0"
| "bytes_of (Inl _ # xs) = bytes_of xs"
| "bytes_of (Inr f # xs) = frame_size f + bytes_of xs"

definition waiting :: "throttled_body \<Rightarrow> (string + frame) list" where
  "waiting b = (case th_pending b of None \<Rightarrow> [] | Some (f, _) \<Rightarrow> [Inr f])"

lemma bytes_of_append [simp]: "bytes_of (xs @ ys) = bytes_of xs + bytes_of ys"
  by (induction xs rule: bytes_of.induct) auto

lemma handed_append: "handed (rs @ qs) = handed rs @ handed qs"
  by (induction rs rule: handed.induct) auto

text \<open>\<open>n\<close> bytes at the given rate take at least this long, up to the rounding to a nanosecond.\<close>

definition in_rate :: "nat \<Rightarrow> nat \<Rightarrow> int \<Rightarrow> bool" where
  "in_rate rate n ns \<longleftrightarrow> real n * 1000000000 \<le> real rate * (real_of_int ns + 1 / 2)"

lemma in_rate_mono: "in_rate rate n ns \<Longrightarrow> ns \<le> ns' \<Longrightarrow> in_rate rate n ns'"
  unfolding in_rate_def
  by (smt (verit, best) mult_left_mono of_int_le_iff of_nat_0_le_iff)

lemma in_rate_zero: "0 \<le> ns \<Longrightarrow> in_rate rate 0 ns"
  by (simp add: in_rate_def)

lemma expected_total:
  assumes "0 < rate" "n < 2 ^ 64"
  obtains d where "from_secs_f64 (f64_div (real n) (real rate)) = Inr d" "in_rate rate n (int d)"
proof -
  define s where "s = real n / real rate"
  have "s \<le> real n" using assms(1) mult_left_mono [of 1 "real rate" "real n"] by (simp add: s_def field_simps)
  moreover have "real n \<le> 2 ^ 64 - 1" using assms(2) by simp
  ultimately have "s * 1000000000 \<le> 18446744073709551615 * 1000000000" by simp
  then have "of_int (round_half_even (s * 1000000000)) \<le> (18446744073709551615 * 1000000000 + 1 / 2 :: real)"
    using round_half_even_bounds(2) [of "s * 1000000000"] by linarith
  then have "real_of_int (round_half_even (s * 1000000000)) < real_of_int (2 ^ 64 * 1000000000)"
    by simp
  then have small: "round_half_even (s * 1000000000) < 2 ^ 64 * 1000000000"
    unfolding of_int_less_iff .
  moreover have "0 \<le> s" by (simp add: s_def)
  ultimately obtain d where d: "from_secs_f64 (Some s) = Inr d"
    by (simp add: from_secs_f64_def)
  have "s * 1000000000 \<le> real d + 1 / 2" using from_secs_f64_close [OF d] by linarith
  then have "in_rate rate n (int d)"
    using assms(1) by (simp add: in_rate_def s_def field_simps)
  then show thesis using that d assms(1) by (simp add: f64_div_def s_def)
qed

section \<open>Invariant\<close>

text \<open>\<open>hs\<close> is what was handed out until the reading \<open>t\<close>.\<close>

definition th_inv :: "(string + frame) list \<Rightarrow> nat \<Rightarrow> instant \<Rightarrow> (string + frame) list \<Rightarrow> throttled_body \<Rightarrow> bool" where
  "th_inv fs rate t hs b \<longleftrightarrow>
     th_rate b = rate \<and> hs @ waiting b @ th_inner b = fs \<and> th_delivered b = bytes_of (hs @ waiting b) \<and>
     (case th_start b of
        None \<Rightarrow> th_pending b = None \<and> th_delivered b = 0
      | Some s \<Rightarrow> s \<le> t \<and> in_rate rate (bytes_of hs) (t - s) \<and>
          (\<forall>f deadline. th_pending b = Some (f, deadline) \<longrightarrow> in_rate rate (th_delivered b) (deadline - s)))"

lemma th_inv_new: "th_inv fs rate t [] (th_new fs rate)"
  by (simp add: th_inv_def th_new_def waiting_def)

lemma th_inv_later: "th_inv fs rate t hs b \<Longrightarrow> t \<le> t' \<Longrightarrow> th_inv fs rate t' hs b"
  by (auto simp: th_inv_def split: option.splits elim!: in_rate_mono)

lemma th_throttle_inv:
  assumes inv: "th_inv fs rate t hs b" and pend: "th_pending b = None" and inn: "th_inner b = Inr f # rest"
    and clk: "t \<le> pt_now ts" "pt_now ts \<le> pt_elapsed ts" "pt_elapsed ts \<le> pt_sleep ts" "pt_sleep ts \<le> pt_first ts"
    and rate: "0 < rate" and small: "bytes_of fs < 2 ^ 64"
    and sleep: "\<And>d u. sleep_done d u \<Longrightarrow> d \<le> u"
    and run: "th_throttle sleep_done oc ts f (b\<lparr>th_inner := rest\<rparr>) = (r, b')"
  shows "\<exists>x. r = Inr x" and "th_inv fs rate (pt_first ts) (hs @ handed [r]) b'"
proof -
  define start where "start = (case th_start b of Some s \<Rightarrow> s | None \<Rightarrow> pt_now ts)"
  define n where "n = th_delivered b + frame_size f"
  have fs: "fs = hs @ Inr f # rest" and del: "th_delivered b = bytes_of hs" and rt: "th_rate b = rate"
    using inv pend inn by (auto simp: th_inv_def waiting_def)
  have n: "n = bytes_of (hs @ [Inr f])" "n < 2 ^ 64" using fs del small by (auto simp: n_def)
  obtain d where d: "from_secs_f64 (f64_div (real n) (real rate)) = Inr d" "in_rate rate n (int d)"
    using expected_total [OF rate n(2)] by blast
  have st: "start \<le> pt_now ts" "in_rate rate (bytes_of hs) (pt_now ts - start)"
    using inv clk del by (auto simp: th_inv_def start_def in_rate_zero split: option.splits elim!: in_rate_mono)
  define elapsed where "elapsed = duration_since (pt_elapsed ts) start"
  have el: "int elapsed = pt_elapsed ts - start"
    using st clk by (simp add: elapsed_def int_duration_since)
  define deadline where "deadline = pt_sleep ts + int (d - elapsed)"
  have now: "in_rate rate n (pt_first ts - start)" if "d \<le> elapsed"
    using d(2) by (rule in_rate_mono) (use that el clk in linarith)
  have dl: "in_rate rate n (deadline - start)" if "\<not> d \<le> elapsed"
    using d(2) by (rule in_rate_mono) (use that el clk in \<open>simp add: deadline_def of_nat_diff\<close>)
  have later: "in_rate rate (bytes_of hs) (pt_first ts - start)"
    using st(2) by (rule in_rate_mono) (use clk in linarith)
  let ?b = "b\<lparr>th_inner := rest, th_start := Some start, th_delivered := n\<rparr>"
  have "th_throttle sleep_done oc ts f (b\<lparr>th_inner := rest\<rparr>) =
      (if d \<le> elapsed \<or> sleep_done deadline (pt_first ts) then (Inr (Ready (Some (Inr f))), ?b)
       else (Inr Pending, ?b\<lparr>th_pending := Some (f, deadline)\<rparr>))"
    using n(2) d(1) rt
    by (simp add: th_throttle_def Let_def u64_add_def n_def [symmetric] start_def [symmetric]
        elapsed_def [symmetric] deadline_def of_nat_diff)
  with run have run': "(r, b') =
      (if d \<le> elapsed \<or> sleep_done deadline (pt_first ts) then (Inr (Ready (Some (Inr f))), ?b)
       else (Inr Pending, ?b\<lparr>th_pending := Some (f, deadline)\<rparr>))"
    by simp
  show "\<exists>x. r = Inr x" using run' by (auto split: if_splits)
  have "in_rate rate n (pt_first ts - start)" if "d \<le> elapsed \<or> sleep_done deadline (pt_first ts)"
    using that now dl sleep [of deadline "pt_first ts"] by (metis in_rate_mono diff_right_mono)
  moreover have "start \<le> pt_first ts" using st clk by linarith
  ultimately show "th_inv fs rate (pt_first ts) (hs @ handed [r]) b'"
    using run' n(1) later dl pend rt
    by (auto simp: th_inv_def waiting_def fs split: if_splits)
qed

lemma th_poll_inv:
  assumes inv: "th_inv fs rate t hs b"
    and clk: "clock_ok t [(rdy, ts)]"
    and rate: "0 < rate" and small: "bytes_of fs < 2 ^ 64"
    and sleep: "\<And>d u. sleep_done d u \<Longrightarrow> d \<le> u"
    and run: "th_poll_frame sleep_done oc rdy ts b = (r, b')"
  shows "(\<exists>x. r = Inr x) \<and> th_inv fs rate (pt_first ts) (hs @ handed [r]) b'"
proof -
  have t: "t \<le> pt_first ts" using clk by simp
  note later = th_inv_later [OF inv t]
  show ?thesis
  proof (cases "th_pending b")
    case (Some fd)
    obtain f deadline where fd: "fd = (f, deadline)" by fastforce
    show ?thesis
    proof (cases "sleep_done deadline (pt_pending ts)")
      case True
      then have "deadline \<le> pt_first ts" using sleep [of deadline "pt_pending ts"] clk by simp
      then show ?thesis
        using True run Some fd later
        by (auto simp: th_poll_frame_def th_inv_def waiting_def split: option.splits elim!: in_rate_mono)
    next
      case False
      then show ?thesis using run Some fd later by (auto simp: th_poll_frame_def)
    qed
  next
    case None
    show ?thesis
    proof (cases "rdy \<and> (\<exists>f rest. th_inner b = Inr f # rest \<and> frame_size f \<noteq> 0)")
      case True
      then obtain f rest where f: "th_inner b = Inr f # rest" "frame_size f \<noteq> 0" by blast
      then have "th_throttle sleep_done oc ts f (b\<lparr>th_inner := rest\<rparr>) = (r, b')"
        using run None True by (simp add: th_poll_frame_def)
      from th_throttle_inv [OF inv None f(1) _ _ _ _ rate small sleep this] show ?thesis
        using clk by auto
    next
      case False
      then show ?thesis
        using run None later
        by (auto simp: th_poll_frame_def th_inv_def waiting_def split: option.splits list.splits sum.splits if_splits)
    qed
  qed
qed

lemma th_polls_inv:
  assumes "th_inv fs rate t hs b" "clock_ok t ps" "0 < rate" "bytes_of fs < 2 ^ 64"
    and sleep: "\<And>d u. sleep_done d u \<Longrightarrow> d \<le> u"
    and "th_polls sleep_done oc ps b = (rs, b')"
  shows "list_all (\<lambda>r. \<exists>x. r = Inr x) rs \<and> th_inv fs rate (clock_end t ps) (hs @ handed rs) b'"
  using assms(1,2,6)
proof (induction ps arbitrary: t hs b rs)
  case (Cons p ps)
  obtain rdy ts where p: "p = (rdy, ts)" by fastforce
  obtain r b1 where one: "th_poll_frame sleep_done oc rdy ts b = (r, b1)" by fastforce
  obtain rs' where rest: "th_polls sleep_done oc ps b1 = (rs', b')" "rs = r # rs'"
    using Cons.prems(3) one by (auto simp: p split: prod.splits)
  have "(\<exists>x. r = Inr x) \<and> th_inv fs rate (pt_first ts) (hs @ handed [r]) b1"
    using th_poll_inv [OF Cons.prems(1) _ assms(3,4) sleep one] Cons.prems(2) by (simp add: p)
  moreover have "clock_ok (pt_first ts) ps" using Cons.prems(2) by (simp add: p)
  ultimately have "(\<exists>x. r = Inr x) \<and> list_all (\<lambda>r. \<exists>x. r = Inr x) rs' \<and>
      th_inv fs rate (clock_end (pt_first ts) ps) ((hs @ handed [r]) @ handed rs') b'"
    using Cons.IH [OF _ _ rest(1)] by blast
  then show ?case
    using handed_append [of "[r]" rs'] by (simp add: p rest(2))
qed simp

section \<open>Properties\<close>

text \<open>C11. Let a body with fewer than \<open>2 ^ 64\<close> bytes be throttled to a positive rate, let the clock never
  go back, and let a sleep never complete before its deadline.  Then for every sequence of polls, ready
  or not: no poll panics; the frames handed out, the one held back and the ones not yet read are
  together the original frames in their order; and the bytes handed out so far are at most the rate
  times the time since the first data frame was read, up to half a nanosecond of rounding.\<close>

theorem throttle_rate_bound:
  assumes "0 < rate" "bytes_of fs < 2 ^ 64" "clock_ok t ps" "\<And>d u. sleep_done d u \<Longrightarrow> d \<le> u"
    and "th_polls sleep_done oc ps (th_new fs rate) = (rs, b)"
  shows "list_all (\<lambda>r. \<exists>x. r = Inr x) rs \<and>
     handed rs @ waiting b @ th_inner b = fs \<and>
     (case th_start b of
        None \<Rightarrow> bytes_of (handed rs) = 0
      | Some s \<Rightarrow> real (bytes_of (handed rs)) * 1000000000
                    \<le> real rate * (real_of_int (clock_end t ps - s) + 1 / 2))"
  using th_polls_inv [OF th_inv_new assms(3,1,2,4,5)]
  by (auto simp: th_inv_def in_rate_def split: option.splits)

definition throttle_example_polls :: "(bool \<times> poll_times) list" where
  "throttle_example_polls =
     map (\<lambda>t. (True, \<lparr>pt_pending = t, pt_now = t, pt_elapsed = t, pt_sleep = t, pt_first = t\<rparr>))
       [0, 1000000000, 2000000000, 2000000001]"

theorem throttle_rate_bound_witness:
  "th_polls (\<le>) True throttle_example_polls (th_new [Inr (Data ''abcd''), Inr (Trailers [])] 2) =
     ([Inr Pending, Inr Pending, Inr (Ready (Some (Inr (Data ''abcd'')))), Inr (Ready (Some (Inr (Trailers []))))],
      \<lparr>th_inner = [], th_rate = 2, th_delivered = 4, th_start = Some 0, th_pending = None\<rparr>) \<and>
   real 4 * 1000000000 \<le> real 2 * (real_of_int (2000000001 - 0) + 1 / 2)"
proof -
  have run: "th_polls (\<le>) True throttle_example_polls (th_new [Inr (Data ''abcd''), Inr (Trailers [])] 2) =
     ([Inr Pending, Inr Pending, Inr (Ready (Some (Inr (Data ''abcd'')))), Inr (Ready (Some (Inr (Trailers []))))],
      \<lparr>th_inner = [], th_rate = 2, th_delivered = 4, th_start = Some 0, th_pending = None\<rparr>)"
    by (simp add: throttle_example_polls_def th_new_def th_poll_frame_def th_throttle_def Let_def u64_add_def
        f64_div_def from_secs_f64_def round_half_even_def duration_since_def)
  show ?thesis
    using throttle_rate_bound [OF _ _ _ _ run, of 0] run
    by (simp add: throttle_example_polls_def)
qed

end
