(* ===== verification/Traffic_Logger.thy ===== *)
theory Traffic_Logger
  imports Rust_Text
begin

text \<open>
  The traffic logger, \<^verbatim>\<open>src/src/middleware/traffic_logger.rs\<close>.  The writer is a cell that holds the lines
  written so far; errors of the writer are ignored by the code.  \<open>fmt_uri\<close> and \<open>canonical_reason\<close> are the
  \<^verbatim>\<open>http\<close> crate's printing of URIs and its table of reason phrases.

  Shown here: what the log holds after an exchange is computed from the messages with every redacted
  value masked, so no redacted value can be read off it; and which part of the response the logger
  changes.
\<close>

section \<open>Redaction policy\<close>

definition default_redacted_headers :: "string list" where
  "default_redacted_headers =
     [''authorization'', ''proxy-authorization'', ''cookie'', ''set-cookie'', ''x-api-key'', ''api-key'']"

definition redacted_placeholder :: string where
  "redacted_placeholder = ''<redacted>''"

definition default_redactions :: "(string \<Rightarrow> string option) \<Rightarrow> string list" where
  "default_redactions header_name = remdups (List.map_filter header_name default_redacted_headers)"

record traffic_logger =
  tl_log_bodies :: bool
  tl_redact :: bool
  tl_redactions :: "string list"

definition tl_new :: "(string \<Rightarrow> string option) \<Rightarrow> traffic_logger" where
  "tl_new header_name =
     \<lparr>tl_log_bodies = False, tl_redact = True, tl_redactions = default_redactions header_name\<rparr>"

definition tl_set_log_bodies :: "bool \<Rightarrow> traffic_logger \<Rightarrow> traffic_logger" where
  "tl_set_log_bodies enable l = l\<lparr>tl_log_bodies := enable\<rparr>"

definition tl_set_redact :: "bool \<Rightarrow> traffic_logger \<Rightarrow> traffic_logger" where
  "tl_set_redact enable l = l\<lparr>tl_redact := enable\<rparr>"

definition tl_redact_headers :: "(string \<Rightarrow> string option) \<Rightarrow> string list \<Rightarrow> traffic_logger \<Rightarrow> traffic_logger" where
  "tl_redact_headers header_name names l =
     fold (\<lambda>n l. case header_name n of
                   Some k \<Rightarrow> l\<lparr>tl_redactions := List.insert k (tl_redactions l)\<rparr>
                 | None \<Rightarrow> l) names l"

definition tl_reveal_headers :: "(string \<Rightarrow> string option) \<Rightarrow> string list \<Rightarrow> traffic_logger \<Rightarrow> traffic_logger" where
  "tl_reveal_headers header_name names l =
     fold (\<lambda>n l. case header_name n of
                   Some k \<Rightarrow> l\<lparr>tl_redactions := removeAll k (tl_redactions l)\<rparr>
                 | None \<Rightarrow> l) names l"

record redactor =
  rd_enabled :: bool
  rd_headers :: "string list"

definition tl_redactor :: "traffic_logger \<Rightarrow> redactor" where
  "tl_redactor l = \<lparr>rd_enabled = tl_redact l, rd_headers = tl_redactions l\<rparr>"

definition is_redacted :: "redactor \<Rightarrow> string \<Rightarrow> bool" where
  "is_redacted r n = (rd_enabled r \<and> List.member (rd_headers r) n)"

section \<open>Lines\<close>

fun format_version :: "http_version \<Rightarrow> string" where
  "format_version HTTP_09 = ''HTTP/0.9''"
| "format_version HTTP_10 = ''HTTP/1.0''"
| "format_version HTTP_11 = ''HTTP/1.1''"
| "format_version HTTP_2 = ''HTTP/2''"
| "format_version HTTP_3 = ''HTTP/3''"

definition log_headers :: "string \<Rightarrow> headers \<Rightarrow> redactor \<Rightarrow> string list" where
  "log_headers prefix h r =
     map (\<lambda>(n, v). let rendered = (if is_redacted r n then redacted_placeholder
                                   else case to_str v of Some s \<Rightarrow> s | None \<Rightarrow> ''<binary>'')
                   in prefix @ '' '' @ n @ '': '' @ rendered) h"

definition log_body_content :: "string \<Rightarrow> string \<Rightarrow> string list" where
  "log_body_content prefix bytes =
     (prefix @ '' [body: '' @ show_nat (length bytes) @ '' bytes]'') #
     (if bytes = [] then []
      else case from_utf8 bytes of
             Some text \<Rightarrow> map (\<lambda>line. prefix @ '' '' @ line) (lines_of text)
           | None \<Rightarrow> [prefix @ '' <binary>''])"

definition tl_request_lines :: "(uri \<Rightarrow> string) \<Rightarrow> redactor \<Rightarrow> request \<Rightarrow> string list" where
  "tl_request_lines fmt_uri r req =
     [''> '' @ req_method req @ '' '' @ fmt_uri (req_uri req) @ '' '' @ format_version (req_version req)] @
     log_headers ''>'' (req_headers req) r @ [''>'']"

definition tl_status_lines :: "(nat \<Rightarrow> string option) \<Rightarrow> redactor \<Rightarrow> response \<Rightarrow> string list" where
  "tl_status_lines canonical_reason r resp =
     [''< '' @ format_version (resp_version resp) @ '' '' @ show_nat (resp_status resp) @ '' '' @
        (case canonical_reason (resp_status resp) of Some s \<Rightarrow> s | None \<Rightarrow> [])] @
     log_headers ''<'' (resp_headers resp) r @ [''<'']"

definition tl_body_lines ::
  "(nat \<Rightarrow> string option) \<Rightarrow> redactor \<Rightarrow> response \<Rightarrow> string \<Rightarrow> duration \<Rightarrow> string list"
where
  "tl_body_lines canonical_reason r resp bytes elapsed =
     tl_status_lines canonical_reason r resp @ log_body_content ''<'' bytes @
     [''<'', ''* Completed in '' @ show_duration elapsed, []]"

definition tl_plain_lines :: "(nat \<Rightarrow> string option) \<Rightarrow> redactor \<Rightarrow> response \<Rightarrow> duration \<Rightarrow> string list" where
  "tl_plain_lines canonical_reason r resp elapsed =
     (let content_length = Option.bind (Option.bind (hdr_get (resp_headers resp) ''content-length'') to_str) parse_u64
      in tl_status_lines canonical_reason r resp @
         [case content_length of
            Some len \<Rightarrow> ''* Completed in '' @ show_duration elapsed @ '', '' @ show_nat len @ '' bytes''
          | None \<Rightarrow> ''* Completed in '' @ show_duration elapsed, []])"

section \<open>Service\<close>

definition write_lines :: "('w, string list mutex) cell \<Rightarrow> string list \<Rightarrow> 'w \<Rightarrow> unit result \<times> 'w" where
  "write_lines writer ls = lock_cell writer (\<lambda>log. Inr ((), log @ ls))"

definition tl_respond ::
  "'w env \<Rightarrow> ('w, string list mutex) cell \<Rightarrow> (nat \<Rightarrow> string option) \<Rightarrow> bool \<Rightarrow> redactor \<Rightarrow> instant \<Rightarrow>
   response \<Rightarrow> 'w future"
where
  "tl_respond env writer canonical_reason log_bodies r start resp w =
     (case env_now env w of (now, w1) \<Rightarrow>
        let elapsed = duration_since now start
        in if log_bodies then
             (case collect_frames (body_frames (resp_body resp)) of
                Inl e \<Rightarrow> (Inl e, w1)
              | Inr bytes \<Rightarrow>
                  (case write_lines writer (tl_body_lines canonical_reason r resp bytes elapsed) w1 of
                     (Inl e, w2) \<Rightarrow> (Inl e, w2)
                   | (Inr _, w2) \<Rightarrow> (Inr (resp\<lparr>resp_body := full_body bytes\<rparr>), w2)))
           else
             (case write_lines writer (tl_plain_lines canonical_reason r resp elapsed) w1 of
                (Inl e, w2) \<Rightarrow> (Inl e, w2)
              | (Inr _, w2) \<Rightarrow> (Inr resp, w2)))"

definition tl_call ::
  "'w env \<Rightarrow> ('w, string list mutex) cell \<Rightarrow> (uri \<Rightarrow> string) \<Rightarrow> (nat \<Rightarrow> string option) \<Rightarrow>
   traffic_logger \<Rightarrow> 'w layer"
where
  "tl_call env writer fmt_uri canonical_reason l inner req w =
     (case env_now env w of (start, w1) \<Rightarrow>
      case write_lines writer (tl_request_lines fmt_uri (tl_redactor l) req) w1 of
        (Inl e, w2) \<Rightarrow> (ready (Inl e), w2)
      | (Inr _, w2) \<Rightarrow>
          (case inner req w2 of (fut, w3) \<Rightarrow>
             (await_ok fut (tl_respond env writer canonical_reason (tl_log_bodies l) (tl_redactor l) start), w3)))"

section \<open>Masked messages\<close>

text \<open>Every redacted value is hidden, except that of \<^verbatim>\<open>Content-Length\<close>, whose number the last line of an
  exchange prints whether the header is redacted or not.\<close>

definition mask_headers :: "redactor \<Rightarrow> headers \<Rightarrow> headers" where
  "mask_headers r h = map (\<lambda>(n, v). (n, if is_redacted r n \<and> n \<noteq> ''content-length'' then Visible [] else v)) h"

definition mask_request :: "redactor \<Rightarrow> request \<Rightarrow> request" where
  "mask_request r req = req\<lparr>req_headers := mask_headers r (req_headers req)\<rparr>"

definition mask_response :: "redactor \<Rightarrow> response \<Rightarrow> response" where
  "mask_response r resp = resp\<lparr>resp_headers := mask_headers r (resp_headers resp)\<rparr>"

text \<open>The lines of the response half of an exchange that ended with the answer \<open>out\<close>.\<close>

definition tl_exchange_lines ::
  "(nat \<Rightarrow> string option) \<Rightarrow> traffic_logger \<Rightarrow> response \<Rightarrow> duration \<Rightarrow> string list"
where
  "tl_exchange_lines canonical_reason l out elapsed =
     (if tl_log_bodies l
      then (case collect_frames (body_frames (resp_body out)) of
              Inl _ \<Rightarrow> []
            | Inr bytes \<Rightarrow> tl_body_lines canonical_reason (tl_redactor l) out bytes elapsed)
      else tl_plain_lines canonical_reason (tl_redactor l) out elapsed)"

lemma log_headers_mask: "log_headers prefix (mask_headers r h) r = log_headers prefix h r"
  by (auto simp: log_headers_def mask_headers_def Let_def)

lemma hdr_get_content_length_mask: "hdr_get (mask_headers r h) ''content-length'' = hdr_get h ''content-length''"
proof (induction h)
  case (Cons nv h)
  then show ?case by (cases nv) (simp add: hdr_get_def mask_headers_def)
qed (simp add: hdr_get_def mask_headers_def)

lemma request_lines_mask: "tl_request_lines fmt_uri r (mask_request r req) = tl_request_lines fmt_uri r req"
  by (simp add: tl_request_lines_def mask_request_def log_headers_mask)

lemma exchange_lines_mask:
  "tl_exchange_lines cr l (mask_response (tl_redactor l) out) elapsed = tl_exchange_lines cr l out elapsed"
  by (simp add: tl_exchange_lines_def tl_body_lines_def tl_plain_lines_def tl_status_lines_def
      mask_response_def log_headers_mask hdr_get_content_length_mask split: sum.split)

lemma tl_body_lines_body [simp]:
  "tl_body_lines cr r (resp\<lparr>resp_body := b\<rparr>) bytes elapsed = tl_body_lines cr r resp bytes elapsed"
  by (simp add: tl_body_lines_def tl_status_lines_def)

lemma write_lines_unlocked:
  assumes "shared_cell writer" "cell_get writer w = Unlocked ls0"
  shows "\<exists>w'. write_lines writer ls w = (Inr (), w') \<and> cell_get writer w' = Unlocked (ls0 @ ls)"
  using assms by (simp add: write_lines_def lock_cell_def shared_cell_def)

lemma tl_respond_lines:
  assumes cell: "shared_cell writer" and now: "cell_get writer (snd (env_now env w)) = Unlocked ls0"
    and run: "tl_respond env writer cr (tl_log_bodies l) (tl_redactor l) start resp w = (Inr out, w')"
  shows "\<exists>elapsed. cell_get writer w' = Unlocked (ls0 @ tl_exchange_lines cr l out elapsed)"
proof -
  obtain t w1 where t: "env_now env w = (t, w1)" by fastforce
  with now have w1: "cell_get writer w1 = Unlocked ls0" by simp
  note wr = write_lines_unlocked [OF cell w1]
  show ?thesis
  proof (cases "tl_log_bodies l")
    case True
    obtain bytes where b: "collect_frames (body_frames (resp_body resp)) = Inr bytes"
      using run True by (auto simp: tl_respond_def t split: sum.splits)
    obtain w2 where "write_lines writer (tl_body_lines cr (tl_redactor l) resp bytes (duration_since t start)) w1 = (Inr (), w2)"
      "cell_get writer w2 = Unlocked (ls0 @ tl_body_lines cr (tl_redactor l) resp bytes (duration_since t start))"
      using wr by blast
    then have "out = resp\<lparr>resp_body := full_body bytes\<rparr> \<and> w' = w2 \<and>
      cell_get writer w2 = Unlocked (ls0 @ tl_exchange_lines cr l (resp\<lparr>resp_body := full_body bytes\<rparr>) (duration_since t start))"
      using run True b by (auto simp: tl_respond_def t tl_exchange_lines_def)
    then show ?thesis by blast
  next
    case False
    obtain w2 where "write_lines writer (tl_plain_lines cr (tl_redactor l) resp (duration_since t start)) w1 = (Inr (), w2)"
      "cell_get writer w2 = Unlocked (ls0 @ tl_plain_lines cr (tl_redactor l) resp (duration_since t start))"
      using wr by blast
    then have "out = resp \<and> w' = w2 \<and>
      cell_get writer w2 = Unlocked (ls0 @ tl_exchange_lines cr l resp (duration_since t start))"
      using run False by (auto simp: tl_respond_def t tl_exchange_lines_def)
    then show ?thesis by blast
  qed
qed

text \<open>Unless bodies are logged, the answer is the inner response itself; with body logging its frames
  become one, and trailers are lost.\<close>

lemma tl_respond_out:
  assumes "tl_respond env writer cr lb r start resp w = (Inr out, w')"
  shows "\<not> lb \<Longrightarrow> out = resp"
    and "lb \<Longrightarrow> \<exists>bytes. collect_frames (body_frames (resp_body resp)) = Inr bytes \<and>
            out = resp\<lparr>resp_body := full_body bytes\<rparr>"
  using assms by (auto simp: tl_respond_def Let_def split: prod.splits sum.splits if_splits)

lemma tl_drops_trailers:
  "collect_frames [Inr (Data d), Inr (Trailers t)] = Inr d \<and>
   body_frames (full_body d) \<noteq> [Inr (Data d), Inr (Trailers t)]"
  by (simp add: full_body_def)

section \<open>Properties\<close>


definition log_example_cell :: "(string list mutex, string list mutex) cell" where
  "log_example_cell = \<lparr>cell_get = (\<lambda>w. w), cell_put = (\<lambda>s _. s)\<rparr>"

definition log_example_env :: "string list mutex env" where
  "log_example_env = \<lparr>env_now = (\<lambda>w. (0, w)), env_sleep = (\<lambda>_ w. w)\<rparr>"

definition log_example_request :: request where
  "log_example_request =
     \<lparr>req_method = ''GET'',
      req_uri = \<lparr>uri_scheme = None, uri_authority = None, uri_path_and_query = Some (''/'', None)\<rparr>,
      req_version = HTTP_11, req_headers = [(''authorization'', Visible ''secret''), (''accept'', Visible ''*'')],
      req_target = None, req_body = empty_body\<rparr>"

definition log_example_inner :: "string list mutex service" where
  "log_example_inner req w = (ready (Inr (response_with 204 empty_body)), w)"

lemma log_example_simps:
  "cell_get log_example_cell w = w" "env_now log_example_env w = (0, w)"
  "log_example_inner req w = (ready (Inr (response_with 204 empty_body)), w)"
  by (simp_all add: log_example_cell_def log_example_env_def log_example_inner_def)

lemma log_example_shared: "shared_cell log_example_cell"
  by unfold_locales (simp_all add: log_example_cell_def)


end
