(* ===== verification/Script_Shim.thy ===== *)
theory Script_Shim
  imports Rust_Text "HOL-Library.AList"
begin

text \<open>
  The runtime shim of scripted middleware, \<^verbatim>\<open>src/src/middleware/script_runtime.js\<close>.  The engine and the
  user's script are not modelled, but everything the script can do with the objects of the shim is: a run
  of the user's handler is a tree of uses of \<open>Headers\<close>, \<open>Request\<close>, \<open>Response\<close>, \<open>respond\<close> and \<open>env\<close>, each with the
  continuation that receives its answer.  The objects live in a heap, since scripts share and change them;
  a reference is an address.  \<open>noxy_handle\<close> turns such a tree into the sequence of operations the shim asks
  the proxy for.

  A JavaScript string that becomes a body is the list of its UTF-16 code units.  Method, URL, header names
  and values are the ASCII strings the \<^verbatim>\<open>http\<close> crate admits.  A body argument is a string, bytes or nothing;
  other values are left out, and so is the use of \<open>Deno.core\<close> by the script itself.

  Shown here: the encoder is UTF-8 on well-formed strings; a map of headers keeps the last value of a name;
  whatever a script does, the inner service is asked at most once.
\<close>

unbundle bit_operations_syntax

section \<open>Text\<close>

text \<open>\<open>charCodeAt\<close> past the end is \<open>NaN\<close>, which counts as 0 in the bit operations.\<close>

definition utf8_4 :: "nat \<Rightarrow> nat list" where
  "utf8_4 c = [0xF0 OR drop_bit 18 c, 0x80 OR (drop_bit 12 c AND 0x3F), 0x80 OR (drop_bit 6 c AND 0x3F), 0x80 OR (c AND 0x3F)]"

fun encode_units :: "nat list \<Rightarrow> nat list" where
  "encode_units [] = []"
| "encode_units (c # cs) =
     (if c < 0x80 then c # encode_units cs
      else if c < 0x800 then (0xC0 OR drop_bit 6 c) # (0x80 OR (c AND 0x3F)) # encode_units cs
      else if 0xD800 \<le> c \<and> c \<le> 0xDBFF then
        (case cs of
           [] \<Rightarrow> utf8_4 0
         | lo # cs' \<Rightarrow> utf8_4 (0x10000 + push_bit 10 (c - 0xD800) + lo - 0xDC00) @ encode_units cs')
      else (0xE0 OR drop_bit 12 c) # (0x80 OR (drop_bit 6 c AND 0x3F)) # (0x80 OR (c AND 0x3F)) # encode_units cs)"

definition encode_utf8 :: "nat list \<Rightarrow> string" where
  "encode_utf8 s = map char_of (encode_units s)"

section \<open>Headers\<close>

type_synonym header_map = "(string \<times> string) list"

definition to_lower :: "string \<Rightarrow> string" where
  "to_lower = map ascii_lower"

definition hm_set :: "string \<Rightarrow> string \<Rightarrow> header_map \<Rightarrow> header_map" where
  "hm_set name v m = AList.update (to_lower name) v m"

definition hm_new :: "(string \<times> string) list \<Rightarrow> header_map" where
  "hm_new init = fold (\<lambda>(k, v). hm_set k v) init []"

definition hm_get :: "header_map \<Rightarrow> string \<Rightarrow> string option" where
  "hm_get m name = map_of m (to_lower name)"

definition hm_delete :: "string \<Rightarrow> header_map \<Rightarrow> header_map" where
  "hm_delete name m = AList.delete (to_lower name) m"

definition hm_has :: "header_map \<Rightarrow> string \<Rightarrow> bool" where
  "hm_has m name \<longleftrightarrow> hm_get m name \<noteq> None"

section \<open>Objects\<close>

datatype js_body = No_Body | Text_Body "nat list" | Bytes_Body string

definition body_bytes :: "js_body \<Rightarrow> string option" where
  "body_bytes b = (case b of No_Body \<Rightarrow> None | Text_Body t \<Rightarrow> Some (encode_utf8 t) | Bytes_Body d \<Rightarrow> Some d)"

record request_obj =
  ro_method :: string
  ro_url :: string
  ro_headers :: nat
  ro_body_consumed :: bool

record response_obj =
  so_status :: nat
  so_headers :: nat
  so_custom_body :: "string option"
  so_from_upstream :: bool
  so_body_consumed :: bool

text \<open>The heap, and the flag \<open>responded\<close> of \<open>__noxy_handle\<close>.\<close>

record shim =
  sh_headers :: "header_map list"
  sh_requests :: "request_obj list"
  sh_responses :: "response_obj list"
  sh_responded :: bool

definition new_headers :: "header_map \<Rightarrow> shim \<Rightarrow> nat \<times> shim" where
  "new_headers m s = (length (sh_headers s), s\<lparr>sh_headers := sh_headers s @ [m]\<rparr>)"

definition new_request :: "string \<Rightarrow> string \<Rightarrow> (string \<times> string) list \<Rightarrow> shim \<Rightarrow> nat \<times> shim" where
  "new_request method url init s =
     (case new_headers (hm_new init) s of (h, s1) \<Rightarrow>
        (length (sh_requests s1),
         s1\<lparr>sh_requests := sh_requests s1 @ [\<lparr>ro_method = method, ro_url = url, ro_headers = h, ro_body_consumed = False\<rparr>]\<rparr>))"

text \<open>The \<open>headers\<close> of an \<open>init\<close>: an object of class \<open>Headers\<close>, which is kept, or entries.\<close>

datatype headers_init = Headers_Object nat | Headers_Entries "(string \<times> string) list"

definition init_headers :: "headers_init option \<Rightarrow> shim \<Rightarrow> nat \<times> shim" where
  "init_headers h s =
     (case h of
        Some (Headers_Object a) \<Rightarrow> (a, s)
      | Some (Headers_Entries es) \<Rightarrow> new_headers (hm_new es) s
      | None \<Rightarrow> new_headers (hm_new []) s)"

definition push_response :: "response_obj \<Rightarrow> shim \<Rightarrow> nat \<times> shim" where
  "push_response r s = (length (sh_responses s), s\<lparr>sh_responses := sh_responses s @ [r]\<rparr>)"

definition new_response :: "js_body \<Rightarrow> nat option \<Rightarrow> headers_init option \<Rightarrow> shim \<Rightarrow> nat \<times> shim" where
  "new_response b status h s =
     (case init_headers h s of (a, s1) \<Rightarrow>
        push_response \<lparr>so_status = (case status of Some n \<Rightarrow> n | None \<Rightarrow> 200), so_headers = a,
          so_custom_body = Some (case body_bytes b of Some d \<Rightarrow> d | None \<Rightarrow> []), so_from_upstream = False,
          so_body_consumed = False\<rparr> s1)"

definition from_upstream :: "nat \<Rightarrow> (string \<times> string) list \<Rightarrow> shim \<Rightarrow> nat \<times> shim" where
  "from_upstream status headers s =
     (case init_headers (Some (Headers_Entries headers)) s of (a, s1) \<Rightarrow>
        push_response \<lparr>so_status = status, so_headers = a, so_custom_body = None, so_from_upstream = True,
          so_body_consumed = False\<rparr> s1)"

definition is_passthrough :: "response_obj \<Rightarrow> bool" where
  "is_passthrough r \<longleftrightarrow> so_from_upstream r \<and> \<not> so_body_consumed r \<and> so_custom_body r = None"

section \<open>Operations the shim asks for\<close>

record request_meta =
  rm_method :: string
  rm_url :: string
  rm_headers :: "(string \<times> string) list"

record response_meta =
  rsm_status :: nat
  rsm_headers :: "(string \<times> string) list"

datatype js =
    Js_Return
  | Js_Throw string
  | Js_Req_Body "string result \<Rightarrow> js"
  | Js_Respond request_meta "string option" "response_meta result \<Rightarrow> js"
  | Js_Res_Body "string result \<Rightarrow> js"
  | Js_Env_Get string "string option \<Rightarrow> js"
  | Js_Finish nat "(string \<times> string) list" "string option" bool js

section \<open>Runs of a handler\<close>

text \<open>What a handler does next.  A use that can throw passes the exception to its continuation, where the
  script may catch it.  \<open>H_Return None\<close> is the return of something that is not a \<open>Response\<close>.\<close>

datatype handler =
    H_Return "nat option"
  | H_Throw string
  | H_Req_Body nat "string result \<Rightarrow> handler"
  | H_Res_Body nat "string result \<Rightarrow> handler"
  | H_Respond nat js_body "nat result \<Rightarrow> handler"
  | H_Env_Get string "string option \<Rightarrow> handler"
  | H_New_Headers "(string \<times> string) list" "nat \<Rightarrow> handler"
  | H_New_Request string string "(string \<times> string) list" "nat \<Rightarrow> handler"
  | H_New_Response js_body "nat option" "headers_init option" "nat \<Rightarrow> handler"
  | H_Headers_Get nat string "string option \<Rightarrow> handler"
  | H_Headers_Has nat string "bool \<Rightarrow> handler"
  | H_Headers_Entries nat "header_map \<Rightarrow> handler"
  | H_Headers_Set nat string string handler
  | H_Headers_Delete nat string handler
  | H_Get_Request nat "string \<times> string \<times> nat \<Rightarrow> handler"
  | H_Set_Request nat string string nat handler
  | H_Get_Response nat "nat \<times> nat \<Rightarrow> handler"
  | H_Set_Response nat nat nat handler

text \<open>Reference to an object: a script only has the addresses it was given.\<close>

definition deref :: "'a list \<Rightarrow> nat \<Rightarrow> ('a \<Rightarrow> js) \<Rightarrow> js" where
  "deref xs a f = (if a < length xs then f (xs ! a) else Js_Throw ''TypeError'')"

definition finish_response :: "header_map list \<Rightarrow> response_obj \<Rightarrow> js" where
  "finish_response hs r =
     deref hs (so_headers r) (\<lambda>entries.
       if is_passthrough r then Js_Finish (so_status r) entries None True Js_Return
       else Js_Finish (so_status r) entries (Some (case so_custom_body r of Some d \<Rightarrow> d | None \<Rightarrow> [])) False Js_Return)"

primrec shim_run :: "handler \<Rightarrow> shim \<Rightarrow> js" where
  "shim_run (H_Return v) s =
     (case v of
        Some a \<Rightarrow> deref (sh_responses s) a (finish_response (sh_headers s))
      | None \<Rightarrow> Js_Throw ''Handler must return a Response'')"
| "shim_run (H_Throw e) s = Js_Throw e"
| "shim_run (H_Req_Body a k) s =
     deref (sh_requests s) a (\<lambda>r.
       if ro_body_consumed r then shim_run (k (Inl (Box_Error ''Body already consumed''))) s
       else Js_Req_Body (\<lambda>d. shim_run (k d) (s\<lparr>sh_requests := (sh_requests s)[a := r\<lparr>ro_body_consumed := True\<rparr>]\<rparr>)))"
| "shim_run (H_Res_Body a k) s =
     deref (sh_responses s) a (\<lambda>r.
       if so_body_consumed r then shim_run (k (Inl (Box_Error ''Body already consumed''))) s
       else let s1 = s\<lparr>sh_responses := (sh_responses s)[a := r\<lparr>so_body_consumed := True\<rparr>]\<rparr>
            in case so_custom_body r of
                 Some d \<Rightarrow> shim_run (k (Inr d)) s1
               | None \<Rightarrow> Js_Res_Body (\<lambda>d. shim_run (k d) s1))"
| "shim_run (H_Respond a b k) s =
     (if sh_responded s then shim_run (k (Inl (Box_Error ''respond() already called''))) s
      else deref (sh_requests s) a (\<lambda>r.
         deref (sh_headers s) (ro_headers r) (\<lambda>entries.
         Js_Respond \<lparr>rm_method = ro_method r, rm_url = ro_url r, rm_headers = entries\<rparr> (body_bytes b) (\<lambda>reply.
           let s1 = s\<lparr>sh_responded := True\<rparr>
           in case reply of
                Inl e \<Rightarrow> shim_run (k (Inl e)) s1
              | Inr m \<Rightarrow>
                  (case from_upstream (rsm_status m) (rsm_headers m) s1 of (addr, s2) \<Rightarrow> shim_run (k (Inr addr)) s2)))))"
| "shim_run (H_Env_Get key k) s = Js_Env_Get key (\<lambda>v. shim_run (k v) s)"
| "shim_run (H_New_Headers init k) s = (case new_headers (hm_new init) s of (a, s1) \<Rightarrow> shim_run (k a) s1)"
| "shim_run (H_New_Request method url init k) s =
     (case new_request method url init s of (a, s1) \<Rightarrow> shim_run (k a) s1)"
| "shim_run (H_New_Response b status h k) s =
     (case new_response b status h s of (a, s1) \<Rightarrow> shim_run (k a) s1)"
| "shim_run (H_Headers_Get a name k) s = deref (sh_headers s) a (\<lambda>m. shim_run (k (hm_get m name)) s)"
| "shim_run (H_Headers_Has a name k) s = deref (sh_headers s) a (\<lambda>m. shim_run (k (hm_has m name)) s)"
| "shim_run (H_Headers_Entries a k) s = deref (sh_headers s) a (\<lambda>m. shim_run (k m) s)"
| "shim_run (H_Headers_Set a name v k) s =
     deref (sh_headers s) a (\<lambda>m. shim_run k (s\<lparr>sh_headers := (sh_headers s)[a := hm_set name v m]\<rparr>))"
| "shim_run (H_Headers_Delete a name k) s =
     deref (sh_headers s) a (\<lambda>m. shim_run k (s\<lparr>sh_headers := (sh_headers s)[a := hm_delete name m]\<rparr>))"
| "shim_run (H_Get_Request a k) s = deref (sh_requests s) a (\<lambda>r. shim_run (k (ro_method r, ro_url r, ro_headers r)) s)"
| "shim_run (H_Set_Request a method url h k) s =
     deref (sh_requests s) a (\<lambda>r. shim_run k
       (s\<lparr>sh_requests := (sh_requests s)[a := r\<lparr>ro_method := method, ro_url := url, ro_headers := h\<rparr>]\<rparr>))"
| "shim_run (H_Get_Response a k) s = deref (sh_responses s) a (\<lambda>r. shim_run (k (so_status r, so_headers r)) s)"
| "shim_run (H_Set_Response a status h k) s =
     deref (sh_responses s) a (\<lambda>r. shim_run k
       (s\<lparr>sh_responses := (sh_responses s)[a := r\<lparr>so_status := status, so_headers := h\<rparr>]\<rparr>))"

definition noxy_handle :: "(nat \<Rightarrow> handler) \<Rightarrow> request_meta \<Rightarrow> js" where
  "noxy_handle handler m =
     (case new_request (rm_method m) (rm_url m) (rm_headers m)
             \<lparr>sh_headers = [], sh_requests = [], sh_responses = [], sh_responded = False\<rparr> of
        (a, s) \<Rightarrow> shim_run (handler a) s)"

section \<open>Lemmas\<close>

text \<open>No script asks the inner service twice.\<close>

primrec js_responds :: "nat \<Rightarrow> js \<Rightarrow> bool" where
  "js_responds n Js_Return = True"
| "js_responds n (Js_Throw e) = True"
| "js_responds n (Js_Req_Body k) = (\<forall>r. js_responds n (k r))"
| "js_responds n (Js_Respond m b k) = (0 < n \<and> (\<forall>r. js_responds (n - 1) (k r)))"
| "js_responds n (Js_Res_Body k) = (\<forall>r. js_responds n (k r))"
| "js_responds n (Js_Env_Get key k) = (\<forall>v. js_responds n (k v))"
| "js_responds n (Js_Finish status hs b p k) = js_responds n k"

lemma shim_responded [simp]:
  "sh_responded (snd (new_headers m s)) = sh_responded s" "sh_responded (snd (new_request me u init s)) = sh_responded s"
  "sh_responded (snd (new_response b status h s)) = sh_responded s"
  "sh_responded (snd (from_upstream n hs s)) = sh_responded s"
  by (auto simp: new_headers_def new_request_def new_response_def from_upstream_def push_response_def init_headers_def
      split: option.split headers_init.split)

definition within_budget :: "shim \<Rightarrow> js \<Rightarrow> bool" where
  "within_budget s j \<longleftrightarrow> js_responds (if sh_responded s then 0 else 1) j"

lemma within_budget_simps [simp]:
  "within_budget s Js_Return" "within_budget s (Js_Throw e)"
  "within_budget s (Js_Req_Body k1) \<longleftrightarrow> (\<forall>r. within_budget s (k1 r))"
  "within_budget s (Js_Res_Body k1) \<longleftrightarrow> (\<forall>r. within_budget s (k1 r))"
  "within_budget s (Js_Env_Get key k2) \<longleftrightarrow> (\<forall>v. within_budget s (k2 v))"
  "within_budget s (Js_Finish st hs b p j) \<longleftrightarrow> within_budget s j"
  "\<not> sh_responded s \<Longrightarrow>
     within_budget s (Js_Respond m b k3) \<longleftrightarrow> (\<forall>r. within_budget (s\<lparr>sh_responded := True\<rparr>) (k3 r))"
  by (simp_all add: within_budget_def)

lemma within_budget_deref: "(\<And>x. within_budget s (f x)) \<Longrightarrow> within_budget s (deref xs a f)"
  by (simp add: deref_def)

lemma within_budget_same: "within_budget s' (shim_run h s') \<Longrightarrow> sh_responded s' = sh_responded s \<Longrightarrow> within_budget s (shim_run h s')"
  by (simp add: within_budget_def)

lemma shim_run_within_budget: "within_budget s (shim_run h s)"
proof (induction h arbitrary: s)
  case (H_Respond a b k)
  then have "within_budget (s\<lparr>sh_responded := True\<rparr>)
      (shim_run (k r) (snd (from_upstream n hs (s\<lparr>sh_responded := True\<rparr>))))" for r n hs
    by (intro within_budget_same [OF H_Respond]) simp_all
  with H_Respond show ?case
    by (auto intro!: within_budget_deref simp: Let_def case_prod_beta split: sum.split)
next
  case (H_Return v)
  then show ?case by (auto intro!: within_budget_deref simp: finish_response_def split: option.split)
next
  case (H_Res_Body a k)
  then have "within_budget s (shim_run (k r) (s\<lparr>sh_responses := rs\<rparr>))" for r rs
    by (intro within_budget_same [OF H_Res_Body]) simp_all
  with H_Res_Body show ?case
    by (auto intro!: within_budget_deref simp: Let_def split: option.split)
qed (auto intro!: within_budget_deref simp: case_prod_beta, (rule within_budget_same, auto)+)

lemma noxy_handle_responds: "js_responds 1 (noxy_handle handler m)"
proof -
  define s where "s = snd (new_request (rm_method m) (rm_url m) (rm_headers m)
     \<lparr>sh_headers = [], sh_requests = [], sh_responses = [], sh_responded = False\<rparr>)"
  have "\<not> sh_responded s" by (simp add: s_def)
  then have "js_responds 1 (shim_run h s)" for h
    using shim_run_within_budget [of s h] by (simp add: within_budget_def)
  then show ?thesis by (simp add: noxy_handle_def case_prod_beta s_def)
qed

text \<open>The encoder on well-formed text: the UTF-16 form of a sequence of code points becomes its UTF-8 form.\<close>

definition scalar :: "nat \<Rightarrow> bool" where
  "scalar c \<longleftrightarrow> c < 0xD800 \<or> (0xE000 \<le> c \<and> c < 0x110000)"

definition utf16 :: "nat \<Rightarrow> nat list" where
  "utf16 c = (if c < 0x10000 then [c] else [0xD800 + (c - 0x10000) div 1024, 0xDC00 + (c - 0x10000) mod 1024])"

definition utf8 :: "nat \<Rightarrow> nat list" where
  "utf8 c =
     (if c < 0x80 then [c]
      else if c < 0x800 then [192 + c div 64, 128 + c mod 64]
      else if c < 0x10000 then [224 + c div 4096, 128 + c div 64 mod 64, 128 + c mod 64]
      else [240 + c div 262144, 128 + c div 4096 mod 64, 128 + c div 64 mod 64, 128 + c mod 64])"

lemma or_low_bits:
  fixes a :: nat
  assumes "x < 2 ^ k"
  shows "a * 2 ^ k OR x = a * 2 ^ k + x"
proof -
  have "(a * 2 ^ k) AND x = 0"
  proof (rule bit_eqI)
    fix n
    have "bit x n \<Longrightarrow> n < k"
      using assms by (metis bit_take_bit_iff take_bit_nat_eq_self)
    then show "bit ((a * 2 ^ k) AND x) n \<longleftrightarrow> bit 0 n"
      by (auto simp: bit_and_iff simp flip: push_bit_eq_mult simp: bit_push_bit_iff)
  qed
  then show ?thesis by (simp add: disjunctive_add_eq_or)
qed

lemmas or_bytes = or_low_bits [of _ 6 2, simplified] or_low_bits [of _ 5 6, simplified] or_low_bits [of _ 4 14, simplified]
  or_low_bits [of _ 4 15, simplified]

lemma and_63: "(c :: nat) AND 63 = c mod 64"
proof -
  have "c AND 63 = take_bit 6 c" unfolding take_bit_eq_mask by (simp add: mask_eq_exp_minus_1)
  then show ?thesis by (simp add: take_bit_eq_mod)
qed

lemmas encode_bits = and_63 or_bytes drop_bit_eq_div push_bit_eq_mult

lemma utf8_4_eq: "c < 0x110000 \<Longrightarrow> 0x10000 \<le> c \<Longrightarrow> utf8_4 c = utf8 c"
proof -
  assume "c < 0x110000" "0x10000 \<le> c"
  moreover from this have "c div 262144 < 16" by simp
  ultimately show ?thesis unfolding utf8_4_def utf8_def by (simp add: encode_bits)
qed

lemma encode_units_surrogates:
  "0xD800 \<le> hi \<Longrightarrow> hi \<le> 0xDBFF \<Longrightarrow>
     encode_units (hi # lo # cs) = utf8_4 (0x10000 + (hi - 0xD800) * 1024 + lo - 0xDC00) @ encode_units cs"
  by (subst encode_units.simps) (simp add: push_bit_eq_mult)

lemma encode_units_scalar:
  assumes "scalar c"
  shows "encode_units (utf16 c @ cs) = utf8 c @ encode_units cs"
proof -
  consider "c < 0x80" | "0x80 \<le> c" "c < 0x800" | "0x800 \<le> c" "c < 0x10000" | "0x10000 \<le> c" by linarith
  then show ?thesis
  proof cases
    case 2
    then have "c div 64 < 32" by simp
    with 2 show ?thesis by (simp add: utf16_def utf8_def encode_bits)
  next
    case 3
    then have "c div 4096 < 16" by simp
    moreover have "\<not> (0xD800 \<le> c \<and> c \<le> 0xDBFF)" using assms by (auto simp: scalar_def)
    ultimately show ?thesis using 3 by (auto simp: utf16_def utf8_def encode_bits)
  next
    case 4
    define hi where "hi = 0xD800 + (c - 0x10000) div 1024"
    define lo where "lo = 0xDC00 + (c - 0x10000) mod 1024"
    have c: "c < 0x110000" using assms 4 by (simp add: scalar_def)
    have "0xD800 \<le> hi" "hi \<le> 0xDBFF" using c 4 by (simp_all add: hi_def)
    moreover have "0x10000 + (hi - 0xD800) * 1024 + lo - 0xDC00 = c"
      using 4 by (simp add: hi_def lo_def)
    ultimately have "encode_units (hi # lo # cs) = utf8_4 c @ encode_units cs"
      by (simp add: encode_units_surrogates del: encode_units.simps)
    then show ?thesis using 4 c utf8_4_eq [OF c 4] by (simp add: utf16_def hi_def lo_def del: encode_units.simps)
  qed (simp add: utf16_def utf8_def)
qed

lemma encode_units_text: "list_all scalar cs \<Longrightarrow> encode_units (concat (map utf16 cs)) = concat (map utf8 cs)"
  by (induction cs) (simp_all add: encode_units_scalar del: encode_units.simps, simp)

lemma utf8_bytes_scalar: "scalar c \<Longrightarrow> utf8_bytes (utf8 c @ bs) \<longleftrightarrow> utf8_bytes bs"
proof -
  assume c: "scalar c"
  have m: "n mod 64 \<le> 63" for n :: nat using mod_less_divisor [of 64 n] by linarith
  consider "c < 0x80" | "0x80 \<le> c" "c < 0x800" | "0x800 \<le> c" "c < 0x10000" | "0x10000 \<le> c" by linarith
  then show ?thesis
  proof cases
    case 2
    then have "2 \<le> c div 64" "c div 64 \<le> 31" by simp_all
    with 2 show ?thesis by (simp add: utf8_def utf8_tail_def m)
  next
    case 3
    define q where "q = c div 64"
    have q: "c div 4096 = q div 64" "32 \<le> q" "q < 1024" "q < 864 \<or> 896 \<le> q"
      using 3 c div_mult2_eq [of c 64 64] by (auto simp: q_def scalar_def)
    note split = mult_div_mod_eq [of 64 q]
    have "q div 64 \<le> 15" "q div 64 = 0 \<Longrightarrow> 32 \<le> q mod 64" "q div 64 = 13 \<Longrightarrow> q mod 64 \<le> 31"
      using q(2-4) split by linarith+
    then show ?thesis using 3 by (auto simp: utf8_def utf8_tail_def m q(1) simp flip: q_def)
  next
    case 4
    define q where "q = c div 4096"
    have q: "c div 262144 = q div 64" "16 \<le> q" "q < 272"
      using 4 c div_mult2_eq [of c 4096 64] by (auto simp: q_def scalar_def)
    note split = mult_div_mod_eq [of 64 q]
    have "q div 64 \<le> 4" "q div 64 = 0 \<Longrightarrow> 16 \<le> q mod 64" "q div 64 = 4 \<Longrightarrow> q mod 64 \<le> 15"
      using q(2-3) split by linarith+
    then show ?thesis using 4 by (auto simp: utf8_def utf8_tail_def m q(1) simp flip: q_def)
  qed (simp add: utf8_def)
qed

lemma utf8_bytes_text: "list_all scalar cs \<Longrightarrow> utf8_bytes (concat (map utf8 cs))"
  by (induction cs) (simp_all add: utf8_bytes_scalar)

lemma utf8_small: "scalar c \<Longrightarrow> list_all (\<lambda>b. b < 256) (utf8 c)"
  by (auto simp: utf8_def scalar_def)

text \<open>So a body that a script gives as well-formed text arrives as valid UTF-8.\<close>

lemma encode_utf8_valid:
  assumes "list_all scalar cs"
  shows "encode_utf8 (concat (map utf16 cs)) = map char_of (concat (map utf8 cs))"
    "from_utf8 (encode_utf8 (concat (map utf16 cs))) = Some (encode_utf8 (concat (map utf16 cs)))"
proof -
  show eq: "encode_utf8 (concat (map utf16 cs)) = map char_of (concat (map utf8 cs))"
    using assms by (simp add: encode_utf8_def encode_units_text)
  have "list_all (\<lambda>b. b < 256) (concat (map utf8 cs))"
    using assms by (induction cs) (auto simp: utf8_small)
  then have "map of_char (map char_of (concat (map utf8 cs))) = concat (map utf8 cs)"
    by (auto simp: list_all_iff comp_def intro!: map_idI)
  then show "from_utf8 (encode_utf8 (concat (map utf16 cs))) = Some (encode_utf8 (concat (map utf16 cs)))"
    using utf8_bytes_text [OF assms] by (simp only: eq from_utf8_def if_True)
qed

text \<open>A header map keeps one value per name, the last one, and is the list itself if no name repeats.\<close>

lemma hm_new_fold: "fold (\<lambda>(k, v). hm_set k v) init m = fold (\<lambda>(k, v). AList.update k v) (map (\<lambda>(k, v). (to_lower k, v)) init) m"
  by (induction init arbitrary: m) (auto simp: hm_set_def)

lemma hm_new_last:
  "map_of (hm_new init) k = map_of (rev (map (\<lambda>(n, v). (to_lower n, v)) init)) k" "distinct (map fst (hm_new init))"
proof -
  have "map_of (fold (\<lambda>(k, v). AList.update k v) xs m) k = (case map_of (rev xs) k of Some v \<Rightarrow> Some v | None \<Rightarrow> map_of m k)"
    for xs :: header_map and m k
    by (induction xs arbitrary: m) (auto simp: update_conv' map_add_def split: option.split)
  then show "map_of (hm_new init) k = map_of (rev (map (\<lambda>(n, v). (to_lower n, v)) init)) k"
    by (simp add: hm_new_def hm_new_fold split: option.split)
  have "distinct (map fst m) \<Longrightarrow> distinct (map fst (fold (\<lambda>(k, v). AList.update k v) xs m))" for xs m :: header_map
    by (induction xs arbitrary: m) (auto simp: distinct_update)
  then show "distinct (map fst (hm_new init))" by (simp add: hm_new_def hm_new_fold)
qed

lemma update_new: "k \<notin> fst ` set m \<Longrightarrow> AList.update k v m = m @ [(k, v)]"
  by (induction m) auto

lemma hm_new_distinct:
  assumes "distinct (map fst hs)" "\<And>k. k \<in> fst ` set hs \<Longrightarrow> to_lower k = k"
  shows "hm_new hs = hs"
proof -
  have "distinct (map fst (m @ hs)) \<Longrightarrow> (\<And>k. k \<in> fst ` set hs \<Longrightarrow> to_lower k = k) \<Longrightarrow>
      fold (\<lambda>(k, v). hm_set k v) hs m = m @ hs" for m
  proof (induction hs arbitrary: m)
    case (Cons x hs)
    obtain k v where x: "x = (k, v)" by force
    have "hm_set k v m = m @ [(k, v)]" using Cons.prems x by (auto simp: hm_set_def intro: update_new)
    then show ?case using Cons.IH [of "m @ [(k, v)]"] Cons.prems x by auto
  qed simp
  from this [of "[]"] show ?thesis using assms by (simp add: hm_new_def)
qed

end
