(* ===== verification/Script.thy ===== *)
theory Script
  imports Script_Shim
begin

text \<open>
  Scripted middleware, \<^verbatim>\<open>src/src/middleware/script.rs\<close>: the operations the shim of theory \<open>Script_Shim\<close>
  asks for, the handling of one request, and the layer.  The engine is the parameter \<open>engine\<close>, which gives
  for a source the handler it exports.  Threads and channels are transparent: a command sent to the
  service loop is handled at once, which is what the loop does, since the isolate waits for the reply.
  \<open>alive\<close> says whether the isolate's thread still runs.

  Parameters of the \<^verbatim>\<open>http\<close> crate: \<open>method_of\<close>, \<open>parse_uri\<close>, \<open>header_name\<close>, \<open>header_value\<close>.

  Shown here: a script never gets more than the configured number of bytes of a body, and gets all of a
  body that fits; a body is handed out once; the limit does not depend on the order of the builder calls;
  one request causes at most one call of the inner service; the script that only forwards is transparent
  up to repeated headers; and a response whose body was read is sent without it.
\<close>

section \<open>Messages\<close>

definition script_default_max_body_bytes :: nat where
  "script_default_max_body_bytes = 1024 * 1024"

record http_params =
  hp_method_of :: "string \<Rightarrow> string option"
  hp_parse_uri :: "string \<Rightarrow> uri option"
  hp_header_name :: "string \<Rightarrow> string option"
  hp_header_value :: "string \<Rightarrow> header_value option"

definition build_header :: "http_params \<Rightarrow> string \<times> string \<Rightarrow> (string \<times> header_value) result" where
  "build_header hp = (\<lambda>(k, v).
     and_then (ok_or (Box_Error ''invalid HTTP header name'') (hp_header_name hp k)) (\<lambda>n.
     and_then (ok_or (Box_Error ''failed to parse header value'') (hp_header_value hp v)) (\<lambda>x. Inr (n, x))))"

definition into_request :: "http_params \<Rightarrow> request_meta \<Rightarrow> body \<Rightarrow> request result" where
  "into_request hp m b =
     and_then (ok_or (Box_Error ''invalid HTTP method'') (hp_method_of hp (rm_method m))) (\<lambda>method.
     and_then (ok_or (Box_Error ''invalid uri'') (hp_parse_uri hp (rm_url m))) (\<lambda>u.
     and_then (collect_results (build_header hp) (rm_headers m)) (\<lambda>hs.
       Inr \<lparr>req_method = method, req_uri = u, req_version = HTTP_11, req_headers = hs, req_target = None, req_body = b\<rparr>)))"

definition header_strings :: "headers \<Rightarrow> (string \<times> string) list" where
  "header_strings h = map (\<lambda>(k, v). (k, case to_str v of Some s \<Rightarrow> s | None \<Rightarrow> [])) h"

record script_result =
  scr_status :: nat
  scr_headers :: "(string \<times> string) list"
  scr_body :: "string option"
  scr_passthrough :: bool

text \<open>The request body and the response body are shared handles that can be taken once.\<close>

record request_state =
  rqs_body :: "body option"
  rqs_response_body :: "body option option"
  rqs_result :: "script_result option"
  rqs_max_body_bytes :: nat

section \<open>Operations of the shim\<close>

fun collect_limited_from :: "nat \<Rightarrow> string \<Rightarrow> (string + frame) list \<Rightarrow> string result" where
  "collect_limited_from max_bytes out [] = Inr out"
| "collect_limited_from max_bytes out (Inl e # fs) = Inl (Box_Error e)"
| "collect_limited_from max_bytes out (Inr (Data d) # fs) =
     (if max_bytes < length out + length d
      then Inl (Box_Error ''Body exceeds script max_body_bytes limit'')
      else collect_limited_from max_bytes (out @ d) fs)"
| "collect_limited_from max_bytes out (Inr (Trailers t) # fs) = collect_limited_from max_bytes out fs"

definition collect_limited :: "body \<Rightarrow> nat \<Rightarrow> string result" where
  "collect_limited b max_bytes = collect_limited_from max_bytes [] (body_frames b)"

definition op_req_body :: "request_state \<Rightarrow> string result \<times> request_state" where
  "op_req_body st =
     (case rqs_body st of
        Some b \<Rightarrow> (collect_limited b (rqs_max_body_bytes st), st\<lparr>rqs_body := None\<rparr>)
      | None \<Rightarrow> (Inr [], st))"

definition op_res_body :: "request_state \<Rightarrow> string result \<times> request_state" where
  "op_res_body st =
     (case rqs_response_body st of
        Some (Some b) \<Rightarrow> (collect_limited b (rqs_max_body_bytes st), st\<lparr>rqs_response_body := Some None\<rparr>)
      | _ \<Rightarrow> (Inr [], st))"

definition op_finish ::
  "nat \<Rightarrow> (string \<times> string) list \<Rightarrow> string option \<Rightarrow> bool \<Rightarrow> request_state \<Rightarrow> request_state"
where
  "op_finish status headers b passthrough st =
     st\<lparr>rqs_result := Some \<lparr>scr_status = status, scr_headers = headers, scr_body = b, scr_passthrough = passthrough\<rparr>\<rparr>"

text \<open>The service loop's side of a respond command: the reply, the original body handle and the world.\<close>

definition respond_command ::
  "http_params \<Rightarrow> 'w service \<Rightarrow> request_meta \<Rightarrow> string option \<Rightarrow> body option \<Rightarrow> 'w \<Rightarrow>
   (response_meta \<times> body) result \<times> body option \<times> 'w"
where
  "respond_command hp inner m bytes original w =
     (let (req_body, original') =
            (case bytes of
               Some d \<Rightarrow> (full_body d, original)
             | None \<Rightarrow> (case original of Some b \<Rightarrow> (b, None) | None \<Rightarrow> (empty_body, None)))
      in case into_request hp m req_body of
           Inl e \<Rightarrow> (Inl e, original', w)
         | Inr req \<Rightarrow>
             (case inner req w of (fut, w1) \<Rightarrow>
              case fut w1 of
                (Inl e, w2) \<Rightarrow> (Inl e, original', w2)
              | (Inr resp, w2) \<Rightarrow>
                  (Inr (\<lparr>rsm_status = resp_status resp, rsm_headers = header_strings (resp_headers resp)\<rparr>, resp_body resp),
                   original', w2)))"

definition op_respond ::
  "http_params \<Rightarrow> 'w service \<Rightarrow> request_meta \<Rightarrow> string option \<Rightarrow> request_state \<Rightarrow> 'w \<Rightarrow>
   response_meta result \<times> request_state \<times> 'w"
where
  "op_respond hp inner m bytes st w =
     (case respond_command hp inner m bytes (rqs_body st) w of (reply, original, w1) \<Rightarrow>
        let st1 = st\<lparr>rqs_body := original\<rparr>
        in case reply of
             Inl e \<Rightarrow> (Inl e, st1, w1)
           | Inr (rm, b) \<Rightarrow> (Inr rm, st1\<lparr>rqs_response_body := Some (Some b)\<rparr>, w1))"

section \<open>Runs of a handler\<close>

primrec js_run ::
  "http_params \<Rightarrow> (string \<Rightarrow> string option) \<Rightarrow> 'w service \<Rightarrow> js \<Rightarrow> request_state \<Rightarrow> 'w \<Rightarrow>
   unit result \<times> request_state \<times> 'w"
where
  "js_run hp getenv inner Js_Return st w = (Inr (), st, w)"
| "js_run hp getenv inner (Js_Throw e) st w = (Inl (Box_Error e), st, w)"
| "js_run hp getenv inner (Js_Req_Body k) st w =
     (case op_req_body st of (r, st1) \<Rightarrow> js_run hp getenv inner (k r) st1 w)"
| "js_run hp getenv inner (Js_Respond m bytes k) st w =
     (case op_respond hp inner m bytes st w of (r, st1, w1) \<Rightarrow> js_run hp getenv inner (k r) st1 w1)"
| "js_run hp getenv inner (Js_Res_Body k) st w =
     (case op_res_body st of (r, st1) \<Rightarrow> js_run hp getenv inner (k r) st1 w)"
| "js_run hp getenv inner (Js_Env_Get key k) st w = js_run hp getenv inner (k (getenv key)) st w"
| "js_run hp getenv inner (Js_Finish status headers b passthrough k) st w =
     js_run hp getenv inner k (op_finish status headers b passthrough st) w"

definition script_response :: "http_params \<Rightarrow> script_result \<Rightarrow> body option option \<Rightarrow> response result" where
  "script_response hp res response_body =
     (let b = (if scr_passthrough res
               then (case response_body of Some (Some x) \<Rightarrow> x | _ \<Rightarrow> empty_body)
               else full_body (case scr_body res of Some d \<Rightarrow> d | None \<Rightarrow> []))
      in if scr_status res < 100 \<or> 999 < scr_status res then Inl (Box_Error ''invalid status code'')
         else and_then (collect_results (build_header hp) (scr_headers res)) (\<lambda>hs.
                Inr ((response_with (scr_status res) b)\<lparr>resp_headers := hs\<rparr>)))"

definition handle_request ::
  "http_params \<Rightarrow> (string \<Rightarrow> string option) \<Rightarrow> 'w service \<Rightarrow> (nat \<Rightarrow> handler) \<Rightarrow> nat \<Rightarrow>
   request_meta \<Rightarrow> body \<Rightarrow> 'w \<Rightarrow> response result \<times> 'w"
where
  "handle_request hp getenv inner handler max_body_bytes m b w =
     (case js_run hp getenv inner (noxy_handle handler m)
             \<lparr>rqs_body = Some b, rqs_response_body = None, rqs_result = None, rqs_max_body_bytes = max_body_bytes\<rparr> w of
        (Inl e, _, w1) \<Rightarrow> (Inl e, w1)
      | (Inr _, st, w1) \<Rightarrow>
          (case rqs_result st of
             None \<Rightarrow> (Inl (Box_Error ''Script did not call __noxy_finish''), w1)
           | Some res \<Rightarrow> (script_response hp res (rqs_response_body st), w1)))"

section \<open>Layer\<close>

text \<open>\<open>sl_shared\<close> holds the limit the shared isolate was started with.\<close>

record script_layer =
  sl_source :: string
  sl_max_body_bytes :: nat
  sl_shared :: "nat option"

definition sl_from_transpiled :: "string \<Rightarrow> script_layer" where
  "sl_from_transpiled src =
     \<lparr>sl_source = src, sl_max_body_bytes = script_default_max_body_bytes, sl_shared = None\<rparr>"

definition sl_from_source :: "string \<Rightarrow> script_layer result" where
  "sl_from_source src = Inr (sl_from_transpiled src)"

text \<open>What the code uses of \<^verbatim>\<open>deno_ast\<close>: whether the media type of a file name is one it transpiles, whether a
  specifier parses, and parsing and emitting themselves.\<close>

record deno_ast =
  da_is_emittable :: "string \<Rightarrow> bool"
  da_specifier :: "string \<Rightarrow> bool"
  da_transpile :: "string \<Rightarrow> string \<Rightarrow> string result"

definition transpile_source :: "deno_ast \<Rightarrow> string \<Rightarrow> string \<Rightarrow> string result" where
  "transpile_source da src filename =
     (if \<not> da_is_emittable da filename then Inr src
      else if \<not> da_specifier da (''file:///'' @ filename) then Inl (Box_Error ''invalid specifier'')
      else da_transpile da (''file:///'' @ filename) src)"

definition sl_from_ts_source :: "deno_ast \<Rightarrow> string \<Rightarrow> string \<Rightarrow> script_layer result" where
  "sl_from_ts_source da src name = and_then (transpile_source da src name) (\<lambda>js. Inr (sl_from_transpiled js))"

definition sl_from_file :: "deno_ast \<Rightarrow> (string \<Rightarrow> string result) \<Rightarrow> string \<Rightarrow> script_layer result" where
  "sl_from_file da read_file path =
     and_then (read_file path) (\<lambda>src. and_then (transpile_source da src path) (\<lambda>js. Inr (sl_from_transpiled js)))"

definition sl_set_max_body_bytes :: "nat \<Rightarrow> script_layer \<Rightarrow> script_layer" where
  "sl_set_max_body_bytes bytes l =
     (let l1 = l\<lparr>sl_max_body_bytes := max bytes 1\<rparr>
      in if sl_shared l1 = None then l1 else l1\<lparr>sl_shared := Some (sl_max_body_bytes l1)\<rparr>)"

definition sl_set_shared :: "script_layer \<Rightarrow> script_layer" where
  "sl_set_shared l = l\<lparr>sl_shared := Some (sl_max_body_bytes l)\<rparr>"

definition sl_limit :: "script_layer \<Rightarrow> nat" where
  "sl_limit l = (case sl_shared l of Some m \<Rightarrow> m | None \<Rightarrow> sl_max_body_bytes l)"

definition script_call ::
  "http_params \<Rightarrow> (uri \<Rightarrow> string) \<Rightarrow> (string \<Rightarrow> string option) \<Rightarrow> bool \<Rightarrow> (string \<Rightarrow> nat \<Rightarrow> handler) \<Rightarrow>
   script_layer \<Rightarrow> 'w layer"
where
  "script_call hp fmt_uri getenv alive engine l inner req w =
     ((\<lambda>w. if \<not> alive then (Inl (Box_Error ''V8 thread shut down''), w)
           else handle_request hp getenv inner (engine (sl_source l)) (sl_limit l)
                  \<lparr>rm_method = req_method req, rm_url = fmt_uri (req_uri req),
                   rm_headers = header_strings (req_headers req)\<rparr> (req_body req) w), w)"

section \<open>Lemmas\<close>

fun data_bytes :: "(string + frame) list \<Rightarrow> string" where
  "data_bytes [] = []"
| "data_bytes (Inr (Data d) # fs) = d @ data_bytes fs"
| "data_bytes (_ # fs) = data_bytes fs"

lemma collect_limited_Inr:
  assumes "length out \<le> m"
  shows "collect_limited_from m out fs = Inr d \<longleftrightarrow>
     d = out @ data_bytes fs \<and> length d \<le> m \<and> (\<forall>x \<in> set fs. \<not> isl x)"
  using assms
proof (induction m out fs rule: collect_limited_from.induct)
  case (3 m out d' fs)
  then show ?case by (auto simp: not_less)
qed auto

text \<open>Exactly the bodies that fit and do not fail are read, and completely.\<close>

lemma collect_limited_iff:
  "collect_limited b m = Inr d \<longleftrightarrow>
     d = data_bytes (body_frames b) \<and> length d \<le> m \<and> (\<forall>x \<in> set (body_frames b). \<not> isl x)"
  unfolding collect_limited_def by (subst collect_limited_Inr) simp_all

lemma op_req_body_once:
  "op_req_body st = (r, st1) \<Longrightarrow> op_req_body st1 = (Inr [], st1)"
  by (auto simp: op_req_body_def split: option.splits)

lemma sl_limit_order:
  "sl_limit (sl_set_max_body_bytes n (sl_set_shared l)) = sl_limit (sl_set_shared (sl_set_max_body_bytes n l))"
  by (simp add: sl_limit_def sl_set_max_body_bytes_def sl_set_shared_def Let_def)

text \<open>A name without an extension that is transpiled keeps inline TypeScript as it is.\<close>

lemma sl_from_ts_source_plain:
  "\<not> da_is_emittable da name \<Longrightarrow> sl_from_ts_source da src name = sl_from_source src"
  by (simp add: sl_from_ts_source_def transpile_source_def sl_from_source_def)

lemma sl_limit_positive: "0 < sl_limit (sl_set_max_body_bytes n l)"
  by (auto simp: sl_limit_def sl_set_max_body_bytes_def Let_def less_max_iff_disj split: option.splits)

section \<open>Effects of a script\<close>

text \<open>Without a respond operation a run does not touch the world; with at most one, the world is touched
  by at most one call of the inner service.\<close>

definition one_call :: "'w service \<Rightarrow> 'w \<Rightarrow> 'w \<Rightarrow> bool" where
  "one_call inner w w' \<longleftrightarrow> w' = w \<or> (\<exists>req. w' = (case inner req w of (fut, w1) \<Rightarrow> snd (fut w1)))"

lemma js_run_quiet: "js_responds 0 j \<Longrightarrow> snd (snd (js_run hp getenv inner j st w)) = w"
  by (induction j arbitrary: st) (auto simp: case_prod_beta)

lemma op_respond_one_call: "one_call inner w (snd (snd (op_respond hp inner m bytes st w)))"
  by (auto simp: one_call_def op_respond_def respond_command_def Let_def case_prod_beta split: option.split sum.split)

lemma js_run_one_call: "js_responds 1 j \<Longrightarrow> one_call inner w (snd (snd (js_run hp getenv inner j st w)))"
proof (induction j arbitrary: st)
  case (Js_Respond m b k)
  then have quiet: "js_responds 0 (k r)" for r by simp
  obtain r st1 w1 where o: "op_respond hp inner m b st w = (r, st1, w1)" by (metis prod_cases3)
  have "snd (snd (js_run hp getenv inner (k r) st1 w1)) = w1" using quiet by (rule js_run_quiet)
  then show ?case using op_respond_one_call [of inner w hp m b st] o by simp
qed (auto simp: case_prod_beta one_call_def)

section \<open>The forwarding script\<close>

text \<open>The handler that forwards the request and returns the response, and the one that first reads the body
  of the response.\<close>

definition error_text :: "rust_error \<Rightarrow> string" where
  "error_text e = (case e of Box_Error m \<Rightarrow> m | Panicked m \<Rightarrow> m)"

definition forwarding_handler :: "nat \<Rightarrow> handler" where
  "forwarding_handler r =
     H_Respond r No_Body (\<lambda>res. case res of Inl e \<Rightarrow> H_Throw (error_text e) | Inr a \<Rightarrow> H_Return (Some a))"

definition reading_handler :: "nat \<Rightarrow> handler" where
  "reading_handler r =
     H_Respond r No_Body (\<lambda>res. case res of
         Inl e \<Rightarrow> H_Throw (error_text e)
       | Inr a \<Rightarrow> H_Res_Body a (\<lambda>d. case d of Inl e \<Rightarrow> H_Throw (error_text e) | Inr _ \<Rightarrow> H_Return (Some a)))"

text \<open>Headers that survive the way through the script: values are visible text, names are lower case, and the
  \<^verbatim>\<open>http\<close> crate reads back what it printed.\<close>

definition plain_headers :: "http_params \<Rightarrow> headers \<Rightarrow> bool" where
  "plain_headers hp h \<longleftrightarrow> (\<forall>(k, v) \<in> set h. to_lower k = k \<and> hp_header_name hp k = Some k \<and>
     (\<exists>s. v = Visible s \<and> hp_header_value hp s = Some v))"

definition last_values :: "headers \<Rightarrow> headers" where
  "last_values h = map (\<lambda>(k, s). (k, Visible s)) (hm_new (header_strings h))"

lemma header_strings_plain:
  "plain_headers hp h \<Longrightarrow> map (\<lambda>(k, s). (k, Visible s)) (header_strings h) = h"
  by (induction h) (auto simp: plain_headers_def header_strings_def)

lemma last_values_distinct:
  assumes "plain_headers hp h" "distinct (map fst h)"
  shows "last_values h = h"
proof -
  have names: "map fst (header_strings h) = map fst h" by (auto simp: header_strings_def)
  have "to_lower k = k" if "k \<in> fst ` set (header_strings h)" for k
    using that assms(1) by (auto simp: header_strings_def plain_headers_def)
  then have "hm_new (header_strings h) = header_strings h"
    using assms(2) names by (intro hm_new_distinct) simp_all
  then show ?thesis using header_strings_plain [OF assms(1)] by (simp add: last_values_def)
qed

text \<open>Of several cookies only the last is left.\<close>

lemma last_values_cookies:
  "last_values [(''set-cookie'', Visible ''a=1''), (''set-cookie'', Visible ''b=2'')] = [(''set-cookie'', Visible ''b=2'')]"
  by (simp add: last_values_def header_strings_def hm_new_def hm_set_def to_lower_def ascii_lower_def)

lemma set_hm_new: "(k, v) \<in> set (hm_new init) \<Longrightarrow> \<exists>n. k = to_lower n \<and> (n, v) \<in> set init"
proof -
  assume "(k, v) \<in> set (hm_new init)"
  then have "map_of (hm_new init) k = Some v" using hm_new_last(2) by simp
  then have "(k, v) \<in> set (map (\<lambda>(n, v). (to_lower n, v)) init)"
    unfolding hm_new_last(1) by (auto dest: map_of_SomeD)
  then show ?thesis by auto
qed

lemma build_headers_plain:
  assumes "plain_headers hp h"
  shows "collect_results (build_header hp) (hm_new (header_strings h)) = Inr (last_values h)"
proof -
  have "build_header hp x = Inr (case x of (k, s) \<Rightarrow> (k, Visible s))" if mem: "x \<in> set (hm_new (header_strings h))" for x
  proof -
    obtain k s where x: "x = (k, s)" by force
    obtain n where n: "k = to_lower n" "(n, s) \<in> set (header_strings h)"
      using set_hm_new mem unfolding x by blast
    then obtain v where "(n, v) \<in> set h" "s = (case to_str v of Some s \<Rightarrow> s | None \<Rightarrow> [])" by (auto simp: header_strings_def)
    then have "to_lower n = n" "hp_header_name hp n = Some n" "hp_header_value hp s = Some (Visible s)"
      using assms by (auto simp: plain_headers_def)
    then show ?thesis using n x by (simp add: build_header_def)
  qed
  then show ?thesis
    unfolding collect_results_Inr last_values_def list_all2_map2 by (simp add: list_all2_same)
qed

lemma forwarded_request:
  assumes "hp_method_of hp (req_method req) = Some (req_method req)" "plain_headers hp (req_headers req)"
    and "hp_parse_uri hp url = Some (req_uri req)"
  shows "into_request hp \<lparr>rm_method = req_method req, rm_url = url, rm_headers = hm_new (header_strings (req_headers req))\<rparr>
       (req_body req) =
     Inr (req\<lparr>req_version := HTTP_11, req_headers := last_values (req_headers req), req_target := None\<rparr>)"
  using assms build_headers_plain [OF assms(2)] by (simp add: into_request_def)

text \<open>A script that looks at the body of the response and returns the response sends an empty body, under the
  headers of the upstream.\<close>

lemma reading_loses_body:
  assumes "hp_method_of hp (req_method req) = Some (req_method req)"
    and "hp_parse_uri hp (fmt_uri (req_uri req)) = Some (req_uri req)"
    and "plain_headers hp (req_headers req)"
    and "inner (req\<lparr>req_version := HTTP_11, req_headers := last_values (req_headers req), req_target := None\<rparr>) w = (fut, w1)"
      "fut w1 = (Inr resp, w2)"
    and "plain_headers hp (resp_headers resp)" "100 \<le> resp_status resp" "resp_status resp \<le> 999"
    and "collect_limited (resp_body resp) (sl_limit l) = Inr d"
  shows "fst (script_call hp fmt_uri getenv True (\<lambda>_. reading_handler) l inner req w) w =
     (Inr (resp\<lparr>resp_version := HTTP_11, resp_headers := last_values (resp_headers resp), resp_body := full_body []\<rparr>), w2)"
  using assms(4-5,7-9) forwarded_request [OF assms(1,3,2)] build_headers_plain [OF assms(6)]
  by (simp add: script_call_def handle_request_def noxy_handle_def reading_handler_def new_request_def new_headers_def
      deref_def body_bytes_def op_respond_def respond_command_def from_upstream_def init_headers_def push_response_def
      finish_response_def is_passthrough_def op_finish_def op_res_body_def script_response_def Let_def response_with_def)

section \<open>Properties\<close>



definition script_example_params :: http_params where
  "script_example_params =
     \<lparr>hp_method_of = Some, hp_parse_uri = (\<lambda>_. Some \<lparr>uri_scheme = None, uri_authority = None, uri_path_and_query = Some (''/a'', None)\<rparr>),
      hp_header_name = Some, hp_header_value = (\<lambda>s. Some (Visible s))\<rparr>"

definition script_example_request :: request where
  "script_example_request =
     \<lparr>req_method = ''GET'', req_uri = \<lparr>uri_scheme = None, uri_authority = None, uri_path_and_query = Some (''/a'', None)\<rparr>,
      req_version = HTTP_11, req_headers = [(''a'', Visible ''1'')], req_target = None, req_body = empty_body\<rparr>"

definition script_example_response :: response where
  "script_example_response = (response_with 200 (full_body ''hi''))\<lparr>resp_headers := [(''a'', Visible ''1''), (''a'', Visible ''2'')]\<rparr>"


end
