(* ===== verification/Handshake.thy ===== *)
theory Handshake
  imports Rust_Text
begin

text \<open>
  The CONNECT handshake of the forward proxy, \<^verbatim>\<open>src/src/lib.rs\<close>: \<open>credentials_match\<close>, the request handler
  inside \<open>Proxy::handshake\<close>, and what \<open>handshake\<close> makes of its result.  Parameters: \<open>ct_eq\<close> is the
  constant-time comparison of the \<^verbatim>\<open>subtle\<close> crate, which is equality; \<open>decode\<close> is base64 decoding; \<open>upgrade\<close>
  is the outcome of hyper's upgrade; \<open>served\<close> the outcome of serving the connection; \<open>tls_accept\<close> the TLS
  handshake with the client and \<open>parse_authority\<close> the parser of the \<^verbatim>\<open>http\<close> crate.

  A connection may carry several requests before it is upgraded, so the handler runs on a list of
  requests.  The channel to the handshake is used at most once.

  Shown here: with credentials configured, a handshake succeeds only if its first request carries one of
  them; and a client that answers the challenge on the same connection is told 200 and then dropped.
\<close>

section \<open>Credentials\<close>

definition credentials_match ::
  "(string \<Rightarrow> string \<Rightarrow> bool) \<Rightarrow> (string \<times> string) list \<Rightarrow> string \<Rightarrow> string \<Rightarrow> bool"
where
  "credentials_match ct_eq credentials user pass =
     fold (\<lambda>(expected_user, expected_pass) matched.
             matched \<or> (ct_eq expected_user user \<and> ct_eq expected_pass pass)) credentials False"

lemma credentials_match_iff:
  assumes "\<And>a b. ct_eq a b \<longleftrightarrow> a = b"
  shows "credentials_match ct_eq creds user pass \<longleftrightarrow> (user, pass) \<in> set creds"
proof -
  have "fold (\<lambda>(u, p) matched. matched \<or> (ct_eq u user \<and> ct_eq p pass)) creds m \<longleftrightarrow>
      m \<or> (user, pass) \<in> set creds" for m
    by (induction creds arbitrary: m) (auto simp: assms)
  then show ?thesis by (simp add: credentials_match_def)
qed

definition connect_authenticated ::
  "(string \<Rightarrow> string \<Rightarrow> bool) \<Rightarrow> (string \<Rightarrow> string option) \<Rightarrow> (string \<times> string) list \<Rightarrow> request \<Rightarrow> bool"
where
  "connect_authenticated ct_eq decode creds req =
     (case Option.bind (hdr_get (req_headers req) ''proxy-authorization'') (\<lambda>v.
           Option.bind (to_str v) (\<lambda>auth.
           Option.bind (strip_prefix ''Basic '' auth) (\<lambda>b64.
           Option.bind (decode b64) (\<lambda>bytes.
           Option.bind (from_utf8 bytes) (\<lambda>decoded.
           Option.bind (split_once (CHR '':'') decoded) (\<lambda>(u, p).
             Some (credentials_match ct_eq creds u p))))))) of
        Some ok \<Rightarrow> ok
      | None \<Rightarrow> False)"

section \<open>The CONNECT handler\<close>

datatype verdict = Refuse response string | Upgrade string

definition proxy_auth_required :: response where
  "proxy_auth_required =
     (response_with 407 empty_body)\<lparr>resp_headers := [(''proxy-authenticate'', Visible ''Basic realm=\"noxy\"'')]\<rparr>"

definition connect_handle ::
  "(string \<Rightarrow> string \<Rightarrow> bool) \<Rightarrow> (string \<Rightarrow> string option) \<Rightarrow> (string \<times> string) list option \<Rightarrow> request \<Rightarrow> verdict"
where
  "connect_handle ct_eq decode credentials req =
     (if req_method req \<noteq> ''CONNECT'' then
        Refuse (response_with 400 empty_body) (''expected CONNECT, got '' @ req_method req)
      else case uri_authority (req_uri req) of
             None \<Rightarrow> Refuse (response_with 400 empty_body) ''missing authority in CONNECT URI''
           | Some a \<Rightarrow>
               (case credentials of
                  None \<Rightarrow> Upgrade (auth_text a)
                | Some creds \<Rightarrow>
                    if connect_authenticated ct_eq decode creds req then Upgrade (auth_text a)
                    else Refuse proxy_auth_required ''proxy authentication failed''))"

text \<open>The requests of one connection, the responses to them and what the channel receives; \<open>tx\<close> says
  whether the sender is still there.\<close>

fun connect_serve ::
  "(string \<Rightarrow> string \<Rightarrow> bool) \<Rightarrow> (string \<Rightarrow> string option) \<Rightarrow> unit result \<Rightarrow> (string \<times> string) list option \<Rightarrow>
   bool \<Rightarrow> request list \<Rightarrow> response list \<times> string result option"
where
  "connect_serve ct_eq decode upgrade credentials tx [] = ([], None)"
| "connect_serve ct_eq decode upgrade credentials tx (req # reqs) =
     (case connect_handle ct_eq decode credentials req of
        Refuse resp msg \<Rightarrow>
          (case connect_serve ct_eq decode upgrade credentials False reqs of (resps, later) \<Rightarrow>
             (resp # resps, if tx then Some (Inl (Box_Error msg)) else later))
      | Upgrade authority \<Rightarrow>
          ([response_with 200 empty_body],
           if tx then Some (and_then upgrade (\<lambda>_. Inr authority)) else None))"

section \<open>The handshake\<close>

definition split_host_port :: "string \<Rightarrow> (string \<times> nat) result" where
  "split_host_port authority =
     (case split_once (CHR '':'') (rev authority) of
        Some (port, host) \<Rightarrow>
          and_then (ok_or (Box_Error ''invalid port'') (parse_uint (2 ^ 16 - 1) (rev port))) (\<lambda>p. Inr (rev host, p))
      | None \<Rightarrow> Inr (authority, 443))"

definition handshake ::
  "(string \<Rightarrow> string \<Rightarrow> bool) \<Rightarrow> (string \<Rightarrow> string option) \<Rightarrow> unit result \<Rightarrow> unit result \<Rightarrow> unit result \<Rightarrow>
   (string \<Rightarrow> authority option) \<Rightarrow> (string \<times> string) list option \<Rightarrow> request list \<Rightarrow> authority result"
where
  "handshake ct_eq decode upgrade served tls_accept parse_authority credentials reqs =
     and_then served (\<lambda>_.
     and_then (ok_or (Box_Error ''CONNECT handler did not complete'')
                 (snd (connect_serve ct_eq decode upgrade credentials True reqs))) (\<lambda>received.
     and_then received (\<lambda>authority.
     and_then (split_host_port authority) (\<lambda>(host, port).
     and_then tls_accept (\<lambda>_.
       ok_or (Box_Error ''invalid authority'') (parse_authority (host @ '':'' @ show_nat port)))))))"

section \<open>Lemmas\<close>

lemma connect_authenticated_iff:
  assumes "\<And>a b. ct_eq a b \<longleftrightarrow> a = b"
  shows "connect_authenticated ct_eq decode creds req \<longleftrightarrow>
     (\<exists>b64 user pass. hdr_get (req_headers req) ''proxy-authorization'' = Some (Visible (''Basic '' @ b64)) \<and>
        decode b64 = Some (user @ '':'' @ pass) \<and> from_utf8 (user @ '':'' @ pass) \<noteq> None \<and>
        CHR '':'' \<notin> set user \<and> (user, pass) \<in> set creds)" (is "?L \<longleftrightarrow> ?R")
proof
  assume ?L
  then obtain v auth b64 bytes decoded u p where *:
    "hdr_get (req_headers req) ''proxy-authorization'' = Some v" "to_str v = Some auth"
    "strip_prefix ''Basic '' auth = Some b64" "decode b64 = Some bytes" "from_utf8 bytes = Some decoded"
    "split_once (CHR '':'') decoded = Some (u, p)" "credentials_match ct_eq creds u p"
    by (auto simp: connect_authenticated_def split: option.splits Option.bind_splits)
  moreover have "v = Visible auth" using *(2) by (cases v) simp_all
  moreover have "decoded = bytes" using *(5) by (simp add: from_utf8_def split: if_splits)
  ultimately show ?R
    by (auto simp: strip_prefix_Some split_once_Some credentials_match_iff [OF assms])
next
  assume ?R
  then obtain b64 user pass where *:
    "hdr_get (req_headers req) ''proxy-authorization'' = Some (Visible (''Basic '' @ b64))"
    "decode b64 = Some (user @ '':'' @ pass)" "from_utf8 (user @ '':'' @ pass) \<noteq> None"
    "CHR '':'' \<notin> set user" "(user, pass) \<in> set creds" by blast
  have "strip_prefix ''Basic '' (''Basic '' @ b64) = Some b64" unfolding strip_prefix_Some by simp
  moreover have "from_utf8 (user @ '':'' @ pass) = Some (user @ '':'' @ pass)"
    using *(3) by (simp add: from_utf8_def split: if_splits)
  moreover have "split_once (CHR '':'') (user @ '':'' @ pass) = Some (user, pass)"
    using *(4) by (simp add: split_once_Some)
  ultimately show ?L
    using * by (simp add: connect_authenticated_def credentials_match_iff [OF assms])
qed

text \<open>Only the first request of a connection can open the channel.\<close>

lemma connect_serve_received:
  assumes "snd (connect_serve ct_eq decode upgrade creds tx reqs) = Some (Inr a)"
  shows "\<exists>req rest. reqs = req # rest \<and> tx \<and> connect_handle ct_eq decode creds req = Upgrade a"
proof -
  have none: "snd (connect_serve ct_eq decode upgrade creds False qs) = None" for qs
    by (induction qs) (auto split: verdict.splits prod.splits)
  show ?thesis
    using assms none
    by (cases reqs) (auto simp: case_prod_unfold and_then_def split: verdict.splits if_splits sum.splits)
qed

lemma connect_handle_Upgrade:
  "connect_handle ct_eq decode (Some creds) req = Upgrade a \<longleftrightarrow>
     req_method req = ''CONNECT'' \<and> map_option auth_text (uri_authority (req_uri req)) = Some a \<and>
     connect_authenticated ct_eq decode creds req"
  by (auto simp: connect_handle_def split: option.splits)

text \<open>The port is what follows the last colon, 443 if there is none.\<close>

lemma split_host_port_show:
  "port < 2 ^ 16 \<Longrightarrow> split_host_port (host @ '':'' @ show_nat port) = Inr (host, port)"
proof -
  assume "port < 2 ^ 16"
  moreover have "CHR '':'' \<notin> set (show_nat port)" by (rule not_digit) (simp add: digit_value_def)
  then have "split_once (CHR '':'') (rev (host @ '':'' @ show_nat port)) = Some (rev (show_nat port), rev host)"
    by (simp add: split_once_Some)
  ultimately show ?thesis
    by (simp add: split_host_port_def parse_uint_show_nat)
qed

lemma split_host_port_default: "CHR '':'' \<notin> set a \<Longrightarrow> split_host_port a = Inr (a, 443)"
  by (simp add: split_host_port_def split_once_None [THEN iffD2])

text \<open>A bracketed IPv6 literal without a port is cut inside the address.\<close>

lemma split_host_port_ipv6: "split_host_port ''[::1]'' = Inl (Box_Error ''invalid port'')"
  by (simp add: split_host_port_def parse_uint_def digit_value_def)

text \<open>A client that retries with credentials on the connection on which it was challenged: the second
  response is 200, but the handshake fails with the error of the first request.\<close>

lemma connect_retry_lost:
  assumes "connect_handle ct_eq decode credentials first_req = Refuse resp msg"
    and "connect_handle ct_eq decode credentials second_req = Upgrade a"
  shows "fst (connect_serve ct_eq decode upgrade credentials True [first_req, second_req]) =
       [resp, response_with 200 empty_body]"
    and "handshake ct_eq decode upgrade (Inr ()) tls_accept parse_authority credentials [first_req, second_req] =
       Inl (Box_Error msg)"
  using assms by (simp_all add: handshake_def)

section \<open>Properties\<close>

text \<open>C3. With credentials configured, a handshake succeeds only if the first request of the connection is
  a CONNECT whose \<^verbatim>\<open>Proxy-Authorization\<close> header is \<^verbatim>\<open>Basic\<close> with the base64 form of a configured user name,
  a colon and the password of that user.  The authority that is served is the request's, with the
  port made explicit.\<close>

theorem handshake_authenticated:
  assumes "\<And>a b. ct_eq a b \<longleftrightarrow> a = b"
    and "handshake ct_eq decode upgrade served tls_accept parse_authority (Some creds) reqs = Inr target"
  shows "\<exists>req rest b64 user pass a host port.
     reqs = req # rest \<and> req_method req = ''CONNECT'' \<and>
     hdr_get (req_headers req) ''proxy-authorization'' = Some (Visible (''Basic '' @ b64)) \<and>
     decode b64 = Some (user @ '':'' @ pass) \<and> (user, pass) \<in> set creds \<and>
     uri_authority (req_uri req) = Some a \<and> split_host_port (auth_text a) = Inr (host, port) \<and>
     parse_authority (host @ '':'' @ show_nat port) = Some target"
proof -
  obtain received authority host port where h:
    "snd (connect_serve ct_eq decode upgrade (Some creds) True reqs) = Some received" "received = Inr authority"
    "split_host_port authority = Inr (host, port)" "parse_authority (host @ '':'' @ show_nat port) = Some target"
    using assms(2) by (auto simp: handshake_def and_then_Inr_iff ok_or_def split: option.splits)
  obtain req rest where r: "reqs = req # rest" "connect_handle ct_eq decode (Some creds) req = Upgrade authority"
    using connect_serve_received h(1,2) by blast
  then show ?thesis
    using h(3,4) connect_authenticated_iff [OF assms(1)]
    by (fastforce simp: connect_handle_Upgrade)
qed

definition connect_example_request :: request where
  "connect_example_request =
     \<lparr>req_method = ''CONNECT'',
      req_uri = \<lparr>uri_scheme = None,
                 uri_authority = Some \<lparr>auth_text = ''h:8443'', auth_host = ''h'', auth_port = Some 8443\<rparr>,
                 uri_path_and_query = None\<rparr>,
      req_version = HTTP_11, req_headers = [(''proxy-authorization'', Visible ''Basic YTpi'')],
      req_target = None, req_body = empty_body\<rparr>"

definition connect_example_decode :: "string \<Rightarrow> string option" where
  "connect_example_decode s = (if s = ''YTpi'' then Some ''a:b'' else None)"

definition connect_example_parse :: "string \<Rightarrow> authority option" where
  "connect_example_parse s = Some \<lparr>auth_text = s, auth_host = ''h'', auth_port = Some 8443\<rparr>"

lemma connect_example_handshake:
  "handshake (=) connect_example_decode (Inr ()) (Inr ()) (Inr ()) connect_example_parse (Some [(''a'', ''b'')])
     [connect_example_request] = Inr \<lparr>auth_text = ''h:8443'', auth_host = ''h'', auth_port = Some 8443\<rparr>"
proof -
  have "connect_handle (=) connect_example_decode (Some [(''a'', ''b'')]) connect_example_request = Upgrade ''h:8443''"
    by (simp add: connect_handle_def connect_example_request_def connect_authenticated_def hdr_get_def
        strip_prefix_def connect_example_decode_def from_utf8_def credentials_match_def)
  moreover have "split_host_port ''h:8443'' = Inr (''h'', 8443)"
    by (simp add: split_host_port_def parse_uint_def digit_value_def)
  moreover have "show_nat 8443 = ''8443''"
    by (simp add: show_nat.simps digit_char_def char_of_def bit_iff_odd)
  ultimately show ?thesis by (simp add: handshake_def connect_example_parse_def)
qed

theorem handshake_authenticated_witness:
  "\<exists>b64 user pass.
     hdr_get (req_headers connect_example_request) ''proxy-authorization'' = Some (Visible (''Basic '' @ b64)) \<and>
     connect_example_decode b64 = Some (user @ '':'' @ pass) \<and> (user, pass) \<in> set [(''a'', ''b'')]"
  using handshake_authenticated [OF _ connect_example_handshake] by blast

end
