(* ===== verification/Proxy.thy ===== *)
theory Proxy
  imports Rate_Limiter Sliding_Window Circuit_Breaker Retry Router Forwarding Header_Ops Conditional
    Url_Rewrite Injectors Content_Decoder Throttle Traffic_Logger Script Tunnel Handshake
begin

text \<open>
  The proxy itself, \<^verbatim>\<open>src/src/lib.rs\<close>: the builder, \<open>build\<close>, the service chain of a connection, the hyper
  adapter, and the two kinds of connection.

  A layer the builder holds is a value of \<open>middleware\<close>: the middleware struct it was made from.  The
  shared state such a struct owns (an \<^verbatim>\<open>Arc<Mutex<_>>\<close> made by its constructor) lives in the world, in the
  cell whose address is the position of the layer; \<open>mw_install\<close> puts the initial state there and
  \<open>mw_layer\<close> gives the service transformer.  All code outside the repository that layers reach is the
  record \<open>platform\<close>.

  Shown here: the first layer added is the outermost one; what the handshake timeout covers and what it
  does not; a shutdown signal ends every tunnel; routes without a default answer 502.
\<close>

section \<open>Layers\<close>

datatype 'w middleware =
    MW_Log traffic_logger
  | MW_Latency latency_injector
  | MW_Bandwidth bandwidth_throttle
  | MW_Fault fault_injector
  | MW_Rate_Limit "rate_limiter option"
  | MW_Redis_Rate_Limit redis_rl_store "rl_shared mutex" "request \<Rightarrow> string"
  | MW_Sliding_Window sliding_window
  | MW_Redis_Sliding_Window redis_sw_store "sw_shared mutex" "request \<Rightarrow> string"
  | MW_Retry retry
  | MW_Circuit_Breaker "cb_shared mutex" circuit_breaker
  | MW_Redis_Circuit_Breaker redis_cb_store "cb_shared mutex" "local_cache mutex" circuit_breaker
  | MW_Respond set_response
  | MW_Block block_list
  | MW_Headers modify_headers
  | MW_Rewrite url_rewrite
  | MW_Decode
  | MW_Script script_layer
  | MW_Router "'w router"
  | MW_Fn "request \<Rightarrow> (request \<Rightarrow> 'w future) \<Rightarrow> 'w future"
  | MW_When "request \<Rightarrow> bool" "'w middleware"

text \<open>\<open>pf_nonfinite\<close> is a token bucket whose rate is not a finite number (a zero window); the model of the
  bucket says nothing about it.\<close>

record 'w platform =
  pf_env :: "'w env"
  pf_http :: http_params
  pf_glob :: "string \<Rightarrow> glob_matcher option"
  pf_path_router :: "string \<Rightarrow> (string \<Rightarrow> (string \<times> string) list option) option"
  pf_regex :: "string \<Rightarrow> ((string \<Rightarrow> bool) \<times> (string \<Rightarrow> string \<Rightarrow> string)) option"
  pf_parse_pq :: "string \<Rightarrow> (string \<times> string option) option"
  pf_from_parts :: "uri \<Rightarrow> uri option"
  pf_fmt_uri :: "uri \<Rightarrow> string"
  pf_reason :: "nat \<Rightarrow> string option"
  pf_roll :: "'w \<Rightarrow> real \<times> 'w"
  pf_rand_range :: "duration \<Rightarrow> duration \<Rightarrow> 'w \<Rightarrow> duration \<times> 'w"
  pf_rand :: "nat \<Rightarrow> 'w \<Rightarrow> nat \<times> 'w"
  pf_polls :: "'w \<Rightarrow> nat"
  pf_decoder :: "coding \<Rightarrow> (string + string) list \<Rightarrow> (string + string) list"
  pf_timeout :: "('w, response result) timeout"
  pf_client :: "'w service"
  pf_redis :: "'w redis_server"
  pf_member :: "'w \<Rightarrow> string \<times> 'w"
  pf_overflow_checks :: bool
  pf_getenv :: "string \<Rightarrow> string option"
  pf_alive :: bool
  pf_engine :: "string \<Rightarrow> nat \<Rightarrow> handler"
  pf_nonfinite :: "'w layer"
  pf_log :: "('w, string list mutex) cell"
  pf_rl :: "nat \<Rightarrow> ('w, rl_shared mutex) cell"
  pf_sw :: "nat \<Rightarrow> ('w, sw_shared mutex) cell"
  pf_cb :: "nat \<Rightarrow> ('w, cb_shared mutex) cell"
  pf_cache :: "nat \<Rightarrow> ('w, local_cache mutex) cell"
  pf_budget :: "nat \<Rightarrow> ('w, budget_state mutex) cell"
  pf_counter :: "nat \<Rightarrow> ('w, 64 word) cell"

primrec mw_layer :: "'w platform \<Rightarrow> nat \<Rightarrow> 'w middleware \<Rightarrow> 'w layer" where
  "mw_layer pf i (MW_Log l) = tl_call (pf_env pf) (pf_log pf) (pf_fmt_uri pf) (pf_reason pf) l"
| "mw_layer pf i (MW_Latency l) = li_call (pf_env pf) (pf_rand_range pf) l"
| "mw_layer pf i (MW_Bandwidth t) = bt_call t"
| "mw_layer pf i (MW_Fault f) = fi_call (pf_roll pf) f"
| "mw_layer pf i (MW_Rate_Limit r) =
     (case r of
        None \<Rightarrow> pf_nonfinite pf
      | Some l \<Rightarrow> rl_call (pf_env pf) (rl_store_take (pf_env pf) (pf_rl pf i)) (limiter_key l))"
| "mw_layer pf i (MW_Redis_Rate_Limit s fb key_fn) =
     rl_call (pf_env pf)
       (redis_rl_take (pf_overflow_checks pf) (pf_redis pf) s (rl_store_take (pf_env pf) (pf_rl pf i))) key_fn"
| "mw_layer pf i (MW_Sliding_Window s) =
     sw_call (pf_env pf) (sw_store_take (pf_env pf) (pf_sw pf i)) (sliding_key s)"
| "mw_layer pf i (MW_Redis_Sliding_Window s fb key_fn) =
     sw_call (pf_env pf)
       (redis_sw_take (pf_member pf) (pf_redis pf) s (sw_store_take (pf_env pf) (pf_sw pf i))) key_fn"
| "mw_layer pf i (MW_Retry r) =
     (\<lambda>inner. retry_call \<lparr>rx_env = pf_env pf, rx_inner = inner, rx_polls = pf_polls pf, rx_rand = pf_rand pf,
        rx_budget = (if rt_budget_state r = None then None else Some (pf_budget pf i)),
        rx_overflow_checks = pf_overflow_checks pf\<rparr> r)"
| "mw_layer pf i (MW_Circuit_Breaker st b) =
     cb_call (cb_store_check (pf_env pf) (pf_cb pf i)) (cb_store_record (pf_env pf) (pf_cb pf i)) b"
| "mw_layer pf i (MW_Redis_Circuit_Breaker s fb cache b) =
     cb_call (redis_cb_check (pf_overflow_checks pf) (pf_env pf) (pf_redis pf) (pf_cache pf i) s
                (cb_store_check (pf_env pf) (pf_cb pf i)))
             (redis_cb_record (pf_overflow_checks pf) (pf_redis pf) (pf_cache pf i) s
                (cb_store_record (pf_env pf) (pf_cb pf i))) b"
| "mw_layer pf i (MW_Respond s) = sr_call s"
| "mw_layer pf i (MW_Block b) = bl_call b"
| "mw_layer pf i (MW_Headers m) = mh_layer m"
| "mw_layer pf i (MW_Rewrite u) = ur_call (pf_parse_pq pf) (pf_from_parts pf) u"
| "mw_layer pf i MW_Decode = cd_call (pf_decoder pf)"
| "mw_layer pf i (MW_Script l) =
     script_call (pf_http pf) (pf_fmt_uri pf) (pf_getenv pf) (pf_alive pf) (pf_engine pf) l"
| "mw_layer pf i (MW_Router r) = router_call (pf_rand pf) r"
| "mw_layer pf i (MW_Fn f) = from_fn_call f"
| "mw_layer pf i (MW_When p m) = cond_layer (cond_when p (mw_layer pf i m) cond_new)"

text \<open>The allocations the constructor of a middleware makes.\<close>

primrec mw_install :: "'w platform \<Rightarrow> nat \<Rightarrow> 'w middleware \<Rightarrow> 'w \<Rightarrow> 'w" where
  "mw_install pf i (MW_Log l) w = w"
| "mw_install pf i (MW_Latency l) w = w"
| "mw_install pf i (MW_Bandwidth t) w = w"
| "mw_install pf i (MW_Fault f) w = w"
| "mw_install pf i (MW_Rate_Limit r) w =
     (case r of None \<Rightarrow> w | Some l \<Rightarrow> cell_put (pf_rl pf i) (limiter_store l) w)"
| "mw_install pf i (MW_Redis_Rate_Limit s fb key_fn) w = cell_put (pf_rl pf i) fb w"
| "mw_install pf i (MW_Sliding_Window s) w = cell_put (pf_sw pf i) (sliding_store s) w"
| "mw_install pf i (MW_Redis_Sliding_Window s fb key_fn) w = cell_put (pf_sw pf i) fb w"
| "mw_install pf i (MW_Retry r) w =
     (case rt_budget_state r of None \<Rightarrow> w | Some b \<Rightarrow> cell_put (pf_budget pf i) (Unlocked b) w)"
| "mw_install pf i (MW_Circuit_Breaker st b) w = cell_put (pf_cb pf i) st w"
| "mw_install pf i (MW_Redis_Circuit_Breaker s fb cache b) w =
     cell_put (pf_cache pf i) cache (cell_put (pf_cb pf i) fb w)"
| "mw_install pf i (MW_Respond s) w = w"
| "mw_install pf i (MW_Block b) w = w"
| "mw_install pf i (MW_Headers m) w = w"
| "mw_install pf i (MW_Rewrite u) w = w"
| "mw_install pf i MW_Decode w = w"
| "mw_install pf i (MW_Script l) w = w"
| "mw_install pf i (MW_Router r) w = w"
| "mw_install pf i (MW_Fn f) w = w"
| "mw_install pf i (MW_When p m) w = mw_install pf i m w"

section \<open>Builder\<close>

text \<open>A certificate authority and a TLS identity are the certificate and key they were read from; reading
  and checking them is code of \<^verbatim>\<open>rustls\<close> and its helpers.\<close>

type_synonym pem_pair = "string \<times> string"

record 'w proxy_builder =
  pb_ca :: "pem_pair option"
  pb_layers :: "'w middleware list"
  pb_accept_invalid_upstream_certs :: bool
  pb_handshake_timeout :: "duration option"
  pb_idle_timeout :: "duration option"
  pb_connect_timeout :: "duration option"
  pb_request_timeout :: "duration option"
  pb_max_connections :: "nat option"
  pb_drain_timeout :: "duration option"
  pb_credentials :: "(string \<times> string) list"
  pb_pool_max_idle_per_host :: nat
  pb_pool_idle_timeout :: duration
  pb_upstream_target :: "(authority \<times> string) option"
  pb_tls_identity :: "pem_pair option"
  pb_routes :: "((request \<Rightarrow> bool) \<times> 'w upstream) list"

definition pb_new :: "'w proxy_builder" where
  "pb_new =
     \<lparr>pb_ca = None, pb_layers = [], pb_accept_invalid_upstream_certs = False, pb_handshake_timeout = None,
      pb_idle_timeout = None, pb_connect_timeout = Some (from_secs 30), pb_request_timeout = None,
      pb_max_connections = None, pb_drain_timeout = None, pb_credentials = [], pb_pool_max_idle_per_host = 8,
      pb_pool_idle_timeout = from_secs 90, pb_upstream_target = None, pb_tls_identity = None, pb_routes = []\<rparr>"

definition pb_set_ca_pem :: "(string \<Rightarrow> string \<Rightarrow> pem_pair result) \<Rightarrow> string \<Rightarrow> string \<Rightarrow> 'w proxy_builder \<Rightarrow> 'w proxy_builder result" where
  "pb_set_ca_pem from_pem cert_pem key_pem b = and_then (from_pem cert_pem key_pem) (\<lambda>ca. Inr (b\<lparr>pb_ca := Some ca\<rparr>))"

definition pb_set_ca_pem_files :: "(string \<Rightarrow> string \<Rightarrow> pem_pair result) \<Rightarrow> string \<Rightarrow> string \<Rightarrow> 'w proxy_builder \<Rightarrow> 'w proxy_builder result" where
  "pb_set_ca_pem_files from_pem_files cert_path key_path b =
     and_then (from_pem_files cert_path key_path) (\<lambda>ca. Inr (b\<lparr>pb_ca := Some ca\<rparr>))"

definition pb_set_ca :: "pem_pair \<Rightarrow> 'w proxy_builder \<Rightarrow> 'w proxy_builder" where
  "pb_set_ca ca b = b\<lparr>pb_ca := Some ca\<rparr>"

definition pb_layer :: "'w middleware \<Rightarrow> 'w proxy_builder \<Rightarrow> 'w proxy_builder" where
  "pb_layer l b = b\<lparr>pb_layers := pb_layers b @ [l]\<rparr>"

definition pb_middleware :: "(request \<Rightarrow> (request \<Rightarrow> 'w future) \<Rightarrow> 'w future) \<Rightarrow> 'w proxy_builder \<Rightarrow> 'w proxy_builder" where
  "pb_middleware f = pb_layer (MW_Fn f)"

definition pb_traffic_logger :: "(string \<Rightarrow> string option) \<Rightarrow> 'w proxy_builder \<Rightarrow> 'w proxy_builder" where
  "pb_traffic_logger header_name = pb_layer (MW_Log (tl_new header_name))"

definition pb_latency :: "duration \<Rightarrow> 'w proxy_builder \<Rightarrow> 'w proxy_builder" where
  "pb_latency d = pb_layer (MW_Latency (li_fixed d))"

definition pb_bandwidth :: "nat \<Rightarrow> 'w proxy_builder \<Rightarrow> 'w proxy_builder result" where
  "pb_bandwidth bps b = and_then (bt_new bps) (\<lambda>t. Inr (pb_layer (MW_Bandwidth t) b))"

definition pb_rate_limit :: "nat \<Rightarrow> duration \<Rightarrow> instant \<Rightarrow> 'w proxy_builder \<Rightarrow> 'w proxy_builder" where
  "pb_rate_limit cnt window now = pb_layer (MW_Rate_Limit (rl_global cnt window now))"

definition pb_sliding_window :: "nat \<Rightarrow> duration \<Rightarrow> instant \<Rightarrow> 'w proxy_builder \<Rightarrow> 'w proxy_builder" where
  "pb_sliding_window cnt window now = pb_layer (MW_Sliding_Window (sw_global cnt window now))"

definition pb_retry :: "nat \<Rightarrow> 'w proxy_builder \<Rightarrow> 'w proxy_builder" where
  "pb_retry max_retries = pb_layer (MW_Retry (retry_max_retries max_retries retry_default))"

definition pb_circuit_breaker :: "32 word \<Rightarrow> duration \<Rightarrow> instant \<Rightarrow> 'w proxy_builder \<Rightarrow> 'w proxy_builder" where
  "pb_circuit_breaker threshold recovery now =
     (case cb_global threshold recovery now of (st, cb) \<Rightarrow> pb_layer (MW_Circuit_Breaker st cb))"

definition pb_headers :: "modify_headers result \<Rightarrow> 'w proxy_builder \<Rightarrow> 'w proxy_builder result" where
  "pb_headers m b = and_then m (\<lambda>mh. Inr (pb_layer (MW_Headers mh) b))"

definition pb_set_request_header :: "http_params \<Rightarrow> string \<Rightarrow> string \<Rightarrow> 'w proxy_builder \<Rightarrow> 'w proxy_builder result" where
  "pb_set_request_header hp n v = pb_headers (mh_set_request (hp_header_name hp) (hp_header_value hp) n v mh_new)"

definition pb_remove_request_header :: "http_params \<Rightarrow> string \<Rightarrow> 'w proxy_builder \<Rightarrow> 'w proxy_builder result" where
  "pb_remove_request_header hp n = pb_headers (mh_remove_request (hp_header_name hp) n mh_new)"

definition pb_set_response_header :: "http_params \<Rightarrow> string \<Rightarrow> string \<Rightarrow> 'w proxy_builder \<Rightarrow> 'w proxy_builder result" where
  "pb_set_response_header hp n v = pb_headers (mh_set_response (hp_header_name hp) (hp_header_value hp) n v mh_new)"

definition pb_remove_response_header :: "http_params \<Rightarrow> string \<Rightarrow> 'w proxy_builder \<Rightarrow> 'w proxy_builder result" where
  "pb_remove_response_header hp n = pb_headers (mh_remove_response (hp_header_name hp) n mh_new)"

definition pb_block_hosts :: "(string \<Rightarrow> glob_matcher option) \<Rightarrow> string list \<Rightarrow> 'w proxy_builder \<Rightarrow> 'w proxy_builder result" where
  "pb_block_hosts glob ps b = and_then (bl_hosts glob ps) (\<lambda>bl. Inr (pb_layer (MW_Block bl) b))"

definition pb_block_paths :: "(string \<Rightarrow> glob_matcher option) \<Rightarrow> string list \<Rightarrow> 'w proxy_builder \<Rightarrow> 'w proxy_builder result" where
  "pb_block_paths glob ps b = and_then (bl_paths glob ps) (\<lambda>bl. Inr (pb_layer (MW_Block bl) b))"

text \<open>\<open>expect\<close> turns an invalid pattern into a panic.\<close>

definition pb_rewrite_path ::
  "(string \<Rightarrow> (string \<Rightarrow> (string \<times> string) list option) option) \<Rightarrow> string \<Rightarrow> string \<Rightarrow> 'w proxy_builder \<Rightarrow> 'w proxy_builder result"
where
  "pb_rewrite_path path_router pattern replacement b =
     (case ur_path path_router pattern replacement of
        Inl _ \<Rightarrow> Inl (Panicked ''invalid rewrite pattern'')
      | Inr u \<Rightarrow> Inr (pb_layer (MW_Rewrite u) b))"

definition pb_set_handshake_timeout :: "duration \<Rightarrow> 'w proxy_builder \<Rightarrow> 'w proxy_builder" where
  "pb_set_handshake_timeout t b = b\<lparr>pb_handshake_timeout := Some t\<rparr>"

definition pb_set_idle_timeout :: "duration \<Rightarrow> 'w proxy_builder \<Rightarrow> 'w proxy_builder" where
  "pb_set_idle_timeout t b = b\<lparr>pb_idle_timeout := Some t\<rparr>"

definition pb_set_connect_timeout :: "duration \<Rightarrow> 'w proxy_builder \<Rightarrow> 'w proxy_builder" where
  "pb_set_connect_timeout t b = b\<lparr>pb_connect_timeout := Some t\<rparr>"

definition pb_no_connect_timeout :: "'w proxy_builder \<Rightarrow> 'w proxy_builder" where
  "pb_no_connect_timeout b = b\<lparr>pb_connect_timeout := None\<rparr>"

definition pb_set_request_timeout :: "duration \<Rightarrow> 'w proxy_builder \<Rightarrow> 'w proxy_builder" where
  "pb_set_request_timeout t b = b\<lparr>pb_request_timeout := Some t\<rparr>"

definition pb_set_max_connections :: "nat \<Rightarrow> 'w proxy_builder \<Rightarrow> 'w proxy_builder" where
  "pb_set_max_connections n b = b\<lparr>pb_max_connections := Some n\<rparr>"

definition pb_set_drain_timeout :: "duration \<Rightarrow> 'w proxy_builder \<Rightarrow> 'w proxy_builder" where
  "pb_set_drain_timeout t b = b\<lparr>pb_drain_timeout := Some t\<rparr>"

definition pb_credential :: "string \<Rightarrow> string \<Rightarrow> 'w proxy_builder \<Rightarrow> 'w proxy_builder" where
  "pb_credential user pass b = b\<lparr>pb_credentials := pb_credentials b @ [(user, pass)]\<rparr>"

definition pb_set_pool_max_idle_per_host :: "nat \<Rightarrow> 'w proxy_builder \<Rightarrow> 'w proxy_builder" where
  "pb_set_pool_max_idle_per_host n b = b\<lparr>pb_pool_max_idle_per_host := n\<rparr>"

definition pb_set_pool_idle_timeout :: "duration \<Rightarrow> 'w proxy_builder \<Rightarrow> 'w proxy_builder" where
  "pb_set_pool_idle_timeout t b = b\<lparr>pb_pool_idle_timeout := t\<rparr>"

definition pb_danger_accept_invalid_upstream_certs :: "'w proxy_builder \<Rightarrow> 'w proxy_builder" where
  "pb_danger_accept_invalid_upstream_certs b = b\<lparr>pb_accept_invalid_upstream_certs := True\<rparr>"

definition pb_reverse_proxy :: "(string \<Rightarrow> uri option) \<Rightarrow> string \<Rightarrow> 'w proxy_builder \<Rightarrow> 'w proxy_builder result" where
  "pb_reverse_proxy parse_uri url b =
     and_then (ok_or (Box_Error ''invalid upstream URL'') (parse_uri url)) (\<lambda>u.
     and_then (ok_or (Box_Error ''upstream URL must contain a host'') (uri_authority u)) (\<lambda>a.
       Inr (b\<lparr>pb_upstream_target := Some (a, case uri_scheme u of None \<Rightarrow> ''http'' | Some sc \<Rightarrow> sc)\<rparr>)))"

definition pb_set_tls_identity :: "(string \<Rightarrow> string \<Rightarrow> pem_pair result) \<Rightarrow> string \<Rightarrow> string \<Rightarrow> 'w proxy_builder \<Rightarrow> 'w proxy_builder result" where
  "pb_set_tls_identity read_identity cert_path key_path b =
     and_then (read_identity cert_path key_path) (\<lambda>ident. Inr (b\<lparr>pb_tls_identity := Some ident\<rparr>))"

definition pb_route :: "(request \<Rightarrow> bool) \<Rightarrow> 'w upstream \<Rightarrow> 'w proxy_builder \<Rightarrow> 'w proxy_builder" where
  "pb_route p u b = b\<lparr>pb_routes := pb_routes b @ [(p, u)]\<rparr>"

text \<open>The counter of a new upstream is the cell with the number of the route it is made for.\<close>

definition pb_route_prefix ::
  "(string \<Rightarrow> uri option) \<Rightarrow> (nat \<Rightarrow> ('w, 64 word) cell) \<Rightarrow> string \<Rightarrow> string \<Rightarrow> 'w proxy_builder \<Rightarrow> 'w proxy_builder result"
where
  "pb_route_prefix parse_uri counter prefix url b =
     and_then (upstream_new parse_uri (counter (length (pb_routes b))) [url]) (\<lambda>u.
       Inr (pb_route (\<lambda>req. strip_prefix prefix (uri_path (req_uri req)) \<noteq> None) u b))"

definition pb_route_prefix_balanced ::
  "(string \<Rightarrow> uri option) \<Rightarrow> (nat \<Rightarrow> ('w, 64 word) cell) \<Rightarrow> string \<Rightarrow> string list \<Rightarrow> 'w proxy_builder \<Rightarrow> 'w proxy_builder result"
where
  "pb_route_prefix_balanced parse_uri counter prefix urls b =
     and_then (upstream_new parse_uri (counter (length (pb_routes b))) urls) (\<lambda>u.
       Inr (pb_route (\<lambda>req. strip_prefix prefix (uri_path (req_uri req)) \<noteq> None) u b))"

section \<open>Building\<close>

datatype proxy_mode =
    Forward pem_pair "(string \<times> string) list option" "pem_pair option"
  | Reverse authority string "pem_pair option"

record 'w proxy =
  px_mode :: proxy_mode
  px_layers :: "'w middleware list"
  px_connector :: upstream_connector
  px_accept_invalid_upstream_certs :: bool
  px_pool_max_idle_per_host :: nat
  px_pool_idle_timeout :: duration
  px_handshake_timeout :: "duration option"
  px_idle_timeout :: "duration option"
  px_request_timeout :: "duration option"
  px_max_connections :: "nat option"
  px_drain_timeout :: "duration option"

definition build_router :: "((request \<Rightarrow> bool) \<times> 'w upstream) list \<Rightarrow> 'w router" where
  "build_router routes = fold (\<lambda>(p, u) r. router_route p u r) routes router_new"

text \<open>\<open>with_single_cert\<close> is rustls' check of a certificate against its key.\<close>

definition proxy_build :: "(pem_pair \<Rightarrow> unit result) \<Rightarrow> 'w proxy_builder \<Rightarrow> 'w proxy result" where
  "proxy_build with_single_cert b =
     (let acceptor = (case pb_tls_identity b of
            None \<Rightarrow> Inr None
          | Some ident \<Rightarrow> and_then (with_single_cert ident) (\<lambda>_. Inr (Some ident)));
          mode = (case pb_upstream_target b of
            Some (authority, scheme) \<Rightarrow> and_then acceptor (\<lambda>tls. Inr (Reverse authority scheme tls))
          | None \<Rightarrow>
              and_then (ok_or (Box_Error ''CertificateAuthority must be set'') (pb_ca b)) (\<lambda>ca.
              and_then acceptor (\<lambda>tls.
                Inr (Forward ca (if pb_credentials b = [] then None else Some (pb_credentials b)) tls))));
          layers = (if pb_routes b = [] then pb_layers b
                    else pb_layers b @ [MW_Router (build_router (pb_routes b))])
      in and_then mode (\<lambda>m.
           Inr \<lparr>px_mode = m, px_layers = layers,
                px_connector = \<lparr>conn_connect_timeout = pb_connect_timeout b\<rparr>,
                px_accept_invalid_upstream_certs = pb_accept_invalid_upstream_certs b,
                px_pool_max_idle_per_host = pb_pool_max_idle_per_host b,
                px_pool_idle_timeout = pb_pool_idle_timeout b,
                px_handshake_timeout = pb_handshake_timeout b, px_idle_timeout = pb_idle_timeout b,
                px_request_timeout = pb_request_timeout b, px_max_connections = pb_max_connections b,
                px_drain_timeout = pb_drain_timeout b\<rparr>))"

section \<open>The service chain\<close>

text \<open>\<open>for layer_fn in layers.iter().rev() { service = layer_fn(service) }\<close>, with the address of each layer.\<close>

fun wrap_layers :: "'w platform \<Rightarrow> nat \<Rightarrow> 'w middleware list \<Rightarrow> 'w service \<Rightarrow> 'w service" where
  "wrap_layers pf i [] svc = svc"
| "wrap_layers pf i (m # ms) svc = mw_layer pf i m (wrap_layers pf (Suc i) ms svc)"

definition build_service_chain :: "'w platform \<Rightarrow> 'w proxy \<Rightarrow> authority \<Rightarrow> string \<Rightarrow> 'w service" where
  "build_service_chain pf px authority scheme =
     wrap_layers pf 0 (px_layers px)
       (forward_call (hp_header_name (pf_http pf)) (pf_from_parts pf) (pf_timeout pf) (pf_client pf)
          \<lparr>fwd_authority = authority, fwd_scheme = scheme, fwd_request_timeout = px_request_timeout px\<rparr>)"

fun install_layers :: "'w platform \<Rightarrow> nat \<Rightarrow> 'w middleware list \<Rightarrow> 'w \<Rightarrow> 'w" where
  "install_layers pf i [] w = w"
| "install_layers pf i (m # ms) w = install_layers pf (Suc i) ms (mw_install pf i m w)"

text \<open>The adapter looks at the first \<^verbatim>\<open>Connection\<close> header only.  The second component of its answer says
  whether it spawns a tunnel.\<close>

definition adapter_is_upgrade :: "request \<Rightarrow> bool" where
  "adapter_is_upgrade req =
     (case Option.bind (hdr_get (req_headers req) ''connection'') to_str of
        Some v \<Rightarrow> list_ex (\<lambda>t. eq_ignore_ascii_case (trim t) ''upgrade'') (split_on (CHR '','') v)
      | None \<Rightarrow> False)"

definition adapter_call :: "'w service \<Rightarrow> request \<Rightarrow> 'w \<Rightarrow> (response \<times> bool) result \<times> 'w" where
  "adapter_call inner req w =
     (case inner req w of (fut, w1) \<Rightarrow>
      case fut w1 of
        (Inl e, w2) \<Rightarrow> (Inl e, w2)
      | (Inr resp, w2) \<Rightarrow> (Inr (resp, resp_status resp = 101 \<and> adapter_is_upgrade req), w2))"

text \<open>The task the adapter spawns for an upgrade.  \<open>relay\<close> is when and how \<open>relay_tunnel\<close> ends, \<open>relay_first\<close> how
  \<open>select!\<close> decides a tie.  A receiver is when its sender signals; \<open>Some None\<close> is a sender that is dropped
  without a signal.\<close>

definition wait_for_shutdown :: "duration option option \<Rightarrow> duration option" where
  "wait_for_shutdown rx = (case rx of Some (Some s) \<Rightarrow> Some s | Some None \<Rightarrow> None | None \<Rightarrow> None)"

datatype tunnel_end = Upgrade_Failed | Relay_Ended tunnel_outcome | Torn_Down

definition tunnel_task ::
  "bool \<Rightarrow> unit result \<Rightarrow> unit result \<Rightarrow> (duration \<times> tunnel_outcome) option \<Rightarrow> duration option option \<Rightarrow> tunnel_end option"
where
  "tunnel_task relay_first client_upgrade upstream_upgrade relay rx =
     (case (client_upgrade, upstream_upgrade) of
        (Inr _, Inr _) \<Rightarrow>
          (case (relay, wait_for_shutdown rx) of
             (None, None) \<Rightarrow> None
           | (Some (d, out), None) \<Rightarrow> Some (Relay_Ended out)
           | (None, Some s) \<Rightarrow> Some Torn_Down
           | (Some (d, out), Some s) \<Rightarrow>
               if d < s \<or> (d = s \<and> relay_first) then Some (Relay_Ended out) else Some Torn_Down)
      | _ \<Rightarrow> Some Upgrade_Failed)"

text \<open>A tunnel outlives a shutdown signal in no case, whatever its peers do.\<close>

lemma tunnel_ends_on_shutdown: "tunnel_task relay_first cu uu relay (Some (Some s)) \<noteq> None"
  by (auto simp: tunnel_task_def wait_for_shutdown_def split: sum.splits option.splits)

section \<open>Connections\<close>

text \<open>An asynchronous computation is its duration and result, or \<open>None\<close> when it never ends.  \<open>tls_accept\<close>
  is the client-facing TLS accept, made only when the listener has an identity.\<close>

type_synonym 'a timed = "(duration \<times> 'a result) option"

definition timed_bind :: "'a timed \<Rightarrow> ('a \<Rightarrow> 'b timed) \<Rightarrow> 'b timed" where
  "timed_bind x f =
     (case x of
        None \<Rightarrow> None
      | Some (d, Inl e) \<Rightarrow> Some (d, Inl e)
      | Some (d, Inr a) \<Rightarrow> map_option (\<lambda>(d', r). (d + d', r)) (f a))"

text \<open>\<open>tokio::time::timeout\<close> polls the computation before the timer.\<close>

definition with_handshake_timeout :: "duration option \<Rightarrow> 'a timed \<Rightarrow> 'a timed" where
  "with_handshake_timeout timeout h =
     (case timeout of
        Some t \<Rightarrow>
          (case h of
             Some (d, r) \<Rightarrow> if d \<le> t then Some (d, r) else Some (t, Inl (Box_Error ''handshake timed out''))
           | None \<Rightarrow> Some (t, Inl (Box_Error ''handshake timed out'')))
      | None \<Rightarrow> h)"

text \<open>What \<open>serve_client\<close> hands to hyper, and what it leaves in the adapter for tunnels.\<close>

record conn_settings =
  cs_tunnel_idle_timeout :: "duration option"
  cs_header_read_timeout :: "duration option"
  cs_keep_alive_interval :: "duration option"
  cs_keep_alive_timeout :: "duration option"

definition serve_settings :: "'w proxy \<Rightarrow> conn_settings" where
  "serve_settings px =
     \<lparr>cs_tunnel_idle_timeout = px_idle_timeout px, cs_header_read_timeout = px_idle_timeout px,
      cs_keep_alive_interval = map_option (\<lambda>idle. idle div 2) (px_idle_timeout px),
      cs_keep_alive_timeout = px_idle_timeout px\<rparr>"

text \<open>\<open>conn\<close> is hyper's connection under those settings, \<open>graceful s\<close> the same connection told at time \<open>s\<close> to
  shut down; \<open>shutdown\<close> is when the signal comes, and \<open>conn_first\<close> how \<open>select!\<close> decides a tie.\<close>

definition serve_client ::
  "bool \<Rightarrow> 'w proxy \<Rightarrow> (conn_settings \<Rightarrow> unit timed) \<Rightarrow> (conn_settings \<Rightarrow> duration \<Rightarrow> unit timed) \<Rightarrow> duration option \<Rightarrow> unit timed"
where
  "serve_client conn_first px conn graceful shutdown =
     (case (conn (serve_settings px), shutdown) of
        (c, None) \<Rightarrow> c
      | (Some (d, r), Some s) \<Rightarrow>
          if d < s \<or> (d = s \<and> conn_first) then Some (d, r)
          else map_option (\<lambda>(d', _). (d', Inr ())) (graceful (serve_settings px) s)
      | (None, Some s) \<Rightarrow> map_option (\<lambda>(d', _). (d', Inr ())) (graceful (serve_settings px) s))"

definition handle_forward_connection ::
  "'w proxy \<Rightarrow> pem_pair option \<Rightarrow> unit timed \<Rightarrow> 'a timed \<Rightarrow> ('a \<Rightarrow> unit timed) \<Rightarrow> unit timed"
where
  "handle_forward_connection px tls_acceptor tls_accept h serve =
     (case tls_acceptor of
        Some _ \<Rightarrow> timed_bind tls_accept (\<lambda>_. timed_bind (with_handshake_timeout (px_handshake_timeout px) h) serve)
      | None \<Rightarrow> timed_bind (with_handshake_timeout (px_handshake_timeout px) h) serve)"

definition handle_reverse_connection ::
  "authority \<Rightarrow> string \<Rightarrow> pem_pair option \<Rightarrow> unit timed \<Rightarrow> (authority \<times> string \<Rightarrow> unit timed) \<Rightarrow> unit timed"
where
  "handle_reverse_connection upstream_authority upstream_scheme tls_acceptor tls_accept serve =
     (case tls_acceptor of
        Some _ \<Rightarrow> timed_bind tls_accept (\<lambda>_. serve (upstream_authority, upstream_scheme))
      | None \<Rightarrow> serve (upstream_authority, upstream_scheme))"

text \<open>\<open>serve\<close> is \<open>serve_client\<close> on the service chain for that authority and scheme; \<open>h\<close> is \<open>handshake\<close> of
  theory \<open>Handshake\<close> under the credentials of the mode.\<close>

definition handle_connection_inner ::
  "'w proxy \<Rightarrow> unit timed \<Rightarrow> ((string \<times> string) list option \<Rightarrow> authority timed) \<Rightarrow>
   (authority \<times> string \<Rightarrow> unit timed) \<Rightarrow> unit timed"
where
  "handle_connection_inner px tls_accept h serve =
     (case px_mode px of
        Forward ca credentials tls_acceptor \<Rightarrow>
          handle_forward_connection px tls_acceptor tls_accept (h credentials) (\<lambda>a. serve (a, ''https''))
      | Reverse upstream_authority upstream_scheme tls_acceptor \<Rightarrow>
          handle_reverse_connection upstream_authority upstream_scheme tls_acceptor tls_accept serve)"

lemma handshake_timeout_bounds:
  "\<exists>d r. with_handshake_timeout (Some t) h = Some (d, r) \<and> d \<le> t"
  by (cases h) (auto simp: with_handshake_timeout_def)

text \<open>A plain-text client whose handshake does not end in time is dropped at the timeout.\<close>

lemma forward_handshake_times_out:
  assumes "px_handshake_timeout px = Some t" "\<And>d r. h = Some (d, r) \<Longrightarrow> t < d"
  shows "handle_forward_connection px None tls_accept h serve = Some (t, Inl (Box_Error ''handshake timed out''))"
  using assms by (cases h) (auto simp: handle_forward_connection_def with_handshake_timeout_def timed_bind_def)

text \<open>The client-facing TLS handshake is outside the timeout: a client that never finishes it holds the
  connection.\<close>

lemma handshake_timeout_misses_tls:
  "handle_forward_connection px (Some ident) None h serve = None"
  "handle_reverse_connection a sch (Some ident) None serve' = None"
  by (simp_all add: handle_forward_connection_def handle_reverse_connection_def timed_bind_def)

text \<open>After the shutdown signal the error of a connection is logged, not returned.\<close>

lemma serve_client_shutdown_ok:
  assumes "shutdown = Some s" "\<And>d r. conn (serve_settings px) = Some (d, r) \<Longrightarrow> s < d"
    "serve_client conn_first px conn graceful shutdown = Some (d, r)"
  shows "r = Inr ()"
  using assms by (auto simp: serve_client_def split: option.splits if_splits)

section \<open>Lemmas\<close>

lemma build_router_routes: "router_routes (build_router routes) = routes" "router_default (build_router routes) = None"
proof -
  have "router_routes (fold (\<lambda>(p, u) r. router_route p u r) routes r) = router_routes r @ routes \<and>
      router_default (fold (\<lambda>(p, u) r. router_route p u r) routes r) = router_default r" for r
    by (induction routes arbitrary: r) (auto simp: router_route_def)
  then show "router_routes (build_router routes) = routes" "router_default (build_router routes) = None"
    by (simp_all add: build_router_def router_new_def)
qed

lemma proxy_build_layers:
  "proxy_build with_single_cert b = Inr px \<Longrightarrow>
     px_layers px = pb_layers b @ (if pb_routes b = [] then [] else [MW_Router (build_router (pb_routes b))])"
  by (auto simp: proxy_build_def Let_def and_then_Inr_iff)

lemma wrap_layers_append:
  "wrap_layers pf i (ms @ ns) svc = wrap_layers pf i ms (wrap_layers pf (i + length ms) ns svc)"
  by (induction ms arbitrary: i) simp_all

text \<open>A reverse proxy with routes answers 502 when no route matches, although it has a default upstream.\<close>

lemma routes_without_default:
  assumes "routes \<noteq> []" "list_all (\<lambda>(p, _). \<not> p req) routes"
  shows "mw_layer pf i (MW_Router (build_router routes)) inner req w =
     (ready (Inr (response_with 502 (full_body ''no upstream configured for this request''))), w)"
proof -
  have "List.find (\<lambda>(p, _). p req) routes = None"
    using assms(2) by (auto simp: find_None_iff list_all_iff)
  then show ?thesis by (simp add: router_call_def router_target_def build_router_routes)
qed

end
