(* ===== verification/Accept_Loop.thy ===== *)
theory Accept_Loop
  imports Main
begin

text \<open>
  The accept loop and the drain of a listener, \<open>Proxy::listen_on_with_shutdown\<close> of \<^verbatim>\<open>src/src/lib.rs\<close>, as a
  step relation.  The connection limit is a semaphore of \<open>max\<close> permits.  One iteration of the loop either
  accepts a stream and then waits for a permit, inside the branch of the \<^verbatim>\<open>select!\<close>, or sees the shutdown
  future.  After the loop the shutdown flag is sent to the connections, and the tasks are joined, up to
  the drain timeout.

  Steps of the program and of its environment interleave: a task may finish at any time, the shutdown
  future may complete at any time, and accepting may fail.

  Shown here: the number of connections served at the same time never exceeds the limit and permits are
  never lost; and, while an accepted stream waits for a permit, the shutdown signal is not looked at.
\<close>

datatype loop_phase = Accepting | Awaiting_Permit | Draining | Stopped | Failed

record listener =
  ln_permits :: "nat option"
  ln_tasks :: nat
  ln_phase :: loop_phase
  ln_signalled :: bool
  ln_told :: bool

definition listener_start :: "nat option \<Rightarrow> listener" where
  "listener_start limit =
     \<lparr>ln_permits = limit, ln_tasks = 0, ln_phase = Accepting, ln_signalled = False, ln_told = False\<rparr>"

text \<open>\<^verbatim>\<open>acquire_owned\<close> when it need not wait, and the drop of a permit\<close>

definition take_permit :: "nat option \<Rightarrow> nat option option" where
  "take_permit p = (case p of None \<Rightarrow> Some None | Some 0 \<Rightarrow> None | Some (Suc n) \<Rightarrow> Some (Some n))"

definition give_permit :: "nat option \<Rightarrow> nat option" where
  "give_permit p = map_option Suc p"

datatype label = Accept | Grant | Accept_Error | Break | Joined | Drain_Timeout | Finish | Signal

inductive listen_step :: "bool \<Rightarrow> label \<Rightarrow> listener \<Rightarrow> listener \<Rightarrow> bool" for drain_timeout :: bool where
  accept_now:
    "ln_phase s = Accepting \<Longrightarrow> take_permit (ln_permits s) = Some p \<Longrightarrow>
     listen_step drain_timeout Accept s (s\<lparr>ln_permits := p, ln_tasks := Suc (ln_tasks s)\<rparr>)"
| accept_wait:
    "ln_phase s = Accepting \<Longrightarrow> take_permit (ln_permits s) = None \<Longrightarrow>
     listen_step drain_timeout Accept s (s\<lparr>ln_phase := Awaiting_Permit\<rparr>)"
| grant:
    "ln_phase s = Awaiting_Permit \<Longrightarrow> take_permit (ln_permits s) = Some p \<Longrightarrow>
     listen_step drain_timeout Grant s
       (s\<lparr>ln_permits := p, ln_tasks := Suc (ln_tasks s), ln_phase := Accepting\<rparr>)"
| accept_error:
    "ln_phase s = Accepting \<Longrightarrow>
     listen_step drain_timeout Accept_Error s (s\<lparr>ln_phase := Failed, ln_tasks := 0\<rparr>)"
| break:
    "ln_phase s = Accepting \<Longrightarrow> ln_signalled s \<Longrightarrow>
     listen_step drain_timeout Break s (s\<lparr>ln_phase := Draining, ln_told := True\<rparr>)"
| joined:
    "ln_phase s = Draining \<Longrightarrow> ln_tasks s = 0 \<Longrightarrow>
     listen_step drain_timeout Joined s (s\<lparr>ln_phase := Stopped\<rparr>)"
| timed_out:
    "ln_phase s = Draining \<Longrightarrow> drain_timeout \<Longrightarrow>
     listen_step drain_timeout Drain_Timeout s (s\<lparr>ln_phase := Stopped, ln_tasks := 0\<rparr>)"
| finish:
    "ln_tasks s = Suc n \<Longrightarrow>
     listen_step drain_timeout Finish s (s\<lparr>ln_tasks := n, ln_permits := give_permit (ln_permits s)\<rparr>)"
| signal:
    "listen_step drain_timeout Signal s (s\<lparr>ln_signalled := True\<rparr>)"

inductive_cases listen_stepE: "listen_step dt l s s'"

inductive listen_run :: "bool \<Rightarrow> listener \<Rightarrow> label list \<Rightarrow> listener \<Rightarrow> bool" for drain_timeout :: bool where
  run_done: "listen_run drain_timeout s [] s"
| run_step: "listen_step drain_timeout l s s1 \<Longrightarrow> listen_run drain_timeout s1 ls s2 \<Longrightarrow>
     listen_run drain_timeout s (l # ls) s2"

inductive_cases listen_runE: "listen_run dt s ls s'"

text \<open>Each label determines the next state, so runs can be computed.\<close>

fun listen_exec :: "bool \<Rightarrow> label \<Rightarrow> listener \<Rightarrow> listener option" where
  "listen_exec dt Accept s =
     (if ln_phase s = Accepting
      then Some (case take_permit (ln_permits s) of
                   Some p \<Rightarrow> s\<lparr>ln_permits := p, ln_tasks := Suc (ln_tasks s)\<rparr>
                 | None \<Rightarrow> s\<lparr>ln_phase := Awaiting_Permit\<rparr>)
      else None)"
| "listen_exec dt Grant s =
     (if ln_phase s = Awaiting_Permit
      then map_option (\<lambda>p. s\<lparr>ln_permits := p, ln_tasks := Suc (ln_tasks s), ln_phase := Accepting\<rparr>)
             (take_permit (ln_permits s))
      else None)"
| "listen_exec dt Accept_Error s =
     (if ln_phase s = Accepting then Some (s\<lparr>ln_phase := Failed, ln_tasks := 0\<rparr>) else None)"
| "listen_exec dt Break s =
     (if ln_phase s = Accepting \<and> ln_signalled s then Some (s\<lparr>ln_phase := Draining, ln_told := True\<rparr>) else None)"
| "listen_exec dt Joined s =
     (if ln_phase s = Draining \<and> ln_tasks s = 0 then Some (s\<lparr>ln_phase := Stopped\<rparr>) else None)"
| "listen_exec dt Drain_Timeout s =
     (if ln_phase s = Draining \<and> dt then Some (s\<lparr>ln_phase := Stopped, ln_tasks := 0\<rparr>) else None)"
| "listen_exec dt Finish s =
     (case ln_tasks s of 0 \<Rightarrow> None
      | Suc n \<Rightarrow> Some (s\<lparr>ln_tasks := n, ln_permits := give_permit (ln_permits s)\<rparr>))"
| "listen_exec dt Signal s = Some (s\<lparr>ln_signalled := True\<rparr>)"

fun listen_execs :: "bool \<Rightarrow> label list \<Rightarrow> listener \<Rightarrow> listener option" where
  "listen_execs dt [] s = Some s"
| "listen_execs dt (l # ls) s = Option.bind (listen_exec dt l s) (listen_execs dt ls)"

lemma listen_step_exec: "listen_step dt l s s' \<longleftrightarrow> listen_exec dt l s = Some s'"
proof
  assume "listen_step dt l s s'"
  then show "listen_exec dt l s = Some s'" by cases auto
next
  assume "listen_exec dt l s = Some s'"
  then show "listen_step dt l s s'"
    by (cases l) (auto intro: listen_step.intros split: if_splits option.splits nat.splits)
qed

lemma listen_run_execs: "listen_run dt s ls s' \<longleftrightarrow> listen_execs dt ls s = Some s'"
proof
  assume "listen_run dt s ls s'"
  then show "listen_execs dt ls s = Some s'"
    by induction (auto simp: listen_step_exec)
next
  assume "listen_execs dt ls s = Some s'"
  then show "listen_run dt s ls s'"
    by (induction ls arbitrary: s) (auto simp: bind_eq_Some_conv listen_step_exec intro: listen_run.intros)
qed

section \<open>Invariant\<close>

text \<open>While the listener lives, taken permits and running tasks are the same number.\<close>

definition permits_ok :: "nat option \<Rightarrow> listener \<Rightarrow> bool" where
  "permits_ok limit s \<longleftrightarrow>
     (case limit of
        None \<Rightarrow> ln_permits s = None
      | Some m \<Rightarrow> (\<exists>p. ln_permits s = Some p \<and> p + ln_tasks s \<le> m \<and>
          (ln_phase s \<notin> {Stopped, Failed} \<longrightarrow> p + ln_tasks s = m)))"

definition told_ok :: "listener \<Rightarrow> bool" where
  "told_ok s \<longleftrightarrow> (ln_told s \<longrightarrow> ln_signalled s) \<and> (ln_phase s \<in> {Accepting, Awaiting_Permit} \<longrightarrow> \<not> ln_told s) \<and>
     (ln_phase s \<in> {Stopped, Failed} \<longrightarrow> ln_tasks s = 0)"

lemma take_permit_Some:
  "take_permit p = Some q \<longleftrightarrow> (p = None \<and> q = None) \<or> (\<exists>n. p = Some (Suc n) \<and> q = Some n)"
  by (auto simp: take_permit_def split: option.splits nat.splits)

lemma listen_step_permits:
  "listen_step dt l s s' \<Longrightarrow> permits_ok limit s \<Longrightarrow> permits_ok limit s'"
  by (erule listen_step.cases; cases limit)
     (auto simp: permits_ok_def take_permit_Some give_permit_def)

lemma listen_step_told: "listen_step dt l s s' \<Longrightarrow> told_ok s \<Longrightarrow> told_ok s'"
  by (induction rule: listen_step.induct) (auto simp: told_ok_def)

lemma listen_start_ok: "permits_ok limit (listener_start limit)" "told_ok (listener_start limit)"
  by (auto simp: permits_ok_def told_ok_def listener_start_def split: option.splits)

lemma listen_run_ok:
  "listen_run dt s ls s' \<Longrightarrow> permits_ok limit s \<Longrightarrow> told_ok s \<Longrightarrow> permits_ok limit s' \<and> told_ok s'"
  by (induction rule: listen_run.induct) (auto dest: listen_step_permits listen_step_told)

text \<open>Blocked on a permit with none left, nothing but the end of a connection gets the loop on.\<close>

lemma blocked_step:
  assumes "listen_step dt l s s'" "ln_phase s = Awaiting_Permit" "ln_permits s = Some 0" "l \<noteq> Finish"
  shows "ln_phase s' = Awaiting_Permit \<and> ln_permits s' = Some 0 \<and> ln_told s' = ln_told s \<and> ln_tasks s' = ln_tasks s"
  using assms by (auto elim!: listen_stepE simp: take_permit_Some)

lemma blocked_run:
  "listen_run dt s ls s' \<Longrightarrow> ln_phase s = Awaiting_Permit \<Longrightarrow> ln_permits s = Some 0 \<Longrightarrow> Finish \<notin> set ls \<Longrightarrow>
     ln_phase s' = Awaiting_Permit \<and> ln_permits s' = Some 0 \<and> ln_told s' = ln_told s \<and> ln_tasks s' = ln_tasks s"
proof (induction rule: listen_run.induct)
  case (run_step l s s1 ls s2)
  then have "ln_phase s1 = Awaiting_Permit \<and> ln_permits s1 = Some 0 \<and> ln_told s1 = ln_told s \<and> ln_tasks s1 = ln_tasks s"
    using blocked_step by (metis list.set_intros(1))
  then show ?case using run_step.IH run_step.prems by simp
qed simp

section \<open>Properties\<close>


text \<open>Two connections at a limit of one: the second waits, the shutdown is signalled, the first ends, the
  second is served, and only then the loop breaks, drains and stops.\<close>

definition listen_example_labels :: "label list" where
  "listen_example_labels = [Accept, Accept, Signal, Finish, Grant, Break, Finish, Joined]"

definition listen_example_end :: listener where
  "listen_example_end =
     \<lparr>ln_permits = Some 1, ln_tasks = 0, ln_phase = Stopped, ln_signalled = True, ln_told = True\<rparr>"

lemma listen_example_run: "listen_run False (listener_start (Some 1)) listen_example_labels listen_example_end"
  by (simp add: listen_run_execs listen_example_labels_def listen_example_end_def listener_start_def
      take_permit_def give_permit_def)


lemma execs_append:
  "listen_execs dt (ls @ qs) s = Option.bind (listen_execs dt ls s) (listen_execs dt qs)"
  by (induction ls arbitrary: s) (auto split: Option.bind_split)

text \<open>The first \<open>m\<close> accepts of a listener.\<close>

lemma accepts_fill:
  "k \<le> m \<Longrightarrow> listen_execs dt (replicate k Accept) (listener_start (Some m)) =
     Some ((listener_start (Some m))\<lparr>ln_permits := Some (m - k), ln_tasks := k\<rparr>)"
proof (induction k)
  case 0
  then show ?case by (simp add: listener_start_def)
next
  case (Suc k)
  have "replicate (Suc k) Accept = replicate k Accept @ [Accept]" by (simp add: replicate_append_same)
  moreover have "m - k = Suc (m - Suc k)" using Suc.prems by simp
  ultimately show ?case
    using Suc by (simp add: execs_append listener_start_def take_permit_def del: replicate_Suc)
qed

text \<open>C38. Let the limit be used up and one more stream be accepted, which is what happens when more clients
  than \<open>m\<close> connect.  As long as none of the \<open>m\<close> connections ends by itself, no sequence of steps, and in
  particular no completion of the shutdown future, lets the listener stop or even tell the connections
  to shut down: the loop waits for a permit and does not look at the signal.\<close>

theorem listen_deaf:
  assumes "listen_run dt (listener_start (Some m)) (replicate m Accept @ Accept # ls) s" "Finish \<notin> set ls"
  shows "ln_phase s = Awaiting_Permit \<and> \<not> ln_told s \<and> ln_tasks s = m"
proof -
  define full where
    "full = (listener_start (Some m))\<lparr>ln_permits := Some 0, ln_tasks := m, ln_phase := Awaiting_Permit\<rparr>"
  have "listen_run dt full ls s"
    using assms(1) unfolding listen_run_execs execs_append accepts_fill [OF le_refl]
    by (simp add: full_def listener_start_def take_permit_def)
  from blocked_run [OF this] assms(2) show ?thesis
    by (simp add: full_def listener_start_def)
qed

theorem listen_deaf_witness:
  "\<exists>s. listen_run False (listener_start (Some 2)) [Accept, Accept, Accept, Signal, Signal] s \<and>
     ln_signalled s \<and> ln_phase s = Awaiting_Permit \<and> \<not> ln_told s \<and> ln_tasks s = 2"
proof -
  obtain s where s: "listen_run False (listener_start (Some 2)) [Accept, Accept, Accept, Signal, Signal] s" "ln_signalled s"
    unfolding listen_run_execs by (simp add: listener_start_def take_permit_def numeral_2_eq_2)
  then show ?thesis
    using listen_deaf [of False 2 "[Signal, Signal]" s] by (auto simp: numeral_2_eq_2)
qed

end
