(* ===== verification/World.thy ===== *)
theory World
  imports Proxy Accept_Loop
begin

text \<open>
  A world for the whole proxy: the clock, the log, what the upstream client was given, and the heap of
  shared states, one field per kind of state, indexed by the address of the layer (or route) that owns
  it.  The cells of the world satisfy the contract of a shared mutex and do not alias, so every lemma
  proved from those contracts holds for a running proxy.  \<open>on_world\<close> puts the cells, the clock and the
  timer of this world into a platform and keeps its third-party parts arbitrary.
\<close>

record world =
  wd_clock :: instant
  wd_sent :: "request list"
  wd_log :: "string list mutex"
  wd_rl :: "nat \<Rightarrow> rl_shared mutex"
  wd_sw :: "nat \<Rightarrow> sw_shared mutex"
  wd_cb :: "nat \<Rightarrow> cb_shared mutex"
  wd_cache :: "nat \<Rightarrow> local_cache mutex"
  wd_budget :: "nat \<Rightarrow> budget_state mutex"
  wd_counter :: "nat \<Rightarrow> 64 word"

definition log_cell :: "(world, string list mutex) cell" where
  "log_cell = \<lparr>cell_get = wd_log, cell_put = (\<lambda>s w. w\<lparr>wd_log := s\<rparr>)\<rparr>"

definition rl_cell :: "nat \<Rightarrow> (world, rl_shared mutex) cell" where
  "rl_cell i = \<lparr>cell_get = (\<lambda>w. wd_rl w i), cell_put = (\<lambda>s w. w\<lparr>wd_rl := (wd_rl w)(i := s)\<rparr>)\<rparr>"

definition sw_cell :: "nat \<Rightarrow> (world, sw_shared mutex) cell" where
  "sw_cell i = \<lparr>cell_get = (\<lambda>w. wd_sw w i), cell_put = (\<lambda>s w. w\<lparr>wd_sw := (wd_sw w)(i := s)\<rparr>)\<rparr>"

definition cb_cell :: "nat \<Rightarrow> (world, cb_shared mutex) cell" where
  "cb_cell i = \<lparr>cell_get = (\<lambda>w. wd_cb w i), cell_put = (\<lambda>s w. w\<lparr>wd_cb := (wd_cb w)(i := s)\<rparr>)\<rparr>"

definition cache_cell :: "nat \<Rightarrow> (world, local_cache mutex) cell" where
  "cache_cell i = \<lparr>cell_get = (\<lambda>w. wd_cache w i), cell_put = (\<lambda>s w. w\<lparr>wd_cache := (wd_cache w)(i := s)\<rparr>)\<rparr>"

definition budget_cell :: "nat \<Rightarrow> (world, budget_state mutex) cell" where
  "budget_cell i = \<lparr>cell_get = (\<lambda>w. wd_budget w i), cell_put = (\<lambda>s w. w\<lparr>wd_budget := (wd_budget w)(i := s)\<rparr>)\<rparr>"

definition counter_cell :: "nat \<Rightarrow> (world, 64 word) cell" where
  "counter_cell i = \<lparr>cell_get = (\<lambda>w. wd_counter w i), cell_put = (\<lambda>s w. w\<lparr>wd_counter := (wd_counter w)(i := s)\<rparr>)\<rparr>"

named_theorems cell_defs \<open>the cells of the world\<close>

declare log_cell_def [cell_defs] rl_cell_def [cell_defs] sw_cell_def [cell_defs] cb_cell_def [cell_defs]
  cache_cell_def [cell_defs] budget_cell_def [cell_defs] counter_cell_def [cell_defs]

definition world_env :: "world env" where
  "world_env = \<lparr>env_now = (\<lambda>w. (wd_clock w, w)), env_sleep = (\<lambda>d w. w\<lparr>wd_clock := wd_clock w + int d\<rparr>)\<rparr>"

lemma world_env_simps [simp]:
  "env_now world_env w = (wd_clock w, w)"
  "env_sleep world_env d w = w\<lparr>wd_clock := wd_clock w + int d\<rparr>"
  by (simp_all add: world_env_def)

definition on_world :: "world platform \<Rightarrow> world platform" where
  "on_world pf = pf\<lparr>pf_env := world_env, pf_log := log_cell, pf_rl := rl_cell, pf_sw := sw_cell, pf_cb := cb_cell,
     pf_cache := cache_cell, pf_budget := budget_cell, pf_counter := counter_cell\<rparr>"

interpretation log_mutex: shared_mutex log_cell
  by unfold_locales (simp_all add: cell_defs)

interpretation rl_mutex: shared_mutex "rl_cell i" for i
  by unfold_locales (simp_all add: cell_defs)

interpretation sw_mutex: shared_mutex "sw_cell i" for i
  by unfold_locales (simp_all add: cell_defs)

interpretation cb_mutex: shared_mutex "cb_cell i" for i
  by unfold_locales (simp_all add: cell_defs)

interpretation cache_mutex: shared_mutex "cache_cell i" for i
  by unfold_locales (simp_all add: cell_defs)

interpretation budget_mutex: shared_mutex "budget_cell i" for i
  by unfold_locales (simp_all add: cell_defs)

interpretation counter_shared: shared_cell "counter_cell i" for i
  by unfold_locales (simp_all add: cell_defs)

interpretation cb_log: separate_cells "cb_cell i" log_cell for i
  by unfold_locales (simp_all add: cell_defs)

interpretation cb_rl: separate_cells "cb_cell i" "rl_cell j" for i j
  by unfold_locales (simp_all add: cell_defs)

end
