(* ===== verification/Config_Text.thy ===== *)
theory Config_Text
  imports Rust_Text Block_List Script
begin

text \<open>
  The texts of the configuration file, \<^verbatim>\<open>src/src/config.rs\<close>: durations, path patterns, and the match
  specifications that become predicates on requests.  \<open>parse_f64\<close> is Rust's \<^verbatim>\<open>f64::from_str\<close> with exact
  values; \<open>glob\<close> is the glob compiler.

  Shown here: durations in milliseconds and in whole seconds are read back as what they say, and a
  negative number of seconds panics; what a match specification accepts; a path with a trailing slash
  accepts the path itself.
\<close>

section \<open>Numbers\<close>

definition is_digit :: "char \<Rightarrow> bool" where
  "is_digit c = (digit_value c \<noteq> None)"

text \<open>The exponent part; the text is empty when there is none.\<close>

definition parse_exponent :: "string \<Rightarrow> int option" where
  "parse_exponent s =
     (case s of
        [] \<Rightarrow> Some 0
      | c # cs \<Rightarrow>
          if c = CHR ''e'' \<or> c = CHR ''E'' then
            (let (sign, ds) = (case cs of
                   x # xs \<Rightarrow> if x = CHR ''-'' then (-1, xs) else if x = CHR ''+'' then (1, xs) else (1, cs)
                 | [] \<Rightarrow> (1, []))
             in if ds = [] then None else map_option (\<lambda>n. sign * int n) (parse_digits 0 ds))
          else None)"

definition scale10 :: "real \<Rightarrow> int \<Rightarrow> real" where
  "scale10 x e = (if 0 \<le> e then x * 10 ^ nat e else x / 10 ^ nat (- e))"

definition parse_decimal :: "string \<Rightarrow> real option" where
  "parse_decimal s =
     (let ip = takeWhile is_digit s; r = dropWhile is_digit s;
          (fp, r2) = (case r of
             c # t \<Rightarrow> if c = CHR ''.'' then (takeWhile is_digit t, dropWhile is_digit t) else ([], r)
           | [] \<Rightarrow> ([], []))
      in if ip = [] \<and> fp = [] then None
         else Option.bind (parse_digits 0 (ip @ fp)) (\<lambda>n.
              Option.bind (parse_exponent r2) (\<lambda>e.
                Some (scale10 (real n / 10 ^ length fp) e))))"

text \<open>\<open>Some None\<close> is an infinity or not a number.\<close>

definition parse_f64_unsigned :: "string \<Rightarrow> real option option" where
  "parse_f64_unsigned s =
     (if map ascii_lower s \<in> {''inf'', ''infinity'', ''nan''} then Some None
      else map_option Some (parse_decimal s))"

definition parse_f64 :: "string \<Rightarrow> real option option" where
  "parse_f64 s =
     (case s of
        [] \<Rightarrow> None
      | c # cs \<Rightarrow>
          if c = CHR ''-'' then map_option (map_option uminus) (parse_f64_unsigned cs)
          else if c = CHR ''+'' then parse_f64_unsigned cs
          else parse_f64_unsigned s)"

section \<open>Durations\<close>

definition parse_duration :: "string \<Rightarrow> duration result" where
  "parse_duration t =
     (let s = trim t
      in case strip_suffix ''ms'' s of
           Some ms \<Rightarrow>
             and_then (ok_or (Box_Error ''invalid duration'') (parse_u64 ms)) (\<lambda>n. Inr (from_millis n))
         | None \<Rightarrow>
             (case strip_suffix ''s'' s of
                Some secs \<Rightarrow> and_then (ok_or (Box_Error ''invalid duration'') (parse_f64 secs)) from_secs_f64
              | None \<Rightarrow> Inl (Box_Error ''expected a duration'')))"

datatype duration_or_range = Fixed duration | Range duration duration

definition duration_or_range :: "string \<Rightarrow> duration_or_range result" where
  "duration_or_range s =
     (case split_once_str ''..'' s of
        Some (lo, hi) \<Rightarrow>
          and_then (parse_duration lo) (\<lambda>l. and_then (parse_duration hi) (\<lambda>h. Inr (Range l h)))
      | None \<Rightarrow> and_then (parse_duration s) (\<lambda>d. Inr (Fixed d)))"

definition opt_duration :: "string option \<Rightarrow> (duration \<Rightarrow> 'a \<Rightarrow> 'a) \<Rightarrow> 'a \<Rightarrow> 'a result" where
  "opt_duration t f x = (case t of None \<Rightarrow> Inr x | Some s \<Rightarrow> and_then (parse_duration s) (\<lambda>d. Inr (f d x)))"

section \<open>Lists in properties\<close>

definition list_separators :: "char list" where
  "list_separators = [CHR '','', CHR '' '', CHR 0x09, CHR 0x0A]"

definition parse_header_list :: "string \<Rightarrow> string list" where
  "parse_header_list l = filter (\<lambda>s. s \<noteq> []) (map trim (split_any list_separators l))"

definition parse_method_list :: "(string \<Rightarrow> string option) \<Rightarrow> string \<Rightarrow> string list result" where
  "parse_method_list method_of l =
     collect_results (\<lambda>name. ok_or (Box_Error ''invalid HTTP method in retry methods'') (method_of (map ascii_upper name)))
       (filter (\<lambda>s. s \<noteq> []) (map trim (split_any list_separators l)))"

section \<open>Predicates\<close>

type_synonym predicate = "request \<Rightarrow> bool"

datatype path_matcher = PM_Glob glob_matcher | PM_Subtree string glob_matcher

fun pm_is_match :: "path_matcher \<Rightarrow> string \<Rightarrow> bool" where
  "pm_is_match (PM_Glob g) path = g path"
| "pm_is_match (PM_Subtree prefix g) path = (path = prefix \<or> g path)"

definition compile_path_glob :: "(string \<Rightarrow> glob_matcher option) \<Rightarrow> string \<Rightarrow> path_matcher result" where
  "compile_path_glob glob pattern =
     (case strip_suffix ''/'' pattern of
        Some stripped \<Rightarrow> and_then (compile_glob glob (stripped @ ''/**'')) (\<lambda>g. Inr (PM_Subtree stripped g))
      | None \<Rightarrow> and_then (compile_glob glob pattern) (\<lambda>g. Inr (PM_Glob g)))"

record match_spec =
  ms_host :: "string option"
  ms_path :: "string option"
  ms_methods :: "string list"
  ms_header :: "(string \<times> string) option"

definition match_spec_default :: match_spec where
  "match_spec_default = \<lparr>ms_host = None, ms_path = None, ms_methods = [], ms_header = None\<rparr>"

text \<open>\<^verbatim>\<open>Option::transpose\<close> after a fallible \<open>map\<close>\<close>

definition traverse_opt :: "('a \<Rightarrow> 'b result) \<Rightarrow> 'a option \<Rightarrow> 'b option result" where
  "traverse_opt f x = (case x of None \<Rightarrow> Inr None | Some a \<Rightarrow> and_then (f a) (\<lambda>b. Inr (Some b)))"

definition spec_accepts ::
  "string list \<Rightarrow> glob_matcher option \<Rightarrow> (string \<times> glob_matcher) option \<Rightarrow> path_matcher option \<Rightarrow> predicate"
where
  "spec_accepts methods host_matcher header_matcher path_matcher req =
     (if methods \<noteq> [] \<and> req_method req \<notin> set methods then False
      else if (case host_matcher of
                 Some m \<Rightarrow> (case request_host req of Some h \<Rightarrow> \<not> m h | None \<Rightarrow> True)
               | None \<Rightarrow> False) then False
      else if (case header_matcher of
                 Some (name, value_glob) \<Rightarrow>
                   (case Option.bind (hdr_get (req_headers req) name) to_str of
                      Some v \<Rightarrow> \<not> value_glob v
                    | None \<Rightarrow> True)
               | None \<Rightarrow> False) then False
      else (case path_matcher of Some m \<Rightarrow> pm_is_match m (uri_path (req_uri req)) | None \<Rightarrow> True))"

definition into_predicate ::
  "(string \<Rightarrow> glob_matcher option) \<Rightarrow> http_params \<Rightarrow> match_spec \<Rightarrow> predicate option result"
where
  "into_predicate glob hp spec =
     (if ms_host spec = None \<and> ms_path spec = None \<and> ms_methods spec = [] \<and> ms_header spec = None
      then Inr None
      else
        and_then (traverse_opt (compile_glob glob) (ms_host spec)) (\<lambda>host_matcher.
        and_then (traverse_opt (compile_path_glob glob) (ms_path spec)) (\<lambda>path_matcher.
        and_then (collect_results (\<lambda>m. ok_or (Box_Error ''invalid HTTP method'') (hp_method_of hp (map ascii_upper m)))
                    (ms_methods spec)) (\<lambda>methods.
        and_then (traverse_opt (\<lambda>(name, value).
                    and_then (ok_or (Box_Error ''invalid header name'') (hp_header_name hp name)) (\<lambda>header_name.
                    and_then (compile_glob glob value) (\<lambda>value_glob. Inr (header_name, value_glob))))
                    (ms_header spec)) (\<lambda>header_matcher.
          Inr (Some (spec_accepts methods host_matcher header_matcher path_matcher)))))))"

definition and_predicates :: "predicate list \<Rightarrow> predicate option" where
  "and_predicates preds =
     (if preds = [] then None
      else if length preds = 1 then Some (hd preds)
      else Some (\<lambda>req. list_all (\<lambda>p. p req) preds))"

text \<open>What an optional predicate says of a request; no predicate is always true.\<close>

definition holds_at :: "predicate option \<Rightarrow> request \<Rightarrow> bool" where
  "holds_at p req = (case p of None \<Rightarrow> True | Some f \<Rightarrow> f req)"

section \<open>Lemmas\<close>

lemma and_predicates_holds [simp]: "holds_at (and_predicates ps) req \<longleftrightarrow> (\<forall>p \<in> set ps. p req)"
  by (cases ps rule: remdups_adj.cases) (auto simp: and_predicates_def holds_at_def list_all_iff)

lemma subtree_self:
  assumes "compile_path_glob glob (p @ ''/'') = Inr m"
  shows "pm_is_match m p"
proof -
  have "strip_suffix ''/'' (p @ ''/'') = Some p" by (simp add: strip_suffix_Some)
  then show ?thesis using assms by (auto simp: compile_path_glob_def and_then_Inr_iff)
qed

lemma digit_chars:
  assumes "is_digit c"
  shows "\<not> is_whitespace c" "c \<noteq> CHR ''+''" "c \<noteq> CHR ''-''" "c \<noteq> CHR ''m''" "c \<noteq> CHR ''s''" "c \<noteq> CHR ''.''" "ascii_lower c = c"
proof -
  have c: "48 \<le> (of_char c :: nat)" "(of_char c :: nat) \<le> 57"
    using assms by (auto simp: is_digit_def digit_value_def Let_def split: if_splits)
  show "\<not> is_whitespace c" "ascii_lower c = c"
    using c by (auto simp: is_whitespace_def ascii_lower_def Let_def)
  show "c \<noteq> CHR ''+''" "c \<noteq> CHR ''-''" "c \<noteq> CHR ''m''" "c \<noteq> CHR ''s''" "c \<noteq> CHR ''.''" using c by auto
qed

lemma show_nat_digits: "list_all is_digit (show_nat n)"
  using set_show_nat by (auto simp: list_all_iff is_digit_def)

lemma trim_id: "s \<noteq> [] \<Longrightarrow> \<not> is_whitespace (hd s) \<Longrightarrow> \<not> is_whitespace (last s) \<Longrightarrow> trim s = s"
  by (simp add: trim_def dropWhile_eq_self_iff [THEN iffD2] hd_rev)

lemma parse_f64_show_nat: "parse_f64 (show_nat n) = Some (Some (real n))"
proof -
  obtain c cs where s: "show_nat n = c # cs" by (cases "show_nat n") simp_all
  have all: "\<forall>x \<in> set (c # cs). is_digit x" using show_nat_digits [of n] s by (simp add: list_all_iff)
  have lower: "map ascii_lower (c # cs) = c # cs" using all digit_chars(7) by (simp add: map_idI)
  have ni: "\<not> is_digit (CHR ''i'')" "\<not> is_digit (CHR ''n'')" by (simp_all add: is_digit_def digit_value_def)
  have "parse_digits 0 (c # cs) = Some n" using parse_digits_show_nat [of 0 n] s by simp
  moreover have "takeWhile is_digit (c # cs) = c # cs" "dropWhile is_digit (c # cs) = []"
    using all by (simp_all add: takeWhile_eq_all_conv dropWhile_eq_Nil_conv)
  ultimately have "parse_decimal (c # cs) = Some (real n)"
    unfolding parse_decimal_def Let_def by (simp only: list.case prod.case) (simp add: parse_exponent_def scale10_def)
  moreover have "c # cs \<notin> {''inf'', ''infinity'', ''nan''}" using all ni by auto
  ultimately show ?thesis using s lower all digit_chars(2,3)
    by (simp add: parse_f64_def parse_f64_unsigned_def)
qed

lemma trim_show_nat: "suffix \<noteq> [] \<Longrightarrow> \<not> is_whitespace (last suffix) \<Longrightarrow> trim (show_nat n @ suffix) = show_nat n @ suffix"
  using show_nat_digits [of n] digit_chars(1) by (cases "show_nat n") (auto intro!: trim_id)

lemma from_secs_f64_nat: "n < 2 ^ 64 \<Longrightarrow> from_secs_f64 (Some (real n)) = Inr (from_secs n)"
proof -
  assume n: "n < 2 ^ 64"
  have e: "round_half_even (real n * 1000000000) = int n * 1000000000"
    using round_half_even_of_int [of "int n * 1000000000"] by simp
  have "\<not> 2 ^ 64 * 1000000000 \<le> int n * 1000000000" using n by simp
  then show ?thesis by (simp add: from_secs_f64_def e from_secs_def nat_mult_distrib)
qed

lemma parse_duration_ms: "parse_duration (show_nat n @ ''ms'') = (if n < 2 ^ 64 then Inr (from_millis n) else Inl (Box_Error ''invalid duration''))"
proof -
  have "trim (show_nat n @ ''ms'') = show_nat n @ ''ms''" by (rule trim_show_nat) (simp_all add: is_whitespace_def)
  moreover have "strip_suffix ''ms'' (show_nat n @ ''ms'') = Some (show_nat n)" by (simp add: strip_suffix_Some)
  ultimately show ?thesis
    by (simp add: parse_duration_def parse_uint_show_nat and_then_def ok_or_def)
qed

lemma not_ms: "s \<noteq> [] \<Longrightarrow> is_digit (last s) \<Longrightarrow> strip_suffix ''ms'' (s @ ''s'') = None"
proof (rule ccontr)
  assume s: "s \<noteq> []" "is_digit (last s)" and "strip_suffix ''ms'' (s @ ''s'') \<noteq> None"
  then obtain r where "s @ ''s'' = r @ ''ms''" by (auto simp: strip_suffix_Some)
  then have "s = r @ ''m''" by (metis append.assoc append_Cons append_Nil butlast_snoc)
  then show False using s digit_chars(4) by auto
qed

lemma parse_duration_secs:
  assumes "s \<noteq> []" "\<not> is_whitespace (hd s)" "is_digit (last s)"
  shows "parse_duration (s @ ''s'') = and_then (ok_or (Box_Error ''invalid duration'') (parse_f64 s)) from_secs_f64"
proof -
  have "trim (s @ ''s'') = s @ ''s''" using assms by (intro trim_id) (simp_all add: is_whitespace_def)
  moreover have "strip_suffix ''s'' (s @ ''s'') = Some s" by (simp add: strip_suffix_Some)
  ultimately show ?thesis using not_ms [OF assms(1,3)] by (simp add: parse_duration_def)
qed

lemma last_show_nat: "is_digit (last (show_nat n))" "is_digit (hd (show_nat n))"
  using show_nat_digits [of n] by (auto simp: list_all_iff)

text \<open>A negative number of seconds is not an error but a panic.\<close>

lemma parse_duration_negative_panics:
  "parse_duration (''-'' @ show_nat (Suc n) @ ''s'') = Inl (Panicked ''cannot convert float seconds to Duration'')"
proof -
  have "parse_f64_unsigned (show_nat (Suc n)) = Some (Some (real (Suc n)))"
    using parse_f64_show_nat [of "Suc n"] last_show_nat(2) [of "Suc n"] digit_chars(2,3)
    by (cases "show_nat (Suc n)") (simp_all add: parse_f64_def)
  then have "parse_f64 (''-'' @ show_nat (Suc n)) = Some (Some (- real (Suc n)))" by (simp add: parse_f64_def)
  moreover have "from_secs_f64 (Some (- real (Suc n))) = Inl (Panicked ''cannot convert float seconds to Duration'')"
    by (simp add: from_secs_f64_def)
  ultimately show ?thesis
    using parse_duration_secs [of "''-'' @ show_nat (Suc n)"] last_show_nat(1) [of "Suc n"]
    by (simp add: is_whitespace_def and_then_def ok_or_def)
qed

lemma split_once_str_hit:
  "pat = c # cs \<Longrightarrow> c \<notin> set a \<Longrightarrow> split_once_str pat (a @ pat @ b) = Some (a, b)"
proof (induction a)
  case Nil
  then show ?case by (subst split_once_str.simps) (simp add: strip_prefix_def)
next
  case (Cons x a)
  then have "strip_prefix pat ((x # a) @ pat @ b) = None" by (auto simp: strip_prefix_def)
  then show ?case using Cons by (subst split_once_str.simps) simp
qed

lemma parse_duration_s: "n < 2 ^ 64 \<Longrightarrow> parse_duration (show_nat n @ ''s'') = Inr (from_secs n)"
  using parse_duration_secs [of "show_nat n"] last_show_nat [of n] digit_chars(1)
  by (simp add: parse_f64_show_nat from_secs_f64_nat ok_or_def and_then_def)

section \<open>Properties\<close>

text \<open>C40. A duration written as a whole number of milliseconds or of seconds is read as exactly that
  duration, as long as the number is one that a double represents exactly, and a latency range written
  with two such durations is read as that range.\<close>

theorem parse_duration_roundtrip:
  assumes "m < 2 ^ 53" "n < 2 ^ 53"
  shows "parse_duration (show_nat n @ ''ms'') = Inr (from_millis n) \<and>
     parse_duration (show_nat n @ ''s'') = Inr (from_secs n) \<and>
     duration_or_range (show_nat m @ ''ms'' @ ''..'' @ show_nat n @ ''s'') = Inr (Range (from_millis m) (from_secs n))"
proof -
  have b: "m < 2 ^ 64" "n < 2 ^ 64" using assms by (auto elim: less_trans)
  have "CHR ''.'' \<notin> set (show_nat m)" by (rule not_digit) (simp add: digit_value_def)
  then have "split_once_str ''..'' ((show_nat m @ ''ms'') @ ''..'' @ show_nat n @ ''s'') = Some (show_nat m @ ''ms'', show_nat n @ ''s'')"
    by (intro split_once_str_hit [where c = "CHR ''.''" and cs = "''.''"]) simp_all
  then show ?thesis
    using b parse_duration_ms [of m] parse_duration_ms [of n] parse_duration_s [of n]
    by (simp add: duration_or_range_def and_then_def)
qed

theorem parse_duration_roundtrip_witness:
  "parse_duration ''250ms'' = Inr 250000000 \<and> duration_or_range ''100ms..250s'' = Inr (Range 100000000 250000000000)"
proof -
  have "show_nat 250 = ''250''" "show_nat 100 = ''100''"
    by (simp_all add: show_nat.simps digit_char_def char_of_def bit_iff_odd)
  then show ?thesis using parse_duration_roundtrip [of 100 250] by (simp add: from_millis_def from_secs_def)
qed

end
