(* ===== verification/Config_Tree.thy ===== *)
theory Config_Tree
  imports Config_Text Redis_Link
begin

text \<open>
  The tree of rules of a configuration, \<^verbatim>\<open>src/src/config.rs\<close>: match scopes with bodies of their own, the
  walk that flattens a body into declarations, and the resolution of shadowing between declarations of
  the same exclusive kind.  The code is taken with both of its features, \<^verbatim>\<open>redis\<close> and \<^verbatim>\<open>scripting\<close>.

  Shown here: a walk gives leaves only and restores its context; the declaration in effect for a request
  is the innermost one in scope; and where the paths of global and of listener declarations collide.
\<close>

section \<open>Rules\<close>

record redis_config =
  rdc_url :: string
  rdc_prefix :: "string option"

record log_config =
  lgc_bodies :: "bool option"
  lgc_redact :: "bool option"
  lgc_redact_headers :: "string option"
  lgc_reveal_headers :: "string option"

record latency_config =
  ltc_value :: string

record bandwidth_config =
  bwc_bps :: nat

record fault_config =
  flc_error_rate :: real
  flc_abort_rate :: real
  flc_error_status :: "nat option"

record rate_limit_config =
  rlc_count :: nat
  rlc_window :: string
  rlc_burst :: "nat option"
  rlc_per_host :: bool

record sliding_window_config =
  swc_count :: nat
  swc_window :: string
  swc_per_host :: bool

record retry_budget_config =
  rbc_ratio :: real
  rbc_window :: string
  rbc_min_retries :: "nat option"

record retry_config =
  rtc_max_retries :: "nat option"
  rtc_backoff :: "string option"
  rtc_max_backoff :: "string option"
  rtc_max_replay_body_bytes :: "nat option"
  rtc_methods :: "string option"
  rtc_all_methods :: "bool option"
  rtc_statuses :: "nat list option"
  rtc_budget :: "retry_budget_config option"

record circuit_breaker_config =
  cbc_threshold :: "32 word"
  cbc_recovery :: string
  cbc_half_open_probes :: "32 word option"
  cbc_per_host :: bool
  cbc_cache_ttl :: "string option"

record respond_config =
  rsc_body :: string
  rsc_status :: "nat option"

record upstream_config =
  upc_urls :: "string list"
  upc_balance :: "string option"

record block_response =
  brc_status :: "nat option"
  brc_body :: "string option"

record block_config =
  blc_hosts :: "string list"
  blc_paths :: "string list"
  blc_response :: "block_response option"

record header_config =
  hdc_name :: string
  hdc_value :: string

record rewrite_config =
  rwc_pattern :: string
  rwc_replace :: string

record script_config =
  scc_source :: string
  scc_shared :: bool
  scc_max_body_bytes :: "nat option"

datatype rule_node =
    RN_Match general_match
  | RN_Host host_match
  | RN_Path path_match
  | RN_Method method_match
  | RN_Methods methods_match
  | RN_Upstream upstream_config
  | RN_Log log_config
  | RN_Latency latency_config
  | RN_Bandwidth bandwidth_config
  | RN_Fault fault_config
  | RN_Rate_Limit rate_limit_config
  | RN_Sliding_Window sliding_window_config
  | RN_Retry retry_config
  | RN_Circuit_Breaker circuit_breaker_config
  | RN_Respond respond_config
  | RN_Block block_config
  | RN_Set_Request_Header header_config
  | RN_Append_Request_Header header_config
  | RN_Remove_Request_Header string
  | RN_Set_Response_Header header_config
  | RN_Append_Response_Header header_config
  | RN_Remove_Response_Header string
  | RN_Rewrite_Path rewrite_config
  | RN_Rewrite_Path_Regex rewrite_config
  | RN_Script script_config
  | RN_Script_File script_config
and general_match = General_Match
    (gm_host : "string option") (gm_path : "string option") (gm_method : "string option")
    (gm_name : "string option") (gm_header : "(string \<times> string) option") (gm_redis : "redis_config option")
    (gm_body : "rule_node list")
and host_match = Host_Match
    (hm_host : string) (hm_name : "string option") (hm_redis : "redis_config option") (hm_body : "rule_node list")
and path_match = Path_Match
    (pt_path : string) (pt_name : "string option") (pt_redis : "redis_config option") (pt_body : "rule_node list")
and method_match = Method_Match
    (mm_method : string) (mm_name : "string option") (mm_redis : "redis_config option") (mm_body : "rule_node list")
and methods_match = Methods_Match
    (mms_methods : "string list") (mms_name : "string option") (mms_redis : "redis_config option")
    (mms_body : "rule_node list")

text \<open>\<open>is_exclusive\<close> and \<open>min_scope\<close> as each \<open>impl Rule\<close> gives them.\<close>

fun rule_is_exclusive :: "rule_node \<Rightarrow> bool" where
  "rule_is_exclusive (RN_Log c) = True"
| "rule_is_exclusive (RN_Latency c) = True"
| "rule_is_exclusive (RN_Bandwidth c) = True"
| "rule_is_exclusive (RN_Fault c) = True"
| "rule_is_exclusive (RN_Retry c) = True"
| "rule_is_exclusive (RN_Circuit_Breaker c) = True"
| "rule_is_exclusive (RN_Respond c) = True"
| "rule_is_exclusive _ = False"

datatype rule_scope = Scope_Global | Scope_Listener

fun rule_min_scope :: "rule_node \<Rightarrow> rule_scope" where
  "rule_min_scope (RN_Upstream c) = Scope_Listener"
| "rule_min_scope _ = Scope_Global"

fun rule_node_name :: "rule_node \<Rightarrow> string" where
  "rule_node_name (RN_Log _) = ''log''"
| "rule_node_name (RN_Latency _) = ''latency''"
| "rule_node_name (RN_Bandwidth _) = ''bandwidth''"
| "rule_node_name (RN_Fault _) = ''fault''"
| "rule_node_name (RN_Rate_Limit _) = ''rate-limit''"
| "rule_node_name (RN_Sliding_Window _) = ''sliding-window''"
| "rule_node_name (RN_Retry _) = ''retry''"
| "rule_node_name (RN_Circuit_Breaker _) = ''circuit-breaker''"
| "rule_node_name (RN_Respond _) = ''respond''"
| "rule_node_name (RN_Block _) = ''block''"
| "rule_node_name (RN_Set_Request_Header _) = ''set-request-header''"
| "rule_node_name (RN_Append_Request_Header _) = ''append-request-header''"
| "rule_node_name (RN_Remove_Request_Header _) = ''remove-request-header''"
| "rule_node_name (RN_Set_Response_Header _) = ''set-response-header''"
| "rule_node_name (RN_Append_Response_Header _) = ''append-response-header''"
| "rule_node_name (RN_Remove_Response_Header _) = ''remove-response-header''"
| "rule_node_name (RN_Rewrite_Path _) = ''rewrite-path''"
| "rule_node_name (RN_Rewrite_Path_Regex _) = ''rewrite-path-regex''"
| "rule_node_name (RN_Upstream _) = ''upstream''"
| "rule_node_name (RN_Script _) = ''script''"
| "rule_node_name (RN_Script_File _) = ''script-file''"
| "rule_node_name (RN_Match _) = ''match''"
| "rule_node_name (RN_Host _) = ''host''"
| "rule_node_name (RN_Path _) = ''path''"
| "rule_node_name (RN_Method _) = ''method''"
| "rule_node_name (RN_Methods _) = ''methods''"

text \<open>\<^verbatim>\<open>std::mem::discriminant\<close>\<close>

fun discriminant :: "rule_node \<Rightarrow> nat" where
  "discriminant (RN_Match _) = 0"
| "discriminant (RN_Host _) = 1"
| "discriminant (RN_Path _) = 2"
| "discriminant (RN_Method _) = 3"
| "discriminant (RN_Methods _) = 4"
| "discriminant (RN_Upstream _) = 5"
| "discriminant (RN_Log _) = 6"
| "discriminant (RN_Latency _) = 7"
| "discriminant (RN_Bandwidth _) = 8"
| "discriminant (RN_Fault _) = 9"
| "discriminant (RN_Rate_Limit _) = 10"
| "discriminant (RN_Sliding_Window _) = 11"
| "discriminant (RN_Retry _) = 12"
| "discriminant (RN_Circuit_Breaker _) = 13"
| "discriminant (RN_Respond _) = 14"
| "discriminant (RN_Block _) = 15"
| "discriminant (RN_Set_Request_Header _) = 16"
| "discriminant (RN_Append_Request_Header _) = 17"
| "discriminant (RN_Remove_Request_Header _) = 18"
| "discriminant (RN_Set_Response_Header _) = 19"
| "discriminant (RN_Append_Response_Header _) = 20"
| "discriminant (RN_Remove_Response_Header _) = 21"
| "discriminant (RN_Rewrite_Path _) = 22"
| "discriminant (RN_Rewrite_Path_Regex _) = 23"
| "discriminant (RN_Script _) = 24"
| "discriminant (RN_Script_File _) = 25"

fun is_leaf :: "rule_node \<Rightarrow> bool" where
  "is_leaf (RN_Match _) = False"
| "is_leaf (RN_Host _) = False"
| "is_leaf (RN_Path _) = False"
| "is_leaf (RN_Method _) = False"
| "is_leaf (RN_Methods _) = False"
| "is_leaf _ = True"

section \<open>Walking a body\<close>

record decl =
  dc_path :: "nat list"
  dc_scope_pred :: "predicate option"
  dc_excluded_preds :: "predicate list"
  dc_leaf :: rule_node
  dc_redis :: "redis_connection option"
  dc_scope_label :: string

type_synonym redis_cache = "((string \<times> string) \<times> redis_connection) list"

record walk_ctx =
  wk_preds :: "predicate list"
  wk_path :: "nat list"
  wk_scope_stack :: "string list"
  wk_scope_counter :: nat
  wk_redis_stack :: "redis_connection list"
  wk_redis_cache :: redis_cache

text \<open>The code outside the repository that the walk uses.\<close>

record walk_params =
  wp_glob :: "string \<Rightarrow> glob_matcher option"
  wp_http :: http_params
  wp_valid_url :: "string \<Rightarrow> bool"

definition current_scope :: "walk_ctx \<Rightarrow> string" where
  "current_scope ctx = join ''.'' (wk_scope_stack ctx)"

definition push_scope :: "string option \<Rightarrow> walk_ctx \<Rightarrow> walk_ctx" where
  "push_scope name ctx =
     (case name of
        Some label \<Rightarrow> ctx\<lparr>wk_scope_stack := wk_scope_stack ctx @ [label]\<rparr>
      | None \<Rightarrow> ctx\<lparr>wk_scope_stack := wk_scope_stack ctx @ [show_nat (wk_scope_counter ctx)],
                    wk_scope_counter := Suc (wk_scope_counter ctx)\<rparr>)"

definition cached_redis ::
  "(string \<Rightarrow> bool) \<Rightarrow> redis_config \<Rightarrow> redis_cache \<Rightarrow> (redis_connection \<times> redis_cache) result"
where
  "cached_redis valid_url cfg cache =
     (let prefix = (case rdc_prefix cfg of Some p \<Rightarrow> p | None \<Rightarrow> ''noxy:''); key = (rdc_url cfg, prefix)
      in case map_of cache key of
           Some conn \<Rightarrow> Inr (conn, cache)
         | None \<Rightarrow>
             and_then (redis_open_with_prefix valid_url (rdc_url cfg) prefix) (\<lambda>conn.
               Inr (conn, AList.update key conn cache)))"

definition open_redis :: "walk_params \<Rightarrow> redis_config \<Rightarrow> walk_ctx \<Rightarrow> (redis_connection \<times> walk_ctx) result" where
  "open_redis wp cfg ctx =
     and_then (cached_redis (wp_valid_url wp) cfg (wk_redis_cache ctx)) (\<lambda>(conn, cache).
       Inr (conn, ctx\<lparr>wk_redis_cache := cache\<rparr>))"

type_synonym walk = "walk_ctx \<Rightarrow> decl list \<Rightarrow> (walk_ctx \<times> decl list) result"

text \<open>Entering and leaving a match; \<open>walk\<close> is the walk of its body.\<close>

definition push_pred :: "predicate option \<Rightarrow> walk_ctx \<Rightarrow> walk_ctx" where
  "push_pred pred ctx = (case pred of Some p \<Rightarrow> ctx\<lparr>wk_preds := wk_preds ctx @ [p]\<rparr> | None \<Rightarrow> ctx)"

definition push_redis :: "walk_params \<Rightarrow> redis_config option \<Rightarrow> walk_ctx \<Rightarrow> walk_ctx result" where
  "push_redis wp redis ctx =
     (case redis of
        Some cfg \<Rightarrow>
          and_then (open_redis wp cfg ctx) (\<lambda>(conn, c). Inr (c\<lparr>wk_redis_stack := wk_redis_stack c @ [conn]\<rparr>))
      | None \<Rightarrow> Inr ctx)"

definition leave_match :: "bool \<Rightarrow> bool \<Rightarrow> walk_ctx \<Rightarrow> walk_ctx" where
  "leave_match pushed pushed_redis ctx =
     (let ctx1 = ctx\<lparr>wk_path := butlast (wk_path ctx)\<rparr>;
          ctx2 = (if pushed_redis then ctx1\<lparr>wk_redis_stack := butlast (wk_redis_stack ctx1)\<rparr> else ctx1);
          ctx3 = (if pushed then ctx2\<lparr>wk_preds := butlast (wk_preds ctx2)\<rparr> else ctx2)
      in ctx3\<lparr>wk_scope_stack := butlast (wk_scope_stack ctx3)\<rparr>)"

definition walk_match ::
  "walk_params \<Rightarrow> match_spec \<Rightarrow> string option \<Rightarrow> redis_config option \<Rightarrow> nat \<Rightarrow> walk \<Rightarrow> walk"
where
  "walk_match wp spec name redis self_idx walk ctx out =
     and_then (into_predicate (wp_glob wp) (wp_http wp) spec) (\<lambda>pred.
     and_then (push_redis wp redis (push_scope name (push_pred pred ctx))) (\<lambda>ctx1.
     and_then (walk (ctx1\<lparr>wk_path := wk_path ctx1 @ [self_idx]\<rparr>) out) (\<lambda>(ctx2, out').
       Inr (leave_match (pred \<noteq> None) (redis \<noteq> None) ctx2, out'))))"

definition spec_from_general :: "general_match \<Rightarrow> match_spec" where
  "spec_from_general m =
     \<lparr>ms_host = gm_host m, ms_path = gm_path m,
      ms_methods = (case gm_method m of Some x \<Rightarrow> [x] | None \<Rightarrow> []), ms_header = gm_header m\<rparr>"

definition leaf_decl :: "rule_node \<Rightarrow> walk_ctx \<Rightarrow> decl" where
  "leaf_decl leaf ctx =
     \<lparr>dc_path = wk_path ctx, dc_scope_pred = and_predicates (wk_preds ctx), dc_excluded_preds = [], dc_leaf = leaf,
      dc_redis = (if wk_redis_stack ctx = [] then None else Some (last (wk_redis_stack ctx))),
      dc_scope_label = current_scope ctx\<rparr>"

fun walk_body :: "walk_params \<Rightarrow> nat \<Rightarrow> rule_node list \<Rightarrow> walk"
  and walk_node :: "walk_params \<Rightarrow> rule_node \<Rightarrow> nat \<Rightarrow> walk"
where
  "walk_body wp idx [] = (\<lambda>ctx out. Inr (ctx, out))"
| "walk_body wp idx (node # nodes) =
     (\<lambda>ctx out. and_then (walk_node wp node idx ctx out) (\<lambda>(ctx', out'). walk_body wp (Suc idx) nodes ctx' out'))"
| "walk_node wp (RN_Match (General_Match h p m n hdr r body)) idx =
     walk_match wp (spec_from_general (General_Match h p m n hdr r body)) n r idx (walk_body wp 0 body)"
| "walk_node wp (RN_Host (Host_Match h n r body)) idx =
     walk_match wp (match_spec_default\<lparr>ms_host := Some h\<rparr>) n r idx (walk_body wp 0 body)"
| "walk_node wp (RN_Path (Path_Match p n r body)) idx =
     walk_match wp (match_spec_default\<lparr>ms_path := Some p\<rparr>) n r idx (walk_body wp 0 body)"
| "walk_node wp (RN_Method (Method_Match m n r body)) idx =
     walk_match wp (match_spec_default\<lparr>ms_methods := [m]\<rparr>) n r idx (walk_body wp 0 body)"
| "walk_node wp (RN_Methods (Methods_Match ms n r body)) idx =
     walk_match wp (match_spec_default\<lparr>ms_methods := ms\<rparr>) n r idx (walk_body wp 0 body)"
| "walk_node wp leaf idx = (\<lambda>ctx out. Inr (ctx, out @ [leaf_decl leaf ctx]))"

section \<open>Shadowing\<close>

definition starts_with :: "nat list \<Rightarrow> nat list \<Rightarrow> bool" where
  "starts_with xs p = (take (length p) xs = p)"

text \<open>Declaration \<open>e\<close> is nested strictly deeper than \<open>d\<close>, and of its kind.\<close>

definition shadows :: "decl \<Rightarrow> decl \<Rightarrow> bool" where
  "shadows e d =
     (discriminant (dc_leaf e) = discriminant (dc_leaf d) \<and>
      length (dc_path d) < length (dc_path e) \<and> starts_with (dc_path e) (dc_path d))"

definition exclusions_of :: "nat \<Rightarrow> decl list \<Rightarrow> predicate list" where
  "exclusions_of i decls =
     map (\<lambda>(j, e). case dc_scope_pred e of Some p \<Rightarrow> p | None \<Rightarrow> (\<lambda>_. True))
       (filter (\<lambda>(j, e). i \<noteq> j \<and> shadows e (decls ! i)) (enumerate 0 decls))"

definition resolve_exclusions :: "decl list \<Rightarrow> decl list" where
  "resolve_exclusions decls =
     fold (\<lambda>i ds. if rule_is_exclusive (dc_leaf (ds ! i))
                  then ds[i := (ds ! i)\<lparr>dc_excluded_preds := exclusions_of i ds\<rparr>] else ds)
       [0..<length decls] decls"

definition effective_predicate :: "decl \<Rightarrow> predicate option" where
  "effective_predicate d =
     (if dc_excluded_preds d = [] then dc_scope_pred d
      else Some (\<lambda>req. if \<not> (case dc_scope_pred d of Some p \<Rightarrow> p req | None \<Rightarrow> True) then False
                       else \<not> list_ex (\<lambda>p. p req) (dc_excluded_preds d)))"

definition walk_listener_body ::
  "walk_params \<Rightarrow> rule_node list \<Rightarrow> rule_node list \<Rightarrow> redis_connection option \<Rightarrow> redis_cache \<Rightarrow>
   (decl list \<times> redis_cache) result"
where
  "walk_listener_body wp globals body initial_redis cache =
     and_then (walk_body wp 0 globals
        \<lparr>wk_preds = [], wk_path = [], wk_scope_stack = [], wk_scope_counter = 0,
         wk_redis_stack = (case initial_redis of Some c \<Rightarrow> [c] | None \<Rightarrow> []), wk_redis_cache = cache\<rparr> []) (\<lambda>(ctx, ds).
     and_then (walk_body wp 0 body (ctx\<lparr>wk_path := wk_path ctx @ [0]\<rparr>) ds) (\<lambda>(ctx', ds').
       Inr (resolve_exclusions ds', wk_redis_cache ctx')))"

definition validate_min_scope_global :: "decl list \<Rightarrow> unit result" where
  "validate_min_scope_global decls =
     (case List.find (\<lambda>d. rule_min_scope (dc_leaf d) = Scope_Listener) decls of
        Some d \<Rightarrow> Inl (Box_Error (''`'' @ rule_node_name (dc_leaf d) @ ''` is only valid inside a listener block''))
      | None \<Rightarrow> Inr ())"

section \<open>Lemmas on the walk\<close>

definition same_frame :: "walk_ctx \<Rightarrow> walk_ctx \<Rightarrow> bool" where
  "same_frame ctx ctx' =
     (wk_preds ctx' = wk_preds ctx \<and> wk_path ctx' = wk_path ctx \<and> wk_scope_stack ctx' = wk_scope_stack ctx \<and>
      wk_redis_stack ctx' = wk_redis_stack ctx)"

text \<open>A declaration that stands below the context: a leaf, on a path and in a scope that extend those of the context.\<close>

definition below :: "walk_ctx \<Rightarrow> decl \<Rightarrow> bool" where
  "below ctx d \<longleftrightarrow>
     is_leaf (dc_leaf d) \<and> dc_excluded_preds d = [] \<and> (\<exists>p. dc_path d = wk_path ctx @ p) \<and>
     (\<exists>ps. dc_scope_pred d = and_predicates (wk_preds ctx @ ps))"

definition walk_sound :: "walk \<Rightarrow> bool" where
  "walk_sound w \<longleftrightarrow>
     (\<forall>ctx out ctx' out'. w ctx out = Inr (ctx', out') \<longrightarrow>
        same_frame ctx ctx' \<and> (\<exists>new. out' = out @ new \<and> list_all (below ctx) new))"

lemma walk_soundD:
  assumes "walk_sound w" "w ctx out = Inr (ctx', out')"
  obtains new where "same_frame ctx ctx'" "out' = out @ new" "list_all (below ctx) new"
  using assms unfolding walk_sound_def by blast

lemma below_mono:
  "below ctx d \<Longrightarrow> wk_path ctx = wk_path ctx0 @ p \<Longrightarrow> wk_preds ctx = wk_preds ctx0 @ ps \<Longrightarrow> below ctx0 d"
  by (auto simp: below_def)

lemma push_scope_simps [simp]:
  "wk_preds (push_scope n ctx) = wk_preds ctx" "wk_path (push_scope n ctx) = wk_path ctx"
  "wk_redis_stack (push_scope n ctx) = wk_redis_stack ctx"
  by (auto simp: push_scope_def split: option.splits)

lemma push_scope_stack: "\<exists>l. wk_scope_stack (push_scope n ctx) = wk_scope_stack ctx @ [l]"
  by (auto simp: push_scope_def split: option.splits)

lemma push_pred_simps [simp]:
  "wk_preds (push_pred pred ctx) = wk_preds ctx @ (case pred of Some p \<Rightarrow> [p] | None \<Rightarrow> [])"
  "wk_path (push_pred pred ctx) = wk_path ctx" "wk_redis_stack (push_pred pred ctx) = wk_redis_stack ctx"
  "wk_scope_stack (push_pred pred ctx) = wk_scope_stack ctx"
  by (simp_all add: push_pred_def split: option.split)

lemma push_redis_frame:
  assumes "push_redis wp redis ctx = Inr ctx'"
  shows "wk_preds ctx' = wk_preds ctx" "wk_path ctx' = wk_path ctx" "wk_scope_stack ctx' = wk_scope_stack ctx"
    "(if redis \<noteq> None then butlast (wk_redis_stack ctx') else wk_redis_stack ctx') = wk_redis_stack ctx"
  using assms by (auto simp: push_redis_def open_redis_def and_then_Inr_iff split: option.splits)

lemma leave_match_simps [simp]:
  "wk_preds (leave_match p r ctx) = (if p then butlast (wk_preds ctx) else wk_preds ctx)"
  "wk_path (leave_match p r ctx) = butlast (wk_path ctx)"
  "wk_redis_stack (leave_match p r ctx) = (if r then butlast (wk_redis_stack ctx) else wk_redis_stack ctx)"
  "wk_scope_stack (leave_match p r ctx) = butlast (wk_scope_stack ctx)"
  by (simp_all add: leave_match_def Let_def)

lemma walk_match_sound:
  assumes "walk_sound w"
  shows "walk_sound (walk_match wp spec name redis idx w)"
  unfolding walk_sound_def
proof (intro allI impI)
  fix ctx out ctx' out'
  assume "walk_match wp spec name redis idx w ctx out = Inr (ctx', out')"
  then obtain pred ctx1 ctx2 where
      c1: "push_redis wp redis (push_scope name (push_pred pred ctx)) = Inr ctx1"
      and w: "w (ctx1\<lparr>wk_path := wk_path ctx1 @ [idx]\<rparr>) out = Inr (ctx2, out')"
      and c': "ctx' = leave_match (pred \<noteq> None) (redis \<noteq> None) ctx2"
    by (auto simp: walk_match_def and_then_Inr_iff)
  obtain new where new: "same_frame (ctx1\<lparr>wk_path := wk_path ctx1 @ [idx]\<rparr>) ctx2" "out' = out @ new"
      "list_all (below (ctx1\<lparr>wk_path := wk_path ctx1 @ [idx]\<rparr>)) new"
    using walk_soundD [OF assms w] by blast
  obtain l where l: "wk_scope_stack (push_scope name (push_pred pred ctx)) = wk_scope_stack ctx @ [l]"
    using push_scope_stack [of name "push_pred pred ctx"] by auto
  have "same_frame ctx ctx'"
    using new(1) c' l push_redis_frame [OF c1] by (auto simp: same_frame_def split: option.splits)
  moreover have "list_all (below ctx) new"
    using new(3) push_redis_frame [OF c1] below_mono [of "ctx1\<lparr>wk_path := wk_path ctx1 @ [idx]\<rparr>" _ ctx]
    by (auto simp: list_all_iff)
  ultimately show "same_frame ctx ctx' \<and> (\<exists>new. out' = out @ new \<and> list_all (below ctx) new)" using new(2) by blast
qed

lemma leaf_sound: "is_leaf leaf \<Longrightarrow> walk_sound (\<lambda>ctx out. Inr (ctx, out @ [leaf_decl leaf ctx]))"
  by (auto simp: walk_sound_def same_frame_def below_def leaf_decl_def intro: exI [of _ "[]"])

lemma seq_sound:
  assumes "walk_sound v" "walk_sound w"
  shows "walk_sound (\<lambda>ctx out. and_then (v ctx out) (\<lambda>(ctx', out'). w ctx' out'))"
  unfolding walk_sound_def
proof (intro allI impI)
  fix ctx out ctx' out'
  assume "and_then (v ctx out) (\<lambda>(ctx', out'). w ctx' out') = Inr (ctx', out')"
  then obtain c1 o1 where 1: "v ctx out = Inr (c1, o1)" and 2: "w c1 o1 = Inr (ctx', out')"
    by (auto simp: and_then_Inr_iff)
  obtain new1 where n1: "same_frame ctx c1" "o1 = out @ new1" "list_all (below ctx) new1"
    using walk_soundD [OF assms(1) 1] by blast
  obtain new2 where n2: "same_frame c1 ctx'" "out' = o1 @ new2" "list_all (below c1) new2"
    using walk_soundD [OF assms(2) 2] by blast
  have "below c1 = below ctx" using n1(1) by (auto simp: below_def same_frame_def fun_eq_iff)
  then show "same_frame ctx ctx' \<and> (\<exists>new. out' = out @ new \<and> list_all (below ctx) new)"
    using n1 n2 by (auto simp: same_frame_def intro: exI [of _ "new1 @ new2"])
qed

lemma walk_body_sound: "walk_sound (walk_body wp idx body)"
  and walk_node_sound: "walk_sound (walk_node wp node idx)"
proof (induction wp idx body and wp node idx rule: walk_body_walk_node.induct)
  case (1 wp idx)
  then show ?case by (simp add: walk_sound_def same_frame_def)
next
  case (2 wp idx node nodes)
  then have "walk_sound (\<lambda>ctx out. and_then (walk_node wp node idx ctx out)
      (\<lambda>(ctx', out'). walk_body wp (Suc idx) nodes ctx' out'))" by (intro seq_sound) auto
  then show ?case by simp
qed (simp_all add: walk_match_sound leaf_sound)

section \<open>Lemmas on shadowing\<close>

definition scope_fun :: "decl \<Rightarrow> predicate" where
  "scope_fun d = (case dc_scope_pred d of Some p \<Rightarrow> p | None \<Rightarrow> (\<lambda>_. True))"

lemma scope_fun_holds: "scope_fun d req = holds_at (dc_scope_pred d) req"
  by (simp add: scope_fun_def holds_at_def split: option.split)

lemma exclusions_of_upt:
  "exclusions_of i ds =
     map (\<lambda>j. scope_fun (ds ! j)) (filter (\<lambda>j. i \<noteq> j \<and> shadows (ds ! j) (ds ! i)) [0..<length ds])"
proof -
  have "enumerate 0 ds = map (\<lambda>j. (j, ds ! j)) [0..<length ds]"
    by (rule nth_equalityI) (simp_all add: nth_enumerate_eq)
  then show ?thesis by (simp add: exclusions_of_def filter_map o_def scope_fun_def)
qed

text \<open>Two lists of declarations that differ in their exclusions only.\<close>

definition same_decls :: "decl list \<Rightarrow> decl list \<Rightarrow> bool" where
  "same_decls ds es \<longleftrightarrow>
     length ds = length es \<and> (\<forall>j < length ds. (ds ! j)\<lparr>dc_excluded_preds := []\<rparr> = (es ! j)\<lparr>dc_excluded_preds := []\<rparr>)"

lemma core_eqD:
  assumes "d\<lparr>dc_excluded_preds := []\<rparr> = e\<lparr>dc_excluded_preds := []\<rparr>"
  shows "dc_path d = dc_path e" "dc_leaf d = dc_leaf e" "dc_scope_pred d = dc_scope_pred e"
  using assms by (metis decl.select_convs decl.simps decl.surjective decl.update_convs(3))+

lemma exclusions_of_cong:
  assumes "same_decls ds es" "i < length ds"
  shows "exclusions_of i ds = exclusions_of i es"
proof -
  have "shadows (ds ! j) (ds ! i) = shadows (es ! j) (es ! i)" "scope_fun (ds ! j) = scope_fun (es ! j)"
    if "j < length ds" for j
    using assms that core_eqD [of "ds ! j" "es ! j"] core_eqD [of "ds ! i" "es ! i"]
    by (simp_all add: same_decls_def shadows_def scope_fun_def)
  then show ?thesis using assms(1) unfolding exclusions_of_upt
    by (intro map_cong filter_cong) (auto simp: same_decls_def)
qed

definition resolved :: "decl list \<Rightarrow> nat \<Rightarrow> decl" where
  "resolved ds i =
     (if rule_is_exclusive (dc_leaf (ds ! i)) then (ds ! i)\<lparr>dc_excluded_preds := exclusions_of i ds\<rparr> else ds ! i)"

text \<open>The loop over the indices in place gives the same as resolving each declaration against the original list.\<close>

lemma resolve_exclusions_map: "resolve_exclusions ds = map (resolved ds) [0..<length ds]"
proof -
  define step where "step = (\<lambda>i ds. if rule_is_exclusive (dc_leaf (ds ! i))
      then ds[i := (ds ! i)\<lparr>dc_excluded_preds := exclusions_of i ds\<rparr>] else (ds :: decl list))"
  have "k \<le> length ds \<Longrightarrow> fold step [0..<k] ds = map (resolved ds) [0..<k] @ drop k ds" for k
  proof (induction k)
    case (Suc k)
    define es where "es = map (resolved ds) [0..<k] @ drop k ds"
    have es: "length es = length ds" "es ! k = ds ! k" and k: "k < length ds"
      using Suc.prems by (simp_all add: es_def nth_append)
    have "same_decls es ds" using es(1) Suc.prems
      by (auto simp: same_decls_def es_def nth_append resolved_def)
    then have "exclusions_of k es = exclusions_of k ds" using k es(1) by (intro exclusions_of_cong) simp_all
    then have "step k es = es[k := resolved ds k]"
      using es k list_update_id [of es k] by (simp add: step_def resolved_def)
    also have "\<dots> = map (resolved ds) [0..<Suc k] @ drop (Suc k) ds"
      using k by (simp add: es_def list_update_append Cons_nth_drop_Suc [symmetric])
    finally show ?case using Suc by (simp add: es_def)
  qed simp
  from this [of "length ds"] show ?thesis by (simp add: resolve_exclusions_def step_def)
qed

lemma shadows_trans: "shadows a b \<Longrightarrow> shadows b c \<Longrightarrow> shadows a c"
  by (auto simp: shadows_def starts_with_def min_def) (metis nat_le_linear not_less order_less_imp_le take_take min_def)

lemma shadows_irrefl [simp]: "\<not> shadows d d"
  by (simp add: shadows_def)

lemma exclusive_by_discriminant: "rule_is_exclusive a \<longleftrightarrow> discriminant a \<in> {6, 7, 8, 9, 12, 13, 14}"
  by (cases a) simp_all

lemma exclusive_discriminant: "discriminant a = discriminant b \<Longrightarrow> rule_is_exclusive a = rule_is_exclusive b"
  by (simp add: exclusive_by_discriminant)

lemma effective_resolved:
  assumes "dc_excluded_preds (ds ! i) = []"
  shows "holds_at (effective_predicate (resolved ds i)) req \<longleftrightarrow>
     holds_at (dc_scope_pred (ds ! i)) req \<and>
     (rule_is_exclusive (dc_leaf (ds ! i)) \<longrightarrow>
        \<not> (\<exists>j < length ds. shadows (ds ! j) (ds ! i) \<and> holds_at (dc_scope_pred (ds ! j)) req))"
proof -
  have ex: "list_ex (\<lambda>p. p req) (exclusions_of i ds) \<longleftrightarrow>
      (\<exists>j < length ds. shadows (ds ! j) (ds ! i) \<and> holds_at (dc_scope_pred (ds ! j)) req)"
    unfolding exclusions_of_upt by (auto simp: list_ex_iff scope_fun_holds)
  have eff: "holds_at (effective_predicate d) req \<longleftrightarrow>
      holds_at (dc_scope_pred d) req \<and> \<not> list_ex (\<lambda>p. p req) (dc_excluded_preds d)" for d
    by (auto simp: effective_predicate_def holds_at_def split: option.splits)
  show ?thesis unfolding eff using assms ex by (simp add: resolved_def)
qed

definition in_effect :: "decl \<Rightarrow> request \<Rightarrow> bool" where
  "in_effect d req = holds_at (effective_predicate d) req"

text \<open>The leaves of a body in the order of the document.\<close>

fun body_leaves :: "rule_node list \<Rightarrow> rule_node list" and node_leaves :: "rule_node \<Rightarrow> rule_node list" where
  "body_leaves [] = []"
| "body_leaves (n # ns) = node_leaves n @ body_leaves ns"
| "node_leaves (RN_Match (General_Match h p m n hdr r body)) = body_leaves body"
| "node_leaves (RN_Host (Host_Match h n r body)) = body_leaves body"
| "node_leaves (RN_Path (Path_Match p n r body)) = body_leaves body"
| "node_leaves (RN_Method (Method_Match m n r body)) = body_leaves body"
| "node_leaves (RN_Methods (Methods_Match ms n r body)) = body_leaves body"
| "node_leaves leaf = [leaf]"

definition collects :: "walk \<Rightarrow> rule_node list \<Rightarrow> bool" where
  "collects w ls \<longleftrightarrow>
     (\<forall>ctx out ctx' out'. w ctx out = Inr (ctx', out') \<longrightarrow> map dc_leaf out' = map dc_leaf out @ ls)"

lemma walk_match_collects: "collects w ls \<Longrightarrow> collects (walk_match wp spec name redis idx w) ls"
  unfolding collects_def walk_match_def by (auto simp: and_then_Inr_iff)

lemma leaf_collects: "collects (\<lambda>ctx out. Inr (ctx, out @ [leaf_decl l ctx])) [l]"
  by (simp add: collects_def leaf_decl_def)

lemma nil_collects: "collects (\<lambda>ctx out. Inr (ctx, out)) []"
  by (simp add: collects_def)

lemma walk_body_collects: "collects (walk_body wp idx body) (body_leaves body)"
  and walk_node_collects: "collects (walk_node wp node idx) (node_leaves node)"
proof (induction wp idx body and wp node idx rule: walk_body_walk_node.induct)
  case (2 wp idx node nodes)
  show ?case unfolding collects_def
  proof (intro allI impI)
    fix ctx out ctx' out'
    assume "walk_body wp idx (node # nodes) ctx out = Inr (ctx', out')"
    then obtain c1 o1 where "walk_node wp node idx ctx out = Inr (c1, o1)" and w: "walk_body wp (Suc idx) nodes c1 o1 = Inr (ctx', out')"
      by (auto simp: and_then_Inr_iff)
    then have "map dc_leaf o1 = map dc_leaf out @ node_leaves node" using 2(1) unfolding collects_def by blast
    moreover have "map dc_leaf out' = map dc_leaf o1 @ body_leaves nodes"
      using 2(2) w unfolding collects_def by blast
    ultimately show "map dc_leaf out' = map dc_leaf out @ body_leaves (node # nodes)" by simp
  qed
qed (simp_all add: walk_match_collects leaf_collects nil_collects)

text \<open>What a walk of a listener gives before shadowing is resolved.\<close>

lemma walk_listener_raw:
  assumes "walk_listener_body wp globals body initial_redis cache = Inr (ds, cache')"
  obtains raw where "ds = resolve_exclusions raw" "map dc_leaf raw = body_leaves globals @ body_leaves body"
    "list_all (\<lambda>d. is_leaf (dc_leaf d) \<and> dc_excluded_preds d = []) raw"
proof -
  let ?c0 = "\<lparr>wk_preds = [], wk_path = [], wk_scope_stack = [], wk_scope_counter = 0,
         wk_redis_stack = (case initial_redis of Some c \<Rightarrow> [c] | None \<Rightarrow> []), wk_redis_cache = cache\<rparr>"
  obtain ctx d1 ctx' raw where 1: "walk_body wp 0 globals ?c0 [] = Inr (ctx, d1)"
      and 2: "walk_body wp 0 body (ctx\<lparr>wk_path := wk_path ctx @ [0]\<rparr>) d1 = Inr (ctx', raw)"
      and ds: "ds = resolve_exclusions raw"
    using assms by (auto simp: walk_listener_body_def and_then_Inr_iff)
  have "map dc_leaf raw = body_leaves globals @ body_leaves body"
    using walk_body_collects [of wp 0 globals] walk_body_collects [of wp 0 body] 1 2 unfolding collects_def by fastforce
  moreover obtain n1 n2 where "d1 = n1" "list_all (below ?c0) n1" "raw = d1 @ n2"
      "list_all (below (ctx\<lparr>wk_path := wk_path ctx @ [0]\<rparr>)) n2"
    using walk_soundD [OF walk_body_sound 1] walk_soundD [OF walk_body_sound 2] by (metis append_Nil)
  then have "list_all (\<lambda>d. is_leaf (dc_leaf d) \<and> dc_excluded_preds d = []) raw"
    by (auto simp: list_all_iff below_def)
  ultimately show ?thesis using that ds by blast
qed

lemma resolved_simps [simp]:
  "dc_path (resolved ds i) = dc_path (ds ! i)" "dc_leaf (resolved ds i) = dc_leaf (ds ! i)"
  "dc_scope_pred (resolved ds i) = dc_scope_pred (ds ! i)"
  by (simp_all add: resolved_def)

lemma shadows_resolved [simp]: "shadows (resolved ds j) (resolved ds i) = shadows (ds ! j) (ds ! i)"
  by (simp add: shadows_def)

lemma walk_listener_leaves:
  assumes "walk_listener_body wp globals body initial_redis cache = Inr (ds, cache')"
  shows "map dc_leaf ds = body_leaves globals @ body_leaves body"
proof -
  obtain raw where raw: "ds = resolve_exclusions raw" "map dc_leaf raw = body_leaves globals @ body_leaves body"
    using walk_listener_raw [OF assms] .
  have "map dc_leaf ds = map dc_leaf raw"
    unfolding raw(1) resolve_exclusions_map by (rule nth_equalityI) simp_all
  then show ?thesis using raw(2) by simp
qed

lemma in_effect_iff:
  assumes "ds = resolve_exclusions raw" "list_all (\<lambda>d. is_leaf (dc_leaf d) \<and> dc_excluded_preds d = []) raw" "i < length ds"
  shows "in_effect (ds ! i) req \<longleftrightarrow>
     holds_at (dc_scope_pred (ds ! i)) req \<and>
     (rule_is_exclusive (dc_leaf (ds ! i)) \<longrightarrow>
        \<not> (\<exists>j < length ds. shadows (ds ! j) (ds ! i) \<and> holds_at (dc_scope_pred (ds ! j)) req))"
proof -
  have len: "length ds = length raw" and nth: "\<And>k. k < length raw \<Longrightarrow> ds ! k = resolved raw k"
    using assms(1) by (simp_all add: resolve_exclusions_map)
  have "dc_excluded_preds (raw ! i) = []" using assms(2,3) len by (simp add: list_all_length)
  from effective_resolved [OF this] show ?thesis
    using assms(3) len nth by (auto simp: in_effect_def)
qed

lemma in_effect_exists:
  assumes "ds = resolve_exclusions raw" "list_all (\<lambda>d. is_leaf (dc_leaf d) \<and> dc_excluded_preds d = []) raw"
  shows "i < length ds \<Longrightarrow> rule_is_exclusive (dc_leaf (ds ! i)) \<Longrightarrow> holds_at (dc_scope_pred (ds ! i)) req \<Longrightarrow>
     \<exists>j < length ds. (j = i \<or> shadows (ds ! j) (ds ! i)) \<and> in_effect (ds ! j) req"
proof (induction "Max (length ` dc_path ` set ds) - length (dc_path (ds ! i))" arbitrary: i rule: less_induct)
  case less
  show ?case
  proof (cases "in_effect (ds ! i) req")
    case False
    then obtain j where j: "j < length ds" "shadows (ds ! j) (ds ! i)" "holds_at (dc_scope_pred (ds ! j)) req"
      using in_effect_iff [OF assms less.prems(1)] less.prems by blast
    have "length (dc_path (ds ! j)) \<le> Max (length ` dc_path ` set ds)" using j(1) by simp
    moreover have "length (dc_path (ds ! i)) < length (dc_path (ds ! j))" using j(2) by (simp add: shadows_def)
    ultimately have "Max (length ` dc_path ` set ds) - length (dc_path (ds ! j)) <
        Max (length ` dc_path ` set ds) - length (dc_path (ds ! i))" by linarith
    moreover have "rule_is_exclusive (dc_leaf (ds ! j))"
      using less.prems(2) j(2) exclusive_discriminant [of "dc_leaf (ds ! j)" "dc_leaf (ds ! i)"]
      by (simp add: shadows_def)
    ultimately have "\<exists>k < length ds. (k = j \<or> shadows (ds ! k) (ds ! j)) \<and> in_effect (ds ! k) req"
      using less.hyps [of j] j(1,3) by simp
    then obtain k where k: "k < length ds" "k = j \<or> shadows (ds ! k) (ds ! j)" "in_effect (ds ! k) req" by auto
    have "shadows (ds ! k) (ds ! i)" using k(2) j(2) shadows_trans [of "ds ! k" "ds ! j" "ds ! i"] by auto
    then show ?thesis using k(1,3) by auto
  qed (use less.prems in blast)
qed

lemma walk_node_leaf: "is_leaf leaf \<Longrightarrow> walk_node wp leaf idx = (\<lambda>ctx out. Inr (ctx, out @ [leaf_decl leaf ctx]))"
  by (cases leaf) simp_all

text \<open>A global rule inside two nested matches and a rule of the listener itself.\<close>

definition nested_global :: "string \<Rightarrow> string \<Rightarrow> rule_node \<Rightarrow> rule_node list" where
  "nested_global h p g = [RN_Host (Host_Match h None None [RN_Path (Path_Match p None None [g])])]"

lemma nested_global_walk:
  assumes "wp_glob wp h = Some gh" "wp_glob wp p = Some gp" "strip_suffix ''/'' p = None" "is_leaf g" "is_leaf l"
  shows "walk_listener_body wp (nested_global h p g) [l] None cache =
    Inr (resolve_exclusions
      [\<lparr>dc_path = [0, 0],
        dc_scope_pred = and_predicates [spec_accepts [] (Some gh) None None, spec_accepts [] None None (Some (PM_Glob gp))],
        dc_excluded_preds = [], dc_leaf = g, dc_redis = None, dc_scope_label = join ''.'' [show_nat 0, show_nat 1]\<rparr>,
       \<lparr>dc_path = [0], dc_scope_pred = None, dc_excluded_preds = [], dc_leaf = l, dc_redis = None, dc_scope_label = []\<rparr>],
      cache)"
  using assms
  by (simp add: walk_listener_body_def nested_global_def walk_match_def walk_node_leaf into_predicate_def
      match_spec_default_def traverse_opt_def compile_glob_def compile_path_glob_def ok_or_def and_then_def
      push_pred_def push_redis_def push_scope_def leave_match_def Let_def leaf_decl_def current_scope_def and_predicates_def)

section \<open>Properties\<close>

text \<open>C23. Flattening a listener's configuration loses, repeats and reorders nothing: the declarations carry
  exactly the leaves of the global rules and then of the listener's own, in the order of the document.
  No match node is among them, so the branch of \<open>emit_decl\<close> marked unreachable is.\<close>

theorem walk_gives_leaves:
  assumes "walk_listener_body wp globals body initial_redis cache = Inr (ds, cache')"
  shows "map dc_leaf ds = body_leaves globals @ body_leaves body \<and> list_all (\<lambda>d. is_leaf (dc_leaf d)) ds"
proof -
  obtain raw where raw: "ds = resolve_exclusions raw"
      "list_all (\<lambda>d. is_leaf (dc_leaf d) \<and> dc_excluded_preds d = []) raw"
    using walk_listener_raw [OF assms] .
  then have "list_all (\<lambda>d. is_leaf (dc_leaf d)) ds" by (simp add: resolve_exclusions_map list_all_length)
  then show ?thesis using walk_listener_leaves [OF assms] by simp
qed

definition tree_example_params :: walk_params where
  "tree_example_params =
     \<lparr>wp_glob = (\<lambda>p. Some (\<lambda>s. s = p)),
      wp_http = \<lparr>hp_method_of = Some, hp_parse_uri = (\<lambda>_. None), hp_header_name = Some, hp_header_value = (\<lambda>v. Some (Visible v))\<rparr>,
      wp_valid_url = (\<lambda>_. True)\<rparr>"

definition tree_example_request :: request where
  "tree_example_request =
     \<lparr>req_method = ''GET'',
      req_uri = \<lparr>uri_scheme = None, uri_authority = None, uri_path_and_query = Some (''/x'', None)\<rparr>,
      req_version = HTTP_11, req_headers = [(''host'', Visible ''a'')], req_target = None, req_body = empty_body\<rparr>"

definition log_example :: "bool \<Rightarrow> rule_node" where
  "log_example bodies =
     RN_Log \<lparr>lgc_bodies = Some bodies, lgc_redact = None, lgc_redact_headers = None, lgc_reveal_headers = None\<rparr>"

lemma tree_example_walk:
  "\<exists>ds. walk_listener_body tree_example_params (nested_global ''a'' ''/x'' (log_example False)) [log_example True] None [] = Inr (ds, [])"
  by (subst nested_global_walk) (simp_all add: tree_example_params_def log_example_def strip_suffix_def strip_prefix_def)

theorem walk_gives_leaves_witness:
  "\<exists>ds. walk_listener_body tree_example_params (nested_global ''a'' ''/x'' (log_example False)) [log_example True] None [] = Inr (ds, []) \<and>
     map dc_leaf ds = [log_example False, log_example True]"
proof -
  obtain ds where ds: "walk_listener_body tree_example_params (nested_global ''a'' ''/x'' (log_example False)) [log_example True] None [] = Inr (ds, [])"
    using tree_example_walk by blast
  show ?thesis using walk_gives_leaves [OF ds] ds by (simp add: nested_global_def log_example_def)
qed



text \<open>C39. The listener's rules are walked under the path of a match at index 0, which is also the path of a
  global match at index 0.  So a global rule inside a match that is nested in the first global match
  shadows the listener's own top-level rule of the same exclusive kind: for a request that both matches
  accept, the global rule is in effect and the listener's is not.\<close>

theorem nested_global_shadows_listener:
  assumes "wp_glob wp h = Some gh" "wp_glob wp p = Some gp" "strip_suffix ''/'' p = None"
    and "is_leaf g" "is_leaf l" "discriminant g = discriminant l" "rule_is_exclusive l"
    and "request_host req = Some host" "gh host" "gp (uri_path (req_uri req))"
  shows "\<exists>dg dl. walk_listener_body wp (nested_global h p g) [l] None cache = Inr ([dg, dl], cache) \<and>
     dc_leaf dg = g \<and> dc_leaf dl = l \<and> in_effect dg req \<and> \<not> in_effect dl req"
proof -
  define dg where "dg = \<lparr>dc_path = [0, 0],
        dc_scope_pred = and_predicates [spec_accepts [] (Some gh) None None, spec_accepts [] None None (Some (PM_Glob gp))],
        dc_excluded_preds = [], dc_leaf = g, dc_redis = None, dc_scope_label = join ''.'' [show_nat 0, show_nat 1]\<rparr>"
  define dl where "dl = \<lparr>dc_path = [0], dc_scope_pred = None, dc_excluded_preds = [], dc_leaf = l, dc_redis = None, dc_scope_label = []\<rparr>"
  define ds where "ds = resolve_exclusions [dg, dl]"
  have walk: "walk_listener_body wp (nested_global h p g) [l] None cache = Inr (ds, cache)"
    using nested_global_walk [OF assms(1-5)] by (simp add: ds_def dg_def dl_def)
  have two: "ds = [resolved [dg, dl] 0, resolved [dg, dl] 1]" by (simp add: ds_def resolve_exclusions_map upt_rec)
  have leaves: "list_all (\<lambda>d. is_leaf (dc_leaf d) \<and> dc_excluded_preds d = []) [dg, dl]"
    using assms(4,5) by (simp add: dg_def dl_def)
  have scope: "holds_at (dc_scope_pred dg) req"
    using assms(8-10) by (simp add: dg_def spec_accepts_def)
  have sh: "shadows dg dl" "\<not> shadows dl dg" using assms(6) by (simp_all add: dg_def dl_def shadows_def starts_with_def)
  have "in_effect (ds ! 0) req"
    using in_effect_iff [OF ds_def leaves, of 0 req] scope sh(2) two by (auto simp: less_Suc_eq)
  moreover have "\<not> in_effect (ds ! 1) req"
    using in_effect_iff [OF ds_def leaves, of 1 req] scope sh(1) two assms(7)
    by (auto simp: dl_def intro!: exI [of _ 0])
  ultimately show ?thesis using walk two by (auto simp: dg_def dl_def)
qed

theorem nested_global_shadows_listener_witness:
  "\<exists>dg dl. walk_listener_body tree_example_params (nested_global ''a'' ''/x'' (log_example False)) [log_example True] None [] = Inr ([dg, dl], []) \<and>
     in_effect dg tree_example_request \<and> \<not> in_effect dl tree_example_request"
proof -
  have "request_host tree_example_request = Some ''a''"
    by (simp add: tree_example_request_def request_host_def uri_host_def hdr_get_def)
  then show ?thesis
    using nested_global_shadows_listener [of tree_example_params "''a''" "\<lambda>s. s = ''a''" "''/x''" "\<lambda>s. s = ''/x''"
        "log_example False" "log_example True" tree_example_request "''a''" "[]"]
    by (auto simp: tree_example_params_def tree_example_request_def uri_path_def log_example_def strip_suffix_def strip_prefix_def)
qed

end
