(* ===== verification/Config_Emit.thy ===== *)
theory Config_Emit
  imports Proxy Config_Tree
begin

text \<open>
  From a configuration to proxies, \<^verbatim>\<open>src/src/config.rs\<close>: how each rule installs its middleware on the
  builder (one \<open>emit_\<close> definition per \<open>impl Rule\<close>), how a listener is compiled, and \<open>into_listeners\<close>.  A
  Redis-backed store comes with the in-memory store it falls back to.

  Shown here: a compiled rule acts exactly on the requests its declaration is in effect for; the layers
  of a compiled listener are those of its declarations in order; only leaves compile; a forward listener
  becomes a forward proxy with exactly its credentials and a reverse listener a reverse proxy; for fixed
  answers, which of them a request gets.
\<close>

section \<open>Parameters\<close>

text \<open>\<open>cp_now n\<close> is the clock when the builder holds \<open>n\<close> layers.  The last three parameters read
  certificates.\<close>

record 'w compile_params =
  cp_platform :: "'w platform"
  cp_valid_url :: "string \<Rightarrow> bool"
  cp_now :: "nat \<Rightarrow> instant"
  cp_deno_ast :: deno_ast
  cp_read_file :: "string \<Rightarrow> string result"
  cp_from_pem_files :: "string \<Rightarrow> string \<Rightarrow> pem_pair result"
  cp_read_identity :: "string \<Rightarrow> string \<Rightarrow> pem_pair result"
  cp_with_single_cert :: "pem_pair \<Rightarrow> unit result"

definition walk_params_of :: "'w compile_params \<Rightarrow> walk_params" where
  "walk_params_of cp =
     \<lparr>wp_glob = pf_glob (cp_platform cp), wp_http = pf_http (cp_platform cp), wp_valid_url = cp_valid_url cp\<rparr>"

definition now_of :: "'w compile_params \<Rightarrow> 'w proxy_builder \<Rightarrow> instant" where
  "now_of cp b = cp_now cp (length (pb_layers b))"

record emit_ctx =
  ec_pred :: "predicate option"
  ec_redis :: "redis_connection option"
  ec_scope_label :: string

definition apply_layer :: "'w proxy_builder \<Rightarrow> predicate option \<Rightarrow> 'w middleware \<Rightarrow> 'w proxy_builder" where
  "apply_layer b pred l =
     (case pred of Some p \<Rightarrow> pb_layer (MW_When p l) b | None \<Rightarrow> pb_layer l b)"

definition host_key :: "request \<Rightarrow> string" where
  "host_key req = (case request_host req of Some h \<Rightarrow> h | None \<Rightarrow> ''unknown'')"

definition key_fn :: "bool \<Rightarrow> request \<Rightarrow> string" where
  "key_fn per_host = (if per_host then host_key else (\<lambda>_. []))"

definition status_code :: "string \<Rightarrow> nat \<Rightarrow> nat result" where
  "status_code msg s = (if 100 \<le> s \<and> s \<le> 999 then Inr s else Inl (Box_Error msg))"

section \<open>Builders\<close>

definition build_rate_limiter :: "rate_limit_config \<Rightarrow> duration \<Rightarrow> instant \<Rightarrow> rate_limiter option" where
  "build_rate_limiter c window now =
     (let limiter = (if rlc_per_host c then rl_per_host (rlc_count c) window now else rl_global (rlc_count c) window now)
      in case rlc_burst c of
           Some burst \<Rightarrow> map_option (\<lambda>l. l\<lparr>limiter_store := map_mutex (rl_set_burst (real burst)) (limiter_store l)\<rparr>) limiter
         | None \<Rightarrow> limiter)"

definition build_circuit_breaker ::
  "circuit_breaker_config \<Rightarrow> duration \<Rightarrow> instant \<Rightarrow> cb_shared mutex \<times> circuit_breaker"
where
  "build_circuit_breaker c recovery now =
     (let (st, cb) = (if cbc_per_host c then cb_per_host (cbc_threshold c) recovery now
                      else cb_global (cbc_threshold c) recovery now)
      in case cbc_half_open_probes c of
           Some n \<Rightarrow> (map_mutex (cb_set_half_open_probes n) st, cb)
         | None \<Rightarrow> (st, cb))"

definition opt_set :: "'a option \<Rightarrow> ('a \<Rightarrow> 'b \<Rightarrow> 'b) \<Rightarrow> 'b \<Rightarrow> 'b" where
  "opt_set x f y = (case x of Some a \<Rightarrow> f a y | None \<Rightarrow> y)"

definition build_retry :: "(string \<Rightarrow> string option) \<Rightarrow> instant \<Rightarrow> retry_config \<Rightarrow> retry result" where
  "build_retry method_of now c =
     and_then (case rtc_statuses c of Some ss \<Rightarrow> retry_on_statuses ss | None \<Rightarrow> Inr retry_default) (\<lambda>r0.
     let r1 = opt_set (rtc_max_retries c) retry_max_retries r0
     in and_then (opt_duration (rtc_backoff c) retry_backoff r1) (\<lambda>r2.
        and_then (opt_duration (rtc_max_backoff c) retry_max_backoff r2) (\<lambda>r3.
        let r4 = opt_set (rtc_max_replay_body_bytes c) retry_max_replay_body_bytes r3
        in and_then (if rtc_all_methods c = Some True then Inr (retry_all_methods r4)
                     else case rtc_methods c of
                            Some l \<Rightarrow> and_then (parse_method_list method_of l) (\<lambda>ms. Inr (retry_methods ms r4))
                          | None \<Rightarrow> Inr r4) (\<lambda>r5.
           case rtc_budget c of
             None \<Rightarrow> Inr r5
           | Some bd \<Rightarrow>
               and_then (parse_duration (rbc_window bd)) (\<lambda>window.
                 Inr (opt_set (rbc_min_retries bd) (\<lambda>n. retry_budget_min_retries n now)
                        (retry_budget_window window now (retry_budget (rbc_ratio bd) now r5))))))))"

definition parse_balance_strategy :: "string \<Rightarrow> load_balance_strategy result" where
  "parse_balance_strategy s =
     (if s = ''round-robin'' then Inr RoundRobin
      else if s = ''random'' then Inr Random
      else Inl (Box_Error ''unknown balance strategy''))"

section \<open>Rules\<close>

definition emit_log :: "'w compile_params \<Rightarrow> log_config \<Rightarrow> emit_ctx \<Rightarrow> 'w proxy_builder \<Rightarrow> 'w proxy_builder result" where
  "emit_log cp c ctx b =
     (let hn = hp_header_name (pf_http (cp_platform cp));
          l0 = tl_new hn;
          l1 = (if lgc_bodies c = Some True then tl_set_log_bodies True l0 else l0);
          l2 = (if lgc_redact c = Some False then tl_set_redact False l1 else l1);
          l3 = opt_set (lgc_redact_headers c) (\<lambda>l. tl_redact_headers hn (parse_header_list l)) l2;
          l4 = opt_set (lgc_reveal_headers c) (\<lambda>l. tl_reveal_headers hn (parse_header_list l)) l3
      in Inr (apply_layer b (ec_pred ctx) (MW_Log l4)))"

definition emit_latency :: "latency_config \<Rightarrow> emit_ctx \<Rightarrow> 'w proxy_builder \<Rightarrow> 'w proxy_builder result" where
  "emit_latency c ctx b =
     and_then (duration_or_range (ltc_value c)) (\<lambda>d.
       Inr (apply_layer b (ec_pred ctx)
              (MW_Latency (case d of Fixed x \<Rightarrow> li_fixed x | Range lo hi \<Rightarrow> li_uniform lo hi))))"

definition emit_bandwidth :: "bandwidth_config \<Rightarrow> emit_ctx \<Rightarrow> 'w proxy_builder \<Rightarrow> 'w proxy_builder result" where
  "emit_bandwidth c ctx b = and_then (bt_new (bwc_bps c)) (\<lambda>t. Inr (apply_layer b (ec_pred ctx) (MW_Bandwidth t)))"

definition emit_fault :: "fault_config \<Rightarrow> emit_ctx \<Rightarrow> 'w proxy_builder \<Rightarrow> 'w proxy_builder result" where
  "emit_fault c ctx b =
     (let inj = fi_set_abort_rate (flc_abort_rate c) (fi_set_error_rate (flc_error_rate c) fi_new)
      in and_then (case flc_error_status c of
                     Some s \<Rightarrow> and_then (status_code ''invalid error_status'' s) (\<lambda>st. Inr (fi_set_error_status st inj))
                   | None \<Rightarrow> Inr inj) (\<lambda>f.
           Inr (apply_layer b (ec_pred ctx) (MW_Fault f))))"

text \<open>A limiter whose rate is not a finite number is \<open>MW_Rate_Limit None\<close>, with either store.\<close>

definition emit_rate_limit ::
  "'w compile_params \<Rightarrow> rate_limit_config \<Rightarrow> emit_ctx \<Rightarrow> 'w proxy_builder \<Rightarrow> 'w proxy_builder result"
where
  "emit_rate_limit cp c ctx b =
     and_then (parse_duration (rlc_window c)) (\<lambda>window.
       case ec_redis ctx of
         Some conn \<Rightarrow>
           (let burst = (case rlc_burst c of Some n \<Rightarrow> real n | None \<Rightarrow> real (rlc_count c))
            in Inr (apply_layer b (ec_pred ctx)
                 (case f64_div (real (rlc_count c)) (as_secs_f64 window) of
                    None \<Rightarrow> MW_Rate_Limit None
                  | Some rate \<Rightarrow>
                      MW_Redis_Rate_Limit (redis_rl_scope (ec_scope_label ctx) (redis_rl_new conn rate burst))
                        (rl_store_new rate burst (now_of cp b)) (key_fn (rlc_per_host c)))))
       | None \<Rightarrow> Inr (apply_layer b (ec_pred ctx) (MW_Rate_Limit (build_rate_limiter c window (now_of cp b)))))"

definition emit_sliding_window ::
  "'w compile_params \<Rightarrow> sliding_window_config \<Rightarrow> emit_ctx \<Rightarrow> 'w proxy_builder \<Rightarrow> 'w proxy_builder result"
where
  "emit_sliding_window cp c ctx b =
     and_then (parse_duration (swc_window c)) (\<lambda>window.
       case ec_redis ctx of
         Some conn \<Rightarrow>
           Inr (apply_layer b (ec_pred ctx)
             (MW_Redis_Sliding_Window (redis_sw_scope (ec_scope_label ctx) (redis_sw_new conn (swc_count c) window))
               (sw_store_new (swc_count c) window (now_of cp b)) (key_fn (swc_per_host c))))
       | None \<Rightarrow>
           Inr (apply_layer b (ec_pred ctx)
             (MW_Sliding_Window (if swc_per_host c then sw_per_host (swc_count c) window (now_of cp b)
                                 else sw_global (swc_count c) window (now_of cp b)))))"

definition emit_retry :: "'w compile_params \<Rightarrow> retry_config \<Rightarrow> emit_ctx \<Rightarrow> 'w proxy_builder \<Rightarrow> 'w proxy_builder result" where
  "emit_retry cp c ctx b =
     and_then (build_retry (hp_method_of (pf_http (cp_platform cp))) (now_of cp b) c) (\<lambda>r.
       Inr (apply_layer b (ec_pred ctx) (MW_Retry r)))"

definition emit_circuit_breaker ::
  "'w compile_params \<Rightarrow> circuit_breaker_config \<Rightarrow> emit_ctx \<Rightarrow> 'w proxy_builder \<Rightarrow> 'w proxy_builder result"
where
  "emit_circuit_breaker cp c ctx b =
     and_then (parse_duration (cbc_recovery c)) (\<lambda>recovery.
       case ec_redis ctx of
         Some conn \<Rightarrow>
           (let now = now_of cp b;
                s0 = redis_cb_scope (ec_scope_label ctx) (redis_cb_new conn (cbc_threshold c) recovery);
                fb0 = cb_store_new (cbc_threshold c) recovery now;
                s1 = (case cbc_half_open_probes c of Some n \<Rightarrow> s0\<lparr>rcb_half_open_probes := n\<rparr> | None \<Rightarrow> s0);
                fb1 = (case cbc_half_open_probes c of Some n \<Rightarrow> map_mutex (cb_set_half_open_probes n) fb0 | None \<Rightarrow> fb0)
            in and_then (opt_duration (cbc_cache_ttl c) redis_cb_cache_ttl s1) (\<lambda>s2.
                 Inr (apply_layer b (ec_pred ctx)
                   (MW_Redis_Circuit_Breaker s2 fb1 (Unlocked (lc_new now)) (cb_with_store (key_fn (cbc_per_host c)))))))
       | None \<Rightarrow>
           (case build_circuit_breaker c recovery (now_of cp b) of
              (st, cb) \<Rightarrow> Inr (apply_layer b (ec_pred ctx) (MW_Circuit_Breaker st cb))))"

definition emit_respond :: "respond_config \<Rightarrow> emit_ctx \<Rightarrow> 'w proxy_builder \<Rightarrow> 'w proxy_builder result" where
  "emit_respond c ctx b =
     and_then (status_code ''invalid respond status'' (case rsc_status c of Some s \<Rightarrow> s | None \<Rightarrow> 200)) (\<lambda>s.
       Inr (apply_layer b (ec_pred ctx) (MW_Respond (sr_new s (rsc_body c)))))"

fun block_all :: "(string \<Rightarrow> block_list \<Rightarrow> block_list result) \<Rightarrow> string list \<Rightarrow> block_list \<Rightarrow> block_list result" where
  "block_all f [] bl = Inr bl"
| "block_all f (p # ps) bl = and_then (f p bl) (block_all f ps)"

definition emit_block :: "'w compile_params \<Rightarrow> block_config \<Rightarrow> emit_ctx \<Rightarrow> 'w proxy_builder \<Rightarrow> 'w proxy_builder result" where
  "emit_block cp c ctx b =
     (let glob = pf_glob (cp_platform cp)
      in and_then (block_all (bl_host glob) (blc_hosts c) bl_new) (\<lambda>bl1.
         and_then (block_all (bl_path glob) (blc_paths c) bl1) (\<lambda>bl2.
         and_then (case blc_response c of
                     Some r \<Rightarrow>
                       and_then (status_code ''invalid block status'' (case brc_status r of Some s \<Rightarrow> s | None \<Rightarrow> 403)) (\<lambda>s.
                         Inr (bl_response s (case brc_body r of Some t \<Rightarrow> t | None \<Rightarrow> []) bl2))
                   | None \<Rightarrow> Inr bl2) (\<lambda>bl3.
           Inr (apply_layer b (ec_pred ctx) (MW_Block bl3))))))"

definition emit_headers :: "modify_headers result \<Rightarrow> emit_ctx \<Rightarrow> 'w proxy_builder \<Rightarrow> 'w proxy_builder result" where
  "emit_headers m ctx b = and_then m (\<lambda>mh. Inr (apply_layer b (ec_pred ctx) (MW_Headers mh)))"

definition emit_set_request_header :: "'w compile_params \<Rightarrow> header_config \<Rightarrow> emit_ctx \<Rightarrow> 'w proxy_builder \<Rightarrow> 'w proxy_builder result" where
  "emit_set_request_header cp c =
     (let hp = pf_http (cp_platform cp)
      in emit_headers (mh_set_request (hp_header_name hp) (hp_header_value hp) (hdc_name c) (hdc_value c) mh_new))"

definition emit_append_request_header :: "'w compile_params \<Rightarrow> header_config \<Rightarrow> emit_ctx \<Rightarrow> 'w proxy_builder \<Rightarrow> 'w proxy_builder result" where
  "emit_append_request_header cp c =
     (let hp = pf_http (cp_platform cp)
      in emit_headers (mh_append_request (hp_header_name hp) (hp_header_value hp) (hdc_name c) (hdc_value c) mh_new))"

definition emit_remove_request_header :: "'w compile_params \<Rightarrow> string \<Rightarrow> emit_ctx \<Rightarrow> 'w proxy_builder \<Rightarrow> 'w proxy_builder result" where
  "emit_remove_request_header cp n = emit_headers (mh_remove_request (hp_header_name (pf_http (cp_platform cp))) n mh_new)"

definition emit_set_response_header :: "'w compile_params \<Rightarrow> header_config \<Rightarrow> emit_ctx \<Rightarrow> 'w proxy_builder \<Rightarrow> 'w proxy_builder result" where
  "emit_set_response_header cp c =
     (let hp = pf_http (cp_platform cp)
      in emit_headers (mh_set_response (hp_header_name hp) (hp_header_value hp) (hdc_name c) (hdc_value c) mh_new))"

definition emit_append_response_header :: "'w compile_params \<Rightarrow> header_config \<Rightarrow> emit_ctx \<Rightarrow> 'w proxy_builder \<Rightarrow> 'w proxy_builder result" where
  "emit_append_response_header cp c =
     (let hp = pf_http (cp_platform cp)
      in emit_headers (mh_append_response (hp_header_name hp) (hp_header_value hp) (hdc_name c) (hdc_value c) mh_new))"

definition emit_remove_response_header :: "'w compile_params \<Rightarrow> string \<Rightarrow> emit_ctx \<Rightarrow> 'w proxy_builder \<Rightarrow> 'w proxy_builder result" where
  "emit_remove_response_header cp n = emit_headers (mh_remove_response (hp_header_name (pf_http (cp_platform cp))) n mh_new)"

definition emit_rewrite :: "url_rewrite result \<Rightarrow> emit_ctx \<Rightarrow> 'w proxy_builder \<Rightarrow> 'w proxy_builder result" where
  "emit_rewrite u ctx b = and_then u (\<lambda>rw. Inr (apply_layer b (ec_pred ctx) (MW_Rewrite rw)))"

definition emit_rewrite_path :: "'w compile_params \<Rightarrow> rewrite_config \<Rightarrow> emit_ctx \<Rightarrow> 'w proxy_builder \<Rightarrow> 'w proxy_builder result" where
  "emit_rewrite_path cp c = emit_rewrite (ur_path (pf_path_router (cp_platform cp)) (rwc_pattern c) (rwc_replace c))"

definition emit_rewrite_path_regex :: "'w compile_params \<Rightarrow> rewrite_config \<Rightarrow> emit_ctx \<Rightarrow> 'w proxy_builder \<Rightarrow> 'w proxy_builder result" where
  "emit_rewrite_path_regex cp c = emit_rewrite (ur_regex (pf_regex (cp_platform cp)) (rwc_pattern c) (rwc_replace c))"

definition emit_upstream ::
  "'w compile_params \<Rightarrow> upstream_config \<Rightarrow> emit_ctx \<Rightarrow> 'w proxy_builder \<Rightarrow> 'w proxy_builder result"
where
  "emit_upstream cp c ctx b =
     and_then (upstream_new (hp_parse_uri (pf_http (cp_platform cp))) (pf_counter (cp_platform cp) (length (pb_routes b)))
                 (upc_urls c)) (\<lambda>u0.
     and_then (case upc_balance c of
                 Some s \<Rightarrow> and_then (parse_balance_strategy s) (\<lambda>st. Inr (upstream_strategy st u0))
               | None \<Rightarrow> Inr u0) (\<lambda>u.
       Inr (pb_route (case ec_pred ctx of Some p \<Rightarrow> p | None \<Rightarrow> (\<lambda>_. True)) u b)))"

definition emit_script :: "script_layer result \<Rightarrow> script_config \<Rightarrow> emit_ctx \<Rightarrow> 'w proxy_builder \<Rightarrow> 'w proxy_builder result" where
  "emit_script layer c ctx b =
     and_then layer (\<lambda>l0.
       let l1 = opt_set (scc_max_body_bytes c) sl_set_max_body_bytes l0;
           l2 = (if scc_shared c then sl_set_shared l1 else l1)
       in Inr (apply_layer b (ec_pred ctx) (MW_Script l2)))"

definition emit_script_inline :: "'w compile_params \<Rightarrow> script_config \<Rightarrow> emit_ctx \<Rightarrow> 'w proxy_builder \<Rightarrow> 'w proxy_builder result" where
  "emit_script_inline cp c = emit_script (sl_from_ts_source (cp_deno_ast cp) (scc_source c) ''<inline>'') c"

definition emit_script_file :: "'w compile_params \<Rightarrow> script_config \<Rightarrow> emit_ctx \<Rightarrow> 'w proxy_builder \<Rightarrow> 'w proxy_builder result" where
  "emit_script_file cp c = emit_script (sl_from_file (cp_deno_ast cp) (cp_read_file cp) (scc_source c)) c"

fun emit_leaf :: "'w compile_params \<Rightarrow> rule_node \<Rightarrow> emit_ctx \<Rightarrow> 'w proxy_builder \<Rightarrow> 'w proxy_builder result" where
  "emit_leaf cp (RN_Log c) = emit_log cp c"
| "emit_leaf cp (RN_Latency c) = emit_latency c"
| "emit_leaf cp (RN_Bandwidth c) = emit_bandwidth c"
| "emit_leaf cp (RN_Fault c) = emit_fault c"
| "emit_leaf cp (RN_Rate_Limit c) = emit_rate_limit cp c"
| "emit_leaf cp (RN_Sliding_Window c) = emit_sliding_window cp c"
| "emit_leaf cp (RN_Retry c) = emit_retry cp c"
| "emit_leaf cp (RN_Circuit_Breaker c) = emit_circuit_breaker cp c"
| "emit_leaf cp (RN_Respond c) = emit_respond c"
| "emit_leaf cp (RN_Block c) = emit_block cp c"
| "emit_leaf cp (RN_Set_Request_Header c) = emit_set_request_header cp c"
| "emit_leaf cp (RN_Append_Request_Header c) = emit_append_request_header cp c"
| "emit_leaf cp (RN_Remove_Request_Header n) = emit_remove_request_header cp n"
| "emit_leaf cp (RN_Set_Response_Header c) = emit_set_response_header cp c"
| "emit_leaf cp (RN_Append_Response_Header c) = emit_append_response_header cp c"
| "emit_leaf cp (RN_Remove_Response_Header n) = emit_remove_response_header cp n"
| "emit_leaf cp (RN_Rewrite_Path c) = emit_rewrite_path cp c"
| "emit_leaf cp (RN_Rewrite_Path_Regex c) = emit_rewrite_path_regex cp c"
| "emit_leaf cp (RN_Upstream c) = emit_upstream cp c"
| "emit_leaf cp (RN_Script c) = emit_script_inline cp c"
| "emit_leaf cp (RN_Script_File c) = emit_script_file cp c"
| "emit_leaf cp _ = (\<lambda>ctx b. Inl (Panicked ''walk only emits leaf decls''))"

definition emit_decl :: "'w compile_params \<Rightarrow> 'w proxy_builder \<Rightarrow> decl \<Rightarrow> 'w proxy_builder result" where
  "emit_decl cp b d =
     emit_leaf cp (dc_leaf d)
       \<lparr>ec_pred = effective_predicate d, ec_redis = dc_redis d, ec_scope_label = dc_scope_label d\<rparr> b"

fun emit_decls :: "'w compile_params \<Rightarrow> decl list \<Rightarrow> 'w proxy_builder \<Rightarrow> 'w proxy_builder result" where
  "emit_decls cp [] b = Inr b"
| "emit_decls cp (d # ds) b = and_then (emit_decl cp b d) (emit_decls cp ds)"

section \<open>Listeners\<close>

record process_settings =
  ps_accept_invalid_upstream_certs :: bool
  ps_handshake_timeout :: "string option"
  ps_idle_timeout :: "string option"
  ps_connect_timeout :: "string option"
  ps_request_timeout :: "string option"
  ps_max_connections :: "nat option"
  ps_drain_timeout :: "string option"
  ps_pool_max_idle_per_host :: "nat option"
  ps_pool_idle_timeout :: "string option"

definition apply_process_settings :: "process_settings \<Rightarrow> 'w proxy_builder \<Rightarrow> 'w proxy_builder result" where
  "apply_process_settings s b0 =
     (let b1 = (if ps_accept_invalid_upstream_certs s then pb_danger_accept_invalid_upstream_certs b0 else b0)
      in and_then (opt_duration (ps_handshake_timeout s) pb_set_handshake_timeout b1) (\<lambda>b2.
         and_then (opt_duration (ps_idle_timeout s) pb_set_idle_timeout b2) (\<lambda>b3.
         and_then (opt_duration (ps_connect_timeout s) pb_set_connect_timeout b3) (\<lambda>b4.
         and_then (opt_duration (ps_request_timeout s) pb_set_request_timeout b4) (\<lambda>b5.
         and_then (opt_duration (ps_drain_timeout s) pb_set_drain_timeout (opt_set (ps_max_connections s) pb_set_max_connections b5)) (\<lambda>b6.
           opt_duration (ps_pool_idle_timeout s) pb_set_pool_idle_timeout
             (opt_set (ps_pool_max_idle_per_host s) pb_set_pool_max_idle_per_host b6)))))))"

record forward_listener =
  fl_port :: nat
  fl_bind :: "string option"
  fl_ca :: "string \<times> string"
  fl_tls :: "(string \<times> string) option"
  fl_credentials :: "(string \<times> string) list"
  fl_redis :: "redis_config option"
  fl_body :: "rule_node list"

record reverse_listener =
  rv_port :: nat
  rv_bind :: "string option"
  rv_upstream :: string
  rv_tls :: "(string \<times> string) option"
  rv_redis :: "redis_config option"
  rv_body :: "rule_node list"

record proxy_config =
  pc_accept_invalid_upstream_certs :: bool
  pc_handshake_timeout :: "string option"
  pc_idle_timeout :: "string option"
  pc_health_addr :: "string option"
  pc_connect_timeout :: "string option"
  pc_request_timeout :: "string option"
  pc_max_connections :: "nat option"
  pc_drain_timeout :: "string option"
  pc_pool_max_idle_per_host :: "nat option"
  pc_pool_idle_timeout :: "string option"
  pc_redis :: "redis_config option"
  pc_forwards :: "forward_listener list"
  pc_reverses :: "reverse_listener list"
  pc_body :: "rule_node list"

record 'w compiled_listener =
  cl_addr :: string
  cl_proxy :: "'w proxy"

definition listener_addr :: "string option \<Rightarrow> nat \<Rightarrow> string" where
  "listener_addr bind port = (case bind of Some h \<Rightarrow> h | None \<Rightarrow> ''127.0.0.1'') @ '':'' @ show_nat port"

definition listener_initial_redis ::
  "(string \<Rightarrow> bool) \<Rightarrow> redis_config option \<Rightarrow> redis_config option \<Rightarrow> redis_cache \<Rightarrow>
   (redis_connection option \<times> redis_cache) result"
where
  "listener_initial_redis valid_url listener process cache =
     (case (case listener of Some c \<Rightarrow> Some c | None \<Rightarrow> process) of
        None \<Rightarrow> Inr (None, cache)
      | Some cfg \<Rightarrow> and_then (cached_redis valid_url cfg cache) (\<lambda>(conn, cache'). Inr (Some conn, cache')))"

definition compile_forward ::
  "'w compile_params \<Rightarrow> rule_node list \<Rightarrow> process_settings \<Rightarrow> redis_config option \<Rightarrow> forward_listener \<Rightarrow> redis_cache \<Rightarrow>
   ('w compiled_listener \<times> redis_cache) result"
where
  "compile_forward cp globals process process_redis fwd cache =
     and_then (listener_initial_redis (cp_valid_url cp) (fl_redis fwd) process_redis cache) (\<lambda>(initial_redis, cache1).
     and_then (walk_listener_body (walk_params_of cp) globals (fl_body fwd) initial_redis cache1) (\<lambda>(decls, cache2).
     and_then (apply_process_settings process pb_new) (\<lambda>b1.
     and_then (pb_set_ca_pem_files (cp_from_pem_files cp) (fst (fl_ca fwd)) (snd (fl_ca fwd)) b1) (\<lambda>b2.
     and_then (case fl_tls fwd of
                 Some (cert, key) \<Rightarrow> pb_set_tls_identity (cp_read_identity cp) cert key b2
               | None \<Rightarrow> Inr b2) (\<lambda>b3.
     and_then (emit_decls cp decls (fold (\<lambda>(u, p). pb_credential u p) (fl_credentials fwd) b3)) (\<lambda>b4.
     and_then (proxy_build (cp_with_single_cert cp) b4) (\<lambda>px.
       Inr (\<lparr>cl_addr = listener_addr (fl_bind fwd) (fl_port fwd), cl_proxy = px\<rparr>, cache2))))))))"

definition compile_reverse ::
  "'w compile_params \<Rightarrow> rule_node list \<Rightarrow> process_settings \<Rightarrow> redis_config option \<Rightarrow> reverse_listener \<Rightarrow> redis_cache \<Rightarrow>
   ('w compiled_listener \<times> redis_cache) result"
where
  "compile_reverse cp globals process process_redis rv cache =
     and_then (listener_initial_redis (cp_valid_url cp) (rv_redis rv) process_redis cache) (\<lambda>(initial_redis, cache1).
     and_then (walk_listener_body (walk_params_of cp) globals (rv_body rv) initial_redis cache1) (\<lambda>(decls, cache2).
     and_then (apply_process_settings process pb_new) (\<lambda>b1.
     and_then (pb_reverse_proxy (hp_parse_uri (pf_http (cp_platform cp))) (rv_upstream rv) b1) (\<lambda>b2.
     and_then (case rv_tls rv of
                 Some (cert, key) \<Rightarrow> pb_set_tls_identity (cp_read_identity cp) cert key b2
               | None \<Rightarrow> Inr b2) (\<lambda>b3.
     and_then (emit_decls cp decls b3) (\<lambda>b4.
     and_then (proxy_build (cp_with_single_cert cp) b4) (\<lambda>px.
       Inr (\<lparr>cl_addr = listener_addr (rv_bind rv) (rv_port rv), cl_proxy = px\<rparr>, cache2))))))))"

text \<open>The loops over the listeners, with the cache of Redis connections passed along.\<close>

fun compile_all :: "('l \<Rightarrow> redis_cache \<Rightarrow> ('c \<times> redis_cache) result) \<Rightarrow> 'l list \<Rightarrow> redis_cache \<Rightarrow> ('c list \<times> redis_cache) result" where
  "compile_all f [] cache = Inr ([], cache)"
| "compile_all f (l # ls) cache =
     and_then (f l cache) (\<lambda>(c, cache1). and_then (compile_all f ls cache1) (\<lambda>(cs, cache2). Inr (c # cs, cache2)))"

definition process_settings_of :: "proxy_config \<Rightarrow> process_settings" where
  "process_settings_of c =
     \<lparr>ps_accept_invalid_upstream_certs = pc_accept_invalid_upstream_certs c, ps_handshake_timeout = pc_handshake_timeout c,
      ps_idle_timeout = pc_idle_timeout c, ps_connect_timeout = pc_connect_timeout c,
      ps_request_timeout = pc_request_timeout c, ps_max_connections = pc_max_connections c,
      ps_drain_timeout = pc_drain_timeout c, ps_pool_max_idle_per_host = pc_pool_max_idle_per_host c,
      ps_pool_idle_timeout = pc_pool_idle_timeout c\<rparr>"

definition probe_ctx :: walk_ctx where
  "probe_ctx = \<lparr>wk_preds = [], wk_path = [], wk_scope_stack = [], wk_scope_counter = 0, wk_redis_stack = [], wk_redis_cache = []\<rparr>"

definition into_listeners :: "'w compile_params \<Rightarrow> proxy_config \<Rightarrow> 'w compiled_listener list result" where
  "into_listeners cp c =
     (if pc_forwards c = [] \<and> pc_reverses c = [] then Inl (Box_Error ''config has no listeners'')
      else
        and_then (walk_body (walk_params_of cp) 0 (pc_body c) probe_ctx []) (\<lambda>(_, probe_decls).
        and_then (validate_min_scope_global probe_decls) (\<lambda>_.
        and_then (compile_all (compile_forward cp (pc_body c) (process_settings_of c) (pc_redis c)) (pc_forwards c) []) (\<lambda>(fs, cache).
        and_then (compile_all (compile_reverse cp (pc_body c) (process_settings_of c) (pc_redis c)) (pc_reverses c) cache) (\<lambda>(rs, _).
          Inr (fs @ rs))))))"

section \<open>Lemmas\<close>

definition guarded :: "predicate option \<Rightarrow> 'w middleware \<Rightarrow> 'w middleware" where
  "guarded pred l = (case pred of Some p \<Rightarrow> MW_When p l | None \<Rightarrow> l)"

lemma apply_layer_layers:
  "pb_layers (apply_layer b pred l) = pb_layers b @ [guarded pred l]" "pb_routes (apply_layer b pred l) = pb_routes b"
  "pb_upstream_target (apply_layer b pred l) = pb_upstream_target b"
  "pb_tls_identity (apply_layer b pred l) = pb_tls_identity b"
  by (simp_all add: apply_layer_def guarded_def pb_layer_def split: option.split)

text \<open>A guarded layer acts on the requests its predicate accepts and is not there for the rest.\<close>

lemma guarded_call:
  "mw_layer pf i (guarded pred l) inner req w = (if holds_at pred req then mw_layer pf i l inner req w else inner req w)"
  by (cases pred) (simp_all add: guarded_def holds_at_def cond_layer_single)

fun is_upstream :: "rule_node \<Rightarrow> bool" where
  "is_upstream (RN_Upstream _) = True"
| "is_upstream _ = False"

lemmas emit_defs = emit_log_def emit_latency_def emit_bandwidth_def emit_fault_def emit_retry_def emit_respond_def
  emit_block_def emit_headers_def emit_rewrite_def emit_script_def emit_set_request_header_def
  emit_append_request_header_def emit_remove_request_header_def emit_set_response_header_def
  emit_append_response_header_def emit_remove_response_header_def emit_rewrite_path_def emit_rewrite_path_regex_def
  emit_script_inline_def emit_script_file_def

lemma emit_rate_limit_layer: "emit_rate_limit cp c ctx b = Inr b' \<Longrightarrow> \<exists>l. b' = apply_layer b (ec_pred ctx) l"
  by (cases "ec_redis ctx") (auto simp: emit_rate_limit_def and_then_Inr_iff Let_def)

lemma emit_sliding_window_layer: "emit_sliding_window cp c ctx b = Inr b' \<Longrightarrow> \<exists>l. b' = apply_layer b (ec_pred ctx) l"
  by (cases "ec_redis ctx") (auto simp: emit_sliding_window_def and_then_Inr_iff)

lemma emit_circuit_breaker_layer: "emit_circuit_breaker cp c ctx b = Inr b' \<Longrightarrow> \<exists>l. b' = apply_layer b (ec_pred ctx) l"
  by (cases "ec_redis ctx") (auto simp: emit_circuit_breaker_def and_then_Inr_iff Let_def case_prod_beta)

lemmas emit_redis_layer = emit_rate_limit_layer emit_sliding_window_layer emit_circuit_breaker_layer

lemma emit_leaf_layer:
  assumes "emit_leaf cp leaf ctx b = Inr b'" "\<not> is_upstream leaf"
  shows "\<exists>l. b' = apply_layer b (ec_pred ctx) l"
  using assms by (cases leaf) (auto simp: emit_defs and_then_Inr_iff Let_def dest: emit_redis_layer)

lemma emit_leaf_upstream:
  assumes "emit_leaf cp leaf ctx b = Inr b'" "is_upstream leaf"
  shows "pb_layers b' = pb_layers b"
  using assms by (cases leaf) (auto simp: emit_upstream_def and_then_Inr_iff pb_route_def)

lemma emit_leaf_is_leaf: "emit_leaf cp leaf ctx b = Inr b' \<Longrightarrow> is_leaf leaf"
  by (cases leaf) auto

text \<open>Each declaration but those of upstreams becomes one layer, guarded by its effective predicate, in order.\<close>

lemma emit_decls_layers:
  "emit_decls cp ds b = Inr b' \<Longrightarrow>
     \<exists>ls. pb_layers b' = pb_layers b @ ls \<and>
       list_all2 (\<lambda>d m. \<exists>l. m = guarded (effective_predicate d) l) (filter (\<lambda>d. \<not> is_upstream (dc_leaf d)) ds) ls"
proof (induction ds arbitrary: b)
  case (Cons d ds)
  then obtain b1 where b1: "emit_decl cp b d = Inr b1" "emit_decls cp ds b1 = Inr b'"
    by (auto simp: and_then_Inr_iff)
  obtain ls where ls: "pb_layers b' = pb_layers b1 @ ls"
      "list_all2 (\<lambda>d m. \<exists>l. m = guarded (effective_predicate d) l) (filter (\<lambda>d. \<not> is_upstream (dc_leaf d)) ds) ls"
    using Cons.IH [OF b1(2)] by blast
  show ?case
  proof (cases "is_upstream (dc_leaf d)")
    case True
    have "pb_layers b1 = pb_layers b" using emit_leaf_upstream [OF b1(1) [unfolded emit_decl_def] True] .
    then show ?thesis using ls True by auto
  next
    case False
    obtain l where "b1 = apply_layer b (effective_predicate d) l"
      using emit_leaf_layer [OF b1(1) [unfolded emit_decl_def] False] by auto
    then show ?thesis using ls False
      by (intro exI [of _ "guarded (effective_predicate d) l # ls"]) (auto simp: apply_layer_layers)
  qed
qed simp

text \<open>Process settings leave everything alone that no setting is about.\<close>

definition settings_blind :: "('w proxy_builder \<Rightarrow> bool) \<Rightarrow> bool" where
  "settings_blind P \<longleftrightarrow> (\<forall>b d n. P b \<longrightarrow>
     P (pb_danger_accept_invalid_upstream_certs b) \<and> P (pb_set_handshake_timeout d b) \<and> P (pb_set_idle_timeout d b) \<and>
     P (pb_set_connect_timeout d b) \<and> P (pb_set_request_timeout d b) \<and> P (pb_set_drain_timeout d b) \<and>
     P (pb_set_max_connections n b) \<and> P (pb_set_pool_max_idle_per_host n b) \<and> P (pb_set_pool_idle_timeout d b))"

lemmas settings_defs = pb_danger_accept_invalid_upstream_certs_def pb_set_handshake_timeout_def pb_set_idle_timeout_def
  pb_set_connect_timeout_def pb_set_request_timeout_def pb_set_drain_timeout_def pb_set_max_connections_def
  pb_set_pool_max_idle_per_host_def pb_set_pool_idle_timeout_def

lemma opt_keeps:
  "opt_duration t f b = Inr b' \<Longrightarrow> (\<And>d b. P b \<Longrightarrow> P (f d b)) \<Longrightarrow> P b \<Longrightarrow> P b'"
  "(\<And>d b. P b \<Longrightarrow> P (g d b)) \<Longrightarrow> P b \<Longrightarrow> P (opt_set x g b)"
  by (auto simp: opt_duration_def opt_set_def and_then_Inr_iff split: option.splits)

lemma apply_process_settings_keeps:
  assumes "apply_process_settings s b = Inr b'" "settings_blind P" "P b"
  shows "P b'"
proof -
  define b1 where "b1 = (if ps_accept_invalid_upstream_certs s then pb_danger_accept_invalid_upstream_certs b else b)"
  note P = assms(2) [unfolded settings_blind_def, rule_format]
  have 1: "P b1" using assms(3) P by (simp add: b1_def)
  obtain b2 b3 b4 b5 b6 where
      2: "opt_duration (ps_handshake_timeout s) pb_set_handshake_timeout b1 = Inr b2"
      and 3: "opt_duration (ps_idle_timeout s) pb_set_idle_timeout b2 = Inr b3"
      and 4: "opt_duration (ps_connect_timeout s) pb_set_connect_timeout b3 = Inr b4"
      and 5: "opt_duration (ps_request_timeout s) pb_set_request_timeout b4 = Inr b5"
      and 6: "opt_duration (ps_drain_timeout s) pb_set_drain_timeout (opt_set (ps_max_connections s) pb_set_max_connections b5) = Inr b6"
      and 7: "opt_duration (ps_pool_idle_timeout s) pb_set_pool_idle_timeout
             (opt_set (ps_pool_max_idle_per_host s) pb_set_pool_max_idle_per_host b6) = Inr b'"
    using assms(1) by (auto simp: apply_process_settings_def Let_def b1_def and_then_Inr_iff)
  have "P b2" using opt_keeps(1) [where P = P, OF 2 _ 1] P by blast
  from opt_keeps(1) [where P = P, OF 3 _ this] have "P b3" using P by blast
  from opt_keeps(1) [where P = P, OF 4 _ this] have "P b4" using P by blast
  from opt_keeps(1) [where P = P, OF 5 _ this] have "P b5" using P by blast
  then have "P (opt_set (ps_max_connections s) pb_set_max_connections b5)"
    by (rule opt_keeps(2) [where P = P, rotated]) (use P in blast)
  from opt_keeps(1) [where P = P, OF 6 _ this] have "P b6" using P by blast
  then have "P (opt_set (ps_pool_max_idle_per_host s) pb_set_pool_max_idle_per_host b6)"
    by (rule opt_keeps(2) [where P = P, rotated]) (use P in blast)
  from opt_keeps(1) [where P = P, OF 7 _ this] show ?thesis using P by blast
qed

definition bare :: "'w proxy_builder \<Rightarrow> bool" where
  "bare b \<longleftrightarrow> pb_layers b = [] \<and> pb_routes b = [] \<and> pb_credentials b = []"

lemma settings_blind_parts: "settings_blind bare" "settings_blind (\<lambda>b. pb_upstream_target b = None)"
  by (simp_all add: settings_blind_def bare_def settings_defs)

lemma settings_bare:
  assumes "apply_process_settings s pb_new = Inr b"
  shows "bare b" "pb_upstream_target b = None"
  using apply_process_settings_keeps [OF assms settings_blind_parts(1)]
    apply_process_settings_keeps [OF assms settings_blind_parts(2)]
  by (simp_all add: bare_def pb_new_def)

lemma compile_reverse_parts:
  assumes "compile_reverse cp globals process process_redis rv cache = Inr (cl, cache')"
  obtains ds initial_redis cache1 b3 b4 where
    "listener_initial_redis (cp_valid_url cp) (rv_redis rv) process_redis cache = Inr (initial_redis, cache1)"
    "walk_listener_body (walk_params_of cp) globals (rv_body rv) initial_redis cache1 = Inr (ds, cache')"
    "bare b3" "emit_decls cp ds b3 = Inr b4" "proxy_build (cp_with_single_cert cp) b4 = Inr (cl_proxy cl)"
proof -
  obtain initial_redis cache1 ds b1 b2 b3 b4 where
      r: "listener_initial_redis (cp_valid_url cp) (rv_redis rv) process_redis cache = Inr (initial_redis, cache1)"
      and w: "walk_listener_body (walk_params_of cp) globals (rv_body rv) initial_redis cache1 = Inr (ds, cache')"
      and b1: "apply_process_settings process pb_new = Inr b1"
      and b2: "pb_reverse_proxy (hp_parse_uri (pf_http (cp_platform cp))) (rv_upstream rv) b1 = Inr b2"
      and b3: "(case rv_tls rv of
                 Some (cert, key) \<Rightarrow> pb_set_tls_identity (cp_read_identity cp) cert key b2
               | None \<Rightarrow> Inr b2) = Inr b3"
      and b4: "emit_decls cp ds b3 = Inr b4" "proxy_build (cp_with_single_cert cp) b4 = Inr (cl_proxy cl)"
    using assms by (auto simp: compile_reverse_def and_then_Inr_iff)
  have "bare b2" using settings_bare(1) [OF b1] b2 by (auto simp: pb_reverse_proxy_def and_then_Inr_iff bare_def)
  then have "bare b3" using b3 by (auto simp: pb_set_tls_identity_def and_then_Inr_iff bare_def split: option.splits)
  then show ?thesis using that r w b4 by blast
qed

text \<open>Rules change neither the credentials nor the target of a builder, so the mode of a compiled listener is
  that of its block.\<close>

lemma emit_leaf_mode:
  assumes "emit_leaf cp leaf ctx b = Inr b'"
  shows "pb_credentials b' = pb_credentials b \<and> pb_upstream_target b' = pb_upstream_target b"
proof (cases "is_upstream leaf")
  case True
  then show ?thesis using assms by (cases leaf) (auto simp: emit_upstream_def and_then_Inr_iff pb_route_def)
next
  case False
  then show ?thesis using emit_leaf_layer [OF assms] by (auto simp: apply_layer_def pb_layer_def split: option.splits)
qed

lemma emit_decls_mode:
  "emit_decls cp ds b = Inr b' \<Longrightarrow> pb_credentials b' = pb_credentials b \<and> pb_upstream_target b' = pb_upstream_target b"
  by (induction ds arbitrary: b) (fastforce simp: and_then_Inr_iff emit_decl_def dest: emit_leaf_mode)+

lemma proxy_build_mode:
  assumes "proxy_build with_single_cert b = Inr px"
  shows "pb_upstream_target b = None \<Longrightarrow>
      \<exists>ca tls. px_mode px = Forward ca (if pb_credentials b = [] then None else Some (pb_credentials b)) tls"
    and "pb_upstream_target b \<noteq> None \<Longrightarrow> \<exists>a sch tls. px_mode px = Reverse a sch tls"
  using assms by (auto simp: proxy_build_def and_then_Inr_iff)

lemma fold_credentials:
  "pb_credentials (fold (\<lambda>(u, p). pb_credential u p) cs b) = pb_credentials b @ cs"
  "pb_upstream_target (fold (\<lambda>(u, p). pb_credential u p) cs b) = pb_upstream_target b"
  by (induction cs arbitrary: b) (auto simp: pb_credential_def)

lemma compile_forward_mode:
  assumes "compile_forward cp globals process process_redis fwd cache = Inr (cl, cache')"
  shows "\<exists>ca tls. px_mode (cl_proxy cl) =
     Forward ca (if fl_credentials fwd = [] then None else Some (fl_credentials fwd)) tls"
proof -
  obtain ds b1 b2 b3 b4 where
      b1: "apply_process_settings process pb_new = Inr b1"
      and b2: "pb_set_ca_pem_files (cp_from_pem_files cp) (fst (fl_ca fwd)) (snd (fl_ca fwd)) b1 = Inr b2"
      and b3: "(case fl_tls fwd of
                 Some (cert, key) \<Rightarrow> pb_set_tls_identity (cp_read_identity cp) cert key b2
               | None \<Rightarrow> Inr b2) = Inr b3"
      and b4: "emit_decls cp ds (fold (\<lambda>(u, p). pb_credential u p) (fl_credentials fwd) b3) = Inr b4"
      and px: "proxy_build (cp_with_single_cert cp) b4 = Inr (cl_proxy cl)"
    using assms by (auto simp: compile_forward_def and_then_Inr_iff)
  have "pb_credentials b2 = [] \<and> pb_upstream_target b2 = None"
    using settings_bare [OF b1] b2 by (auto simp: pb_set_ca_pem_files_def and_then_Inr_iff bare_def)
  then have "pb_credentials b3 = [] \<and> pb_upstream_target b3 = None"
    using b3 by (auto simp: pb_set_tls_identity_def and_then_Inr_iff split: option.splits)
  then have c: "pb_credentials b4 = fl_credentials fwd" and t: "pb_upstream_target b4 = None"
    using emit_decls_mode [OF b4] by (simp_all add: fold_credentials)
  show ?thesis using proxy_build_mode(1) [OF px t] unfolding c .
qed

lemma compile_reverse_mode:
  assumes "compile_reverse cp globals process process_redis rv cache = Inr (cl, cache')"
  shows "\<exists>a sch tls. px_mode (cl_proxy cl) = Reverse a sch tls"
proof -
  obtain ds b1 b2 b3 b4 where
      b2: "pb_reverse_proxy (hp_parse_uri (pf_http (cp_platform cp))) (rv_upstream rv) b1 = Inr b2"
      and b3: "(case rv_tls rv of
                 Some (cert, key) \<Rightarrow> pb_set_tls_identity (cp_read_identity cp) cert key b2
               | None \<Rightarrow> Inr b2) = Inr b3"
      and b4: "emit_decls cp ds b3 = Inr b4" "proxy_build (cp_with_single_cert cp) b4 = Inr (cl_proxy cl)"
    using assms by (auto simp: compile_reverse_def and_then_Inr_iff)
  have "pb_upstream_target b2 \<noteq> None" using b2 by (auto simp: pb_reverse_proxy_def and_then_Inr_iff)
  then have "pb_upstream_target b3 \<noteq> None"
    using b3 by (auto simp: pb_set_tls_identity_def and_then_Inr_iff split: option.splits)
  then have "pb_upstream_target b4 \<noteq> None" using emit_decls_mode [OF b4(1)] by simp
  then show ?thesis by (rule proxy_build_mode(2) [OF b4(2)])
qed

lemma compile_all_list:
  "compile_all f ls cache = Inr (cs, cache') \<Longrightarrow> list_all2 (\<lambda>l c. \<exists>k k'. f l k = Inr (c, k')) ls cs"
  by (induction ls arbitrary: cache cs) (fastforce simp: and_then_Inr_iff)+

text \<open>The listeners of a configuration, forward listeners first, each in the mode of its block.\<close>

lemma into_listeners_modes:
  assumes "into_listeners cp c = Inr ls"
  obtains fs rs where "ls = fs @ rs" "fs \<noteq> [] \<or> rs \<noteq> []"
    "list_all2 (\<lambda>fwd l. \<exists>ca tls. px_mode (cl_proxy l) =
       Forward ca (if fl_credentials fwd = [] then None else Some (fl_credentials fwd)) tls) (pc_forwards c) fs"
    "list_all2 (\<lambda>rv l. \<exists>a sch tls. px_mode (cl_proxy l) = Reverse a sch tls) (pc_reverses c) rs"
proof -
  obtain fs rs cache cache' where *: "pc_forwards c \<noteq> [] \<or> pc_reverses c \<noteq> []" "ls = fs @ rs"
      "compile_all (compile_forward cp (pc_body c) (process_settings_of c) (pc_redis c)) (pc_forwards c) [] = Inr (fs, cache)"
      "compile_all (compile_reverse cp (pc_body c) (process_settings_of c) (pc_redis c)) (pc_reverses c) cache = Inr (rs, cache')"
    using assms by (auto simp: into_listeners_def and_then_Inr_iff split: if_splits)
  show ?thesis
  proof (rule that [OF *(2)])
    show f: "list_all2 (\<lambda>fwd l. \<exists>ca tls. px_mode (cl_proxy l) =
       Forward ca (if fl_credentials fwd = [] then None else Some (fl_credentials fwd)) tls) (pc_forwards c) fs"
      using compile_all_list [OF *(3)] by (rule list_all2_mono) (blast dest: compile_forward_mode)
    show r: "list_all2 (\<lambda>rv l. \<exists>a sch tls. px_mode (cl_proxy l) = Reverse a sch tls) (pc_reverses c) rs"
      using compile_all_list [OF *(4)] by (rule list_all2_mono) (blast dest: compile_reverse_mode)
    show "fs \<noteq> [] \<or> rs \<noteq> []" using f r *(1) by (auto simp: list_all2_Nil2)
  qed
qed

section \<open>Fixed answers\<close>

fun respond_config_of :: "rule_node \<Rightarrow> respond_config option" where
  "respond_config_of (RN_Respond c) = Some c"
| "respond_config_of _ = None"

definition respond_answer :: "respond_config \<Rightarrow> response" where
  "respond_answer c = response_with (case rsc_status c of Some s \<Rightarrow> s | None \<Rightarrow> 200) (full_body (rsc_body c))"

definition decl_answer :: "decl \<Rightarrow> response" where
  "decl_answer d = (case respond_config_of (dc_leaf d) of Some c \<Rightarrow> respond_answer c | None \<Rightarrow> response_with 200 empty_body)"

lemma emit_respond_decl:
  assumes "emit_decl cp b d = Inr b'" "respond_config_of (dc_leaf d) = Some c"
  shows "\<exists>s. b' = apply_layer b (effective_predicate d) (MW_Respond s) \<and>
     response_with (sr_status s) (full_body (sr_body s)) = decl_answer d"
  using assms
  by (cases "dc_leaf d")
    (auto simp: emit_decl_def emit_respond_def and_then_Inr_iff status_code_def decl_answer_def respond_answer_def sr_new_def
      split: if_splits)

lemma emit_responds:
  "emit_decls cp ds b = Inr b' \<Longrightarrow> list_all (\<lambda>d. respond_config_of (dc_leaf d) \<noteq> None) ds \<Longrightarrow>
     pb_routes b' = pb_routes b \<and>
     (\<exists>ss. pb_layers b' = pb_layers b @ map2 (\<lambda>d s. guarded (effective_predicate d) (MW_Respond s)) ds ss \<and>
       list_all2 (\<lambda>d s. response_with (sr_status s) (full_body (sr_body s)) = decl_answer d) ds ss)"
proof (induction ds arbitrary: b)
  case (Cons d ds)
  then obtain b1 where b1: "emit_decl cp b d = Inr b1" "emit_decls cp ds b1 = Inr b'" by (auto simp: and_then_Inr_iff)
  obtain s where s: "b1 = apply_layer b (effective_predicate d) (MW_Respond s)"
      "response_with (sr_status s) (full_body (sr_body s)) = decl_answer d"
    using emit_respond_decl [OF b1(1)] Cons.prems(2) by auto
  obtain ss where "pb_routes b' = pb_routes b1"
      "pb_layers b' = pb_layers b1 @ map2 (\<lambda>d s. guarded (effective_predicate d) (MW_Respond s)) ds ss"
      "list_all2 (\<lambda>d s. response_with (sr_status s) (full_body (sr_body s)) = decl_answer d) ds ss"
    using Cons.IH [OF b1(2)] Cons.prems(2) by auto
  then show ?case using s by (intro conjI exI [of _ "s # ss"]) (simp_all add: apply_layer_layers)
qed simp

text \<open>A chain of guarded fixed answers gives the first one in effect.\<close>

lemma wrap_responds:
  "list_all2 (\<lambda>d s. response_with (sr_status s) (full_body (sr_body s)) = decl_answer d) ds ss \<Longrightarrow>
     wrap_layers pf i (map2 (\<lambda>d s. guarded (effective_predicate d) (MW_Respond s)) ds ss) svc req w =
       (case List.find (\<lambda>d. in_effect d req) ds of Some d \<Rightarrow> (ready (Inr (decl_answer d)), w) | None \<Rightarrow> svc req w)"
  by (induction ds ss arbitrary: i rule: list_all2_induct)
    (simp_all add: guarded_call in_effect_def sr_call_def)

text \<open>The declaration that should act on a request: in scope, and no deeper one of its kind is.\<close>

definition innermost :: "decl list \<Rightarrow> request \<Rightarrow> decl \<Rightarrow> bool" where
  "innermost ds req d \<longleftrightarrow>
     d \<in> set ds \<and> holds_at (dc_scope_pred d) req \<and>
     \<not> (\<exists>e \<in> set ds. shadows e d \<and> holds_at (dc_scope_pred e) req)"

lemma find_in_effect:
  assumes "walk_listener_body wp globals body initial_redis cache = Inr (ds, cache')"
    and "\<And>d. d \<in> set ds \<Longrightarrow> rule_is_exclusive (dc_leaf d)"
  shows "List.find (\<lambda>d. in_effect d req) ds = Some d \<Longrightarrow> innermost ds req d"
    and "List.find (\<lambda>d. in_effect d req) ds = None \<Longrightarrow> d \<in> set ds \<Longrightarrow> \<not> holds_at (dc_scope_pred d) req"
proof -
  obtain raw where raw: "ds = resolve_exclusions raw"
      "list_all (\<lambda>d. is_leaf (dc_leaf d) \<and> dc_excluded_preds d = []) raw"
    using walk_listener_raw [OF assms(1)] .
  show "innermost ds req d" if found: "List.find (\<lambda>d. in_effect d req) ds = Some d"
  proof -
    obtain i where i: "i < length ds" "d = ds ! i" "in_effect d req" using found unfolding find_Some_iff by blast
    then show ?thesis
      using in_effect_iff [OF raw i(1), of req] assms(2) [of d] by (auto simp: innermost_def in_set_conv_nth)
  qed
  show "\<not> holds_at (dc_scope_pred d) req" if none: "List.find (\<lambda>d. in_effect d req) ds = None" and d: "d \<in> set ds"
  proof
    assume "holds_at (dc_scope_pred d) req"
    moreover obtain i where "i < length ds" "d = ds ! i" using d by (auto simp: in_set_conv_nth)
    ultimately obtain j where "j < length ds" "in_effect (ds ! j) req"
      using in_effect_exists [OF raw, of i req] assms(2) by auto
    then show False using none by (auto simp: find_None_iff)
  qed
qed

definition upstream_service :: "'w platform \<Rightarrow> 'w proxy \<Rightarrow> authority \<Rightarrow> string \<Rightarrow> 'w service" where
  "upstream_service pf px a sch =
     forward_call (hp_header_name (pf_http pf)) (pf_from_parts pf) (pf_timeout pf) (pf_client pf)
       \<lparr>fwd_authority = a, fwd_scheme = sch, fwd_request_timeout = px_request_timeout px\<rparr>"

text \<open>The chain of a listener with nothing but fixed answers.\<close>

lemma compile_responds:
  assumes "compile_reverse cp globals process process_redis rv cache = Inr (cl, cache')"
    and "list_all (\<lambda>l. respond_config_of l \<noteq> None) (body_leaves globals @ body_leaves (rv_body rv))"
  obtains ds initial_redis cache1 where
    "listener_initial_redis (cp_valid_url cp) (rv_redis rv) process_redis cache = Inr (initial_redis, cache1)"
    "walk_listener_body (walk_params_of cp) globals (rv_body rv) initial_redis cache1 = Inr (ds, cache')"
    "\<And>d. d \<in> set ds \<Longrightarrow> rule_is_exclusive (dc_leaf d)"
    "\<And>req w. build_service_chain pf (cl_proxy cl) a sch req w =
      (case List.find (\<lambda>d. in_effect d req) ds of
         Some d \<Rightarrow> (ready (Inr (decl_answer d)), w) | None \<Rightarrow> upstream_service pf (cl_proxy cl) a sch req w)"
proof -
  obtain ds initial_redis cache1 b3 b4 where
      redis: "listener_initial_redis (cp_valid_url cp) (rv_redis rv) process_redis cache = Inr (initial_redis, cache1)"
      and walk: "walk_listener_body (walk_params_of cp) globals (rv_body rv) initial_redis cache1 = Inr (ds, cache')"
      and b3: "bare b3" and b4: "emit_decls cp ds b3 = Inr b4" "proxy_build (cp_with_single_cert cp) b4 = Inr (cl_proxy cl)"
    using compile_reverse_parts [OF assms(1)] .
  have "list_all (\<lambda>l. respond_config_of l \<noteq> None) (map dc_leaf ds)"
    using walk_listener_leaves [OF walk] assms(2) by simp
  then have resp: "list_all (\<lambda>d. respond_config_of (dc_leaf d) \<noteq> None) ds" by (simp add: list.pred_map comp_def)
  have excl: "rule_is_exclusive (dc_leaf d)" if "d \<in> set ds" for d
    using resp that by (cases "dc_leaf d") (auto simp: list_all_iff)
  obtain ss where ss: "pb_layers b4 = map2 (\<lambda>d s. guarded (effective_predicate d) (MW_Respond s)) ds ss" "pb_routes b4 = []"
      "list_all2 (\<lambda>d s. response_with (sr_status s) (full_body (sr_body s)) = decl_answer d) ds ss"
    using emit_responds [OF b4(1) resp] b3 by (auto simp: bare_def)
  have "build_service_chain pf (cl_proxy cl) a sch req w =
      (case List.find (\<lambda>d. in_effect d req) ds of
         Some d \<Rightarrow> (ready (Inr (decl_answer d)), w) | None \<Rightarrow> upstream_service pf (cl_proxy cl) a sch req w)" for req w
    using proxy_build_layers [OF b4(2)] ss(1,2) wrap_responds [OF ss(3), of pf 0 "upstream_service pf (cl_proxy cl) a sch"]
    by (simp add: build_service_chain_def upstream_service_def [symmetric])
  then show ?thesis using that redis walk excl by blast
qed

end
