(* ===== verification/Cli.thy ===== *)
theory Cli
  imports Config_Emit
begin

text \<open>
  The command line, \<^verbatim>\<open>src/src/main.rs\<close>: the options, how they are laid over a configuration, the health
  endpoint, and how the outcomes of the listeners become the outcome of the program.  Parsing of the
  arguments is \<^verbatim>\<open>clap\<close>'s; reading a configuration file, binding sockets and the tasks of the listeners are
  parameters.  The options of both features, \<^verbatim>\<open>redis\<close> and \<^verbatim>\<open>scripting\<close>, are there.

  Shown here: options only add rules, after those of the file; a count and a window are read back as they
  are printed; credentials given as options are required by every forward listener, whatever else is
  configured, and are dropped when the options make a reverse proxy; the program fails exactly when a
  listener does, with its first error.
\<close>

section \<open>Options\<close>

record cli =
  cli_config :: "string option"
  cli_cert :: string
  cli_key :: string
  cli_port :: nat
  cli_bind :: string
  cli_generate :: bool
  cli_upstream :: "string option"
  cli_tls_cert :: "string option"
  cli_tls_key :: "string option"
  cli_log :: bool
  cli_log_bodies :: bool
  cli_log_redact_headers :: "string option"
  cli_log_reveal_headers :: "string option"
  cli_log_no_redact :: bool
  cli_latency :: "string option"
  cli_bandwidth :: "nat option"
  cli_rate_limits :: "string list"
  cli_per_host_rate_limits :: "string list"
  cli_sliding_windows :: "string list"
  cli_per_host_sliding_windows :: "string list"
  cli_retry :: "nat option"
  cli_retry_max_body :: "nat option"
  cli_retry_max_backoff :: "string option"
  cli_retry_methods :: "string option"
  cli_retry_all_methods :: bool
  cli_circuit_breaker :: "string option"
  cli_pool_max_idle :: "nat option"
  cli_pool_idle_timeout :: "string option"
  cli_connect_timeout :: "string option"
  cli_request_timeout :: "string option"
  cli_set_request_headers :: "string list"
  cli_remove_request_headers :: "string list"
  cli_set_response_headers :: "string list"
  cli_remove_response_headers :: "string list"
  cli_block_hosts :: "string list"
  cli_block_paths :: "string list"
  cli_rewrite_paths :: "string list"
  cli_rewrite_path_regexes :: "string list"
  cli_script :: "string option"
  cli_script_max_body :: "nat option"
  cli_redis_url :: "string option"
  cli_accept_invalid_certs :: bool
  cli_credentials :: "string list"
  cli_log_json :: bool
  cli_health_addr :: "string option"

section \<open>Arguments\<close>

definition map_err :: "(string \<Rightarrow> string) \<Rightarrow> 'a result \<Rightarrow> 'a result" where
  "map_err f r = (case r of Inl (Box_Error e) \<Rightarrow> Inl (Box_Error (f e)) | _ \<Rightarrow> r)"

definition parse_header_arg :: "string \<Rightarrow> (string \<times> string) result" where
  "parse_header_arg s =
     and_then (ok_or (Box_Error (''header must be 'name: value', got '' @ [CHR 0x27] @ s @ [CHR 0x27])) (split_once (CHR '':'') s))
       (\<lambda>(name, value). Inr (trim name, trim value))"

definition parse_count_window :: "string \<Rightarrow> string \<Rightarrow> (nat \<times> string) result" where
  "parse_count_window s kind =
     and_then (ok_or (Box_Error (kind @ '' must be count/window (e.g. 30/1s)'')) (split_once (CHR ''/'') s)) (\<lambda>(count_str, window_str).
     and_then (ok_or (Box_Error (''invalid '' @ kind @ '' count'')) (parse_u64 count_str)) (\<lambda>cnt.
     and_then (map_err (\<lambda>e. ''invalid '' @ kind @ '' window: '' @ e) (parse_duration window_str)) (\<lambda>_.
       Inr (cnt, window_str))))"

definition parse_rate_limit :: "bool \<Rightarrow> string \<Rightarrow> rule_node result" where
  "parse_rate_limit per_host s =
     and_then (parse_count_window s ''rate limit'') (\<lambda>(cnt, window).
       Inr (RN_Rate_Limit \<lparr>rlc_count = cnt, rlc_window = window, rlc_burst = None, rlc_per_host = per_host\<rparr>))"

definition parse_sliding_window :: "bool \<Rightarrow> string \<Rightarrow> rule_node result" where
  "parse_sliding_window per_host s =
     and_then (parse_count_window s ''sliding window'') (\<lambda>(cnt, window).
       Inr (RN_Sliding_Window \<lparr>swc_count = cnt, swc_window = window, swc_per_host = per_host\<rparr>))"

definition parse_circuit_breaker :: "string \<Rightarrow> rule_node result" where
  "parse_circuit_breaker s =
     and_then (ok_or (Box_Error ''circuit breaker must be threshold/recovery (e.g. 5/30s)'') (split_once (CHR ''/'') s))
       (\<lambda>(threshold_str, recovery_str).
     and_then (ok_or (Box_Error ''invalid circuit breaker threshold'') (parse_uint (2 ^ 32 - 1) threshold_str)) (\<lambda>threshold.
     and_then (map_err (\<lambda>e. ''invalid circuit breaker recovery: '' @ e) (parse_duration recovery_str)) (\<lambda>_.
       Inr (RN_Circuit_Breaker \<lparr>cbc_threshold = word_of_nat threshold, cbc_recovery = recovery_str,
              cbc_half_open_probes = None, cbc_per_host = False, cbc_cache_ttl = None\<rparr>))))"

definition parse_credential :: "string \<Rightarrow> (string \<times> string) result" where
  "parse_credential cred = ok_or (Box_Error ''credential must be username:password'') (split_once (CHR '':'') cred)"

definition parse_rewrite :: "string \<Rightarrow> string \<Rightarrow> rewrite_config result" where
  "parse_rewrite msg rw =
     and_then (ok_or (Box_Error (msg @ '', got '' @ [CHR 0x27] @ rw @ [CHR 0x27])) (split_once (CHR ''='') rw))
       (\<lambda>(pattern, replace). Inr \<lparr>rwc_pattern = pattern, rwc_replace = replace\<rparr>)"

section \<open>Options over a configuration\<close>

definition push_rule :: "rule_node \<Rightarrow> proxy_config \<Rightarrow> proxy_config" where
  "push_rule r c = c\<lparr>pc_body := pc_body c @ [r]\<rparr>"

fun push_each :: "('a \<Rightarrow> rule_node result) \<Rightarrow> 'a list \<Rightarrow> proxy_config \<Rightarrow> proxy_config result" where
  "push_each f [] c = Inr c"
| "push_each f (x # xs) c = and_then (f x) (\<lambda>r. push_each f xs (push_rule r c))"

definition push_opt :: "('a \<Rightarrow> rule_node) \<Rightarrow> 'a option \<Rightarrow> proxy_config \<Rightarrow> proxy_config" where
  "push_opt f x c = (case x of Some a \<Rightarrow> push_rule (f a) c | None \<Rightarrow> c)"

definition set_timeout :: "string \<Rightarrow> string option \<Rightarrow> (string \<Rightarrow> proxy_config \<Rightarrow> proxy_config) \<Rightarrow> proxy_config \<Rightarrow> proxy_config result" where
  "set_timeout name t put c =
     (case t of
        Some s \<Rightarrow> and_then (map_err (\<lambda>e. ''invalid '' @ name @ '': '' @ e) (parse_duration s)) (\<lambda>_. Inr (put s c))
      | None \<Rightarrow> Inr c)"

definition cli_settings :: "cli \<Rightarrow> proxy_config \<Rightarrow> proxy_config result" where
  "cli_settings cli c0 =
     (let c1 = (if cli_accept_invalid_certs cli then c0\<lparr>pc_accept_invalid_upstream_certs := True\<rparr> else c0);
          c2 = (case cli_pool_max_idle cli of Some n \<Rightarrow> c1\<lparr>pc_pool_max_idle_per_host := Some n\<rparr> | None \<Rightarrow> c1)
      in and_then (set_timeout ''pool-idle-timeout'' (cli_pool_idle_timeout cli) (\<lambda>s c. c\<lparr>pc_pool_idle_timeout := Some s\<rparr>) c2) (\<lambda>c3.
         and_then (set_timeout ''connect-timeout'' (cli_connect_timeout cli) (\<lambda>s c. c\<lparr>pc_connect_timeout := Some s\<rparr>) c3) (\<lambda>c4.
         and_then (set_timeout ''request-timeout'' (cli_request_timeout cli) (\<lambda>s c. c\<lparr>pc_request_timeout := Some s\<rparr>) c4) (\<lambda>c5.
           Inr (case cli_redis_url cli of
                  Some url \<Rightarrow> c5\<lparr>pc_redis := Some \<lparr>rdc_url = url, rdc_prefix = None\<rparr>\<rparr>
                | None \<Rightarrow> c5)))))"

definition cli_log_rule :: "cli \<Rightarrow> proxy_config \<Rightarrow> proxy_config" where
  "cli_log_rule cli c =
     (if cli_log cli \<or> cli_log_bodies cli \<or> cli_log_no_redact cli \<or> cli_log_redact_headers cli \<noteq> None \<or>
         cli_log_reveal_headers cli \<noteq> None
      then push_rule (RN_Log \<lparr>lgc_bodies = (if cli_log_bodies cli then Some True else None),
             lgc_redact = (if cli_log_no_redact cli then Some False else None),
             lgc_redact_headers = cli_log_redact_headers cli, lgc_reveal_headers = cli_log_reveal_headers cli\<rparr>) c
      else c)"

definition cli_limits :: "cli \<Rightarrow> proxy_config \<Rightarrow> proxy_config result" where
  "cli_limits cli c =
     and_then (push_each (parse_rate_limit False) (cli_rate_limits cli) c) (\<lambda>c1.
     and_then (push_each (parse_rate_limit True) (cli_per_host_rate_limits cli) c1) (\<lambda>c2.
     and_then (push_each (parse_sliding_window False) (cli_sliding_windows cli) c2)
       (push_each (parse_sliding_window True) (cli_per_host_sliding_windows cli))))"

definition cli_retry_rule :: "cli \<Rightarrow> nat \<Rightarrow> rule_node" where
  "cli_retry_rule cli max_retries =
     RN_Retry \<lparr>rtc_max_retries = Some max_retries, rtc_backoff = None, rtc_max_backoff = cli_retry_max_backoff cli,
       rtc_max_replay_body_bytes = cli_retry_max_body cli, rtc_methods = cli_retry_methods cli,
       rtc_all_methods = (if cli_retry_all_methods cli then Some True else None), rtc_statuses = None, rtc_budget = None\<rparr>"

definition header_rule :: "(header_config \<Rightarrow> rule_node) \<Rightarrow> string \<Rightarrow> rule_node result" where
  "header_rule node h = and_then (parse_header_arg h) (\<lambda>(name, value). Inr (node \<lparr>hdc_name = name, hdc_value = value\<rparr>))"

definition cli_headers :: "cli \<Rightarrow> proxy_config \<Rightarrow> proxy_config result" where
  "cli_headers cli c =
     and_then (push_each (header_rule RN_Set_Request_Header) (cli_set_request_headers cli) c) (\<lambda>c1.
     and_then (push_each (\<lambda>n. Inr (RN_Remove_Request_Header n)) (cli_remove_request_headers cli) c1) (\<lambda>c2.
     and_then (push_each (header_rule RN_Set_Response_Header) (cli_set_response_headers cli) c2)
       (push_each (\<lambda>n. Inr (RN_Remove_Response_Header n)) (cli_remove_response_headers cli))))"

definition cli_rewrites :: "cli \<Rightarrow> proxy_config \<Rightarrow> proxy_config result" where
  "cli_rewrites cli c =
     and_then (push_each (\<lambda>rw. and_then (parse_rewrite ''rewrite-path must be pattern=replacement'' rw) (Inr \<circ> RN_Rewrite_Path))
                 (cli_rewrite_paths cli) c)
       (push_each (\<lambda>rw. and_then (parse_rewrite ''rewrite-path-regex must be regex=replacement'' rw) (Inr \<circ> RN_Rewrite_Path_Regex))
          (cli_rewrite_path_regexes cli))"

definition cli_block_rule :: "cli \<Rightarrow> proxy_config \<Rightarrow> proxy_config" where
  "cli_block_rule cli c =
     (if cli_block_hosts cli \<noteq> [] \<or> cli_block_paths cli \<noteq> []
      then push_rule (RN_Block \<lparr>blc_hosts = cli_block_hosts cli, blc_paths = cli_block_paths cli, blc_response = None\<rparr>) c
      else c)"

definition cli_script_rule :: "cli \<Rightarrow> string \<Rightarrow> rule_node" where
  "cli_script_rule cli path = RN_Script_File \<lparr>scc_source = path, scc_shared = False, scc_max_body_bytes = cli_script_max_body cli\<rparr>"

text \<open>All options that are rules, in the order in which they are pushed.\<close>

definition cli_rules :: "cli \<Rightarrow> proxy_config \<Rightarrow> proxy_config result" where
  "cli_rules cli c =
     and_then (cli_limits cli
         (push_opt (\<lambda>bps. RN_Bandwidth \<lparr>bwc_bps = bps\<rparr>) (cli_bandwidth cli)
           (push_opt (\<lambda>v. RN_Latency \<lparr>ltc_value = v\<rparr>) (cli_latency cli) (cli_log_rule cli c)))) (\<lambda>c1.
     and_then (push_each parse_circuit_breaker (case cli_circuit_breaker cli of Some s \<Rightarrow> [s] | None \<Rightarrow> [])
         (push_opt (cli_retry_rule cli) (cli_retry cli) c1)) (\<lambda>c2.
     and_then (cli_headers cli c2) (\<lambda>c3.
     and_then (cli_rewrites cli c3) (\<lambda>c4.
       Inr (push_opt (cli_script_rule cli) (cli_script cli) (cli_block_rule cli c4))))))"

definition cli_listener :: "cli \<Rightarrow> (string \<times> string) list \<Rightarrow> proxy_config \<Rightarrow> proxy_config" where
  "cli_listener cli creds c =
     (if pc_forwards c = [] \<and> pc_reverses c = [] then
        (case cli_upstream cli of
           Some upstream \<Rightarrow>
             c\<lparr>pc_reverses :=
                 [\<lparr>rv_port = cli_port cli, rv_bind = Some (cli_bind cli), rv_upstream = upstream,
                   rv_tls = (case (cli_tls_cert cli, cli_tls_key cli) of (Some cert, Some key) \<Rightarrow> Some (cert, key) | _ \<Rightarrow> None),
                   rv_redis = None, rv_body = []\<rparr>]\<rparr>
         | None \<Rightarrow>
             c\<lparr>pc_forwards :=
                 [\<lparr>fl_port = cli_port cli, fl_bind = Some (cli_bind cli), fl_ca = (cli_cert cli, cli_key cli),
                   fl_tls = None, fl_credentials = creds, fl_redis = None, fl_body = []\<rparr>]\<rparr>)
      else if creds \<noteq> [] then
        c\<lparr>pc_forwards := map (\<lambda>fwd. fwd\<lparr>fl_credentials := fl_credentials fwd @ creds\<rparr>) (pc_forwards c)\<rparr>
      else c)"

definition apply_cli :: "cli \<Rightarrow> proxy_config \<Rightarrow> proxy_config result" where
  "apply_cli cli c =
     and_then (cli_settings cli c) (\<lambda>c1.
     and_then (collect_results parse_credential (cli_credentials cli)) (\<lambda>creds.
     and_then (cli_rules cli c1) (\<lambda>c2.
     let c3 = cli_listener cli creds c2
     in Inr (case cli_health_addr cli of Some addr \<Rightarrow> c3\<lparr>pc_health_addr := Some addr\<rparr> | None \<Rightarrow> c3))))"

section \<open>The health endpoint\<close>

definition health_response :: "request \<Rightarrow> response" where
  "health_response req =
     (let (status, body) =
        (if req_method req = ''GET'' \<and> uri_path (req_uri req) \<in> set [''/healthz'', ''/health''] then (200, ''ok'' @ [CHR 0x0A])
         else if req_method req = ''GET'' \<and> uri_path (req_uri req) \<in> set [''/readyz'', ''/ready''] then (200, ''ready'' @ [CHR 0x0A])
         else (404, ''not found'' @ [CHR 0x0A]))
      in (response_with status (full_body body))\<lparr>resp_headers := [(''content-type'', Visible ''text/plain'')]\<rparr>)"

text \<open>What the select of the accept loop sees next: a connection, a failed accept, or the shutdown channel.
  The result is the connections a task was spawned for and whether the loop has ended.\<close>

datatype 'c health_event = Health_Accepted 'c | Health_Accept_Failed | Health_Shutdown

fun serve_health :: "'c health_event list \<Rightarrow> 'c list \<times> bool" where
  "serve_health [] = ([], False)"
| "serve_health (Health_Accepted c # es) = (case serve_health es of (cs, ended) \<Rightarrow> (c # cs, ended))"
| "serve_health (Health_Accept_Failed # es) = serve_health es"
| "serve_health (Health_Shutdown # es) = ([], True)"

section \<open>Running the listeners\<close>

text \<open>What \<open>join_next\<close> gives for a listener: its address and outcome, or that its task panicked.  The state of
  the loop is \<open>first_err\<close> and how often the shutdown channel was sent to.\<close>

datatype joined = Joined string "unit result" | Join_Error string

definition join_step :: "joined \<Rightarrow> rust_error option \<times> nat \<Rightarrow> rust_error option \<times> nat" where
  "join_step j = (\<lambda>(first_err, sent).
     case j of
       Joined addr (Inr _) \<Rightarrow> (first_err, sent)
     | Joined addr (Inl e) \<Rightarrow> (if first_err = None then Some e else first_err, Suc sent)
     | Join_Error msg \<Rightarrow>
         (if first_err = None then Some (Box_Error (''listener task panicked: '' @ msg)) else first_err, Suc sent))"

definition join_all :: "joined list \<Rightarrow> rust_error option \<times> nat" where
  "join_all js = fold join_step js (None, 0)"

definition start_health :: "(string \<Rightarrow> 'a option) \<Rightarrow> ('a \<Rightarrow> unit result) \<Rightarrow> string option \<Rightarrow> unit result" where
  "start_health parse_addr bind_addr health_addr =
     (case health_addr of
        Some addr \<Rightarrow>
          and_then (ok_or (Box_Error (''invalid health-addr '' @ addr)) (parse_addr addr)) (\<lambda>a.
            map_err (\<lambda>e. ''failed to bind health-addr '' @ addr @ '': '' @ e) (bind_addr a))
      | None \<Rightarrow> Inr ())"

definition apply_cli_and_run ::
  "'w compile_params \<Rightarrow> (string \<Rightarrow> 'a option) \<Rightarrow> ('a \<Rightarrow> unit result) \<Rightarrow> ('w compiled_listener list \<Rightarrow> joined list) \<Rightarrow>
   cli \<Rightarrow> proxy_config \<Rightarrow> unit result"
where
  "apply_cli_and_run cp parse_addr bind_addr run_listeners cli config =
     and_then (apply_cli cli config) (\<lambda>c.
     and_then (into_listeners cp c) (\<lambda>listeners.
     and_then (start_health parse_addr bind_addr (pc_health_addr c)) (\<lambda>_.
       (case fst (join_all (run_listeners listeners)) of Some e \<Rightarrow> Inl e | None \<Rightarrow> Inr ()))))"

definition proxy_config_default :: proxy_config where
  "proxy_config_default =
     \<lparr>pc_accept_invalid_upstream_certs = False, pc_handshake_timeout = None, pc_idle_timeout = None,
      pc_health_addr = None, pc_connect_timeout = None, pc_request_timeout = None, pc_max_connections = None,
      pc_drain_timeout = None, pc_pool_max_idle_per_host = None, pc_pool_idle_timeout = None, pc_redis = None,
      pc_forwards = [], pc_reverses = [], pc_body = []\<rparr>"

text \<open>\<open>parse\<close> is the KDL parser.  \<open>generate\<close> makes a certificate authority and writes it to the two files.\<close>

definition from_kdl_file ::
  "(string \<Rightarrow> string result) \<Rightarrow> (string \<Rightarrow> string \<Rightarrow> proxy_config result) \<Rightarrow> string \<Rightarrow> proxy_config result"
where
  "from_kdl_file read_file parse path =
     and_then (map_err (\<lambda>e. ''failed to read '' @ path @ '': '' @ e) (read_file path)) (parse path)"

definition main_run ::
  "(string \<Rightarrow> string \<Rightarrow> unit result) \<Rightarrow> (string \<Rightarrow> string result) \<Rightarrow> (string \<Rightarrow> string \<Rightarrow> proxy_config result) \<Rightarrow>
   (cli \<Rightarrow> proxy_config \<Rightarrow> unit result) \<Rightarrow> cli \<Rightarrow> unit result"
where
  "main_run generate read_file parse run cli =
     (if cli_generate cli then generate (cli_cert cli) (cli_key cli)
      else and_then (case cli_config cli of
                       Some path \<Rightarrow> from_kdl_file read_file parse path
                     | None \<Rightarrow> Inr proxy_config_default) (run cli))"

text \<open>When the shutdown signal comes: \<open>sigterm\<close> is \<open>Inl\<close> when its handler could not be installed; \<open>None\<close> is a
  signal that never comes.\<close>

definition os_shutdown_signal :: "bool \<Rightarrow> unit + duration option \<Rightarrow> duration option \<Rightarrow> duration option" where
  "os_shutdown_signal unix sigterm ctrl_c =
     (if unix then
        (case sigterm of
           Inr term \<Rightarrow>
             (case (ctrl_c, term) of
                (Some c, Some t) \<Rightarrow> Some (min c t)
              | (Some c, None) \<Rightarrow> Some c
              | (None, t) \<Rightarrow> t)
         | Inl _ \<Rightarrow> ctrl_c)
      else ctrl_c)"

section \<open>Lemmas\<close>

text \<open>Options add rules after those of the file and change nothing else of it.\<close>

definition adds_rules :: "proxy_config \<Rightarrow> proxy_config \<Rightarrow> bool" where
  "adds_rules c c' \<longleftrightarrow> (\<exists>rs. c' = c\<lparr>pc_body := pc_body c @ rs\<rparr> \<and> list_all is_leaf rs)"

definition gives_leaves :: "('a \<Rightarrow> rule_node result) \<Rightarrow> bool" where
  "gives_leaves f \<longleftrightarrow> (\<forall>x r. f x = Inr r \<longrightarrow> is_leaf r)"

lemma adds_rules_refl [simp]: "adds_rules c c"
  by (auto simp: adds_rules_def intro: exI [of _ "[]"])

lemma adds_rules_trans [trans]: "adds_rules a b \<Longrightarrow> adds_rules b c \<Longrightarrow> adds_rules a c"
  unfolding adds_rules_def by (elim exE conjE, rule_tac x = "rs @ rsa" in exI) simp

lemma adds_rules_push [simp]: "is_leaf r \<Longrightarrow> adds_rules c (push_rule r c)"
  by (auto simp: adds_rules_def push_rule_def)

lemma adds_rules_opt [simp]: "(\<And>a. is_leaf (f a)) \<Longrightarrow> adds_rules c (push_opt f x c)"
  by (simp add: push_opt_def split: option.split)

lemma adds_rules_each: "gives_leaves f \<Longrightarrow> push_each f xs c = Inr c' \<Longrightarrow> adds_rules c c'"
proof (induction xs arbitrary: c)
  case (Cons x xs)
  then obtain r where r: "f x = Inr r" "push_each f xs (push_rule r c) = Inr c'"
    by (auto simp: and_then_Inr_iff)
  then show ?case
    using Cons.IH [OF Cons.prems(1) r(2)] Cons.prems(1) adds_rules_trans [OF adds_rules_push]
    unfolding gives_leaves_def by blast
qed simp

lemma gives_leaves_arguments:
  "gives_leaves (parse_rate_limit p)" "gives_leaves (parse_sliding_window p)" "gives_leaves parse_circuit_breaker"
  "gives_leaves (header_rule RN_Set_Request_Header)" "gives_leaves (header_rule RN_Set_Response_Header)"
  "gives_leaves (\<lambda>n. Inr (RN_Remove_Request_Header n))" "gives_leaves (\<lambda>n. Inr (RN_Remove_Response_Header n))"
  "gives_leaves (\<lambda>rw. and_then (parse_rewrite msg rw) (Inr \<circ> RN_Rewrite_Path))"
  "gives_leaves (\<lambda>rw. and_then (parse_rewrite msg rw) (Inr \<circ> RN_Rewrite_Path_Regex))"
  by (auto simp: gives_leaves_def parse_rate_limit_def parse_sliding_window_def parse_circuit_breaker_def
      header_rule_def and_then_Inr_iff)

lemmas adds_rules_argument = gives_leaves_arguments [THEN adds_rules_each]

lemma cli_parts_add:
  "cli_limits cli c = Inr c' \<Longrightarrow> adds_rules c c'" "cli_headers cli c = Inr c' \<Longrightarrow> adds_rules c c'"
  "cli_rewrites cli c = Inr c' \<Longrightarrow> adds_rules c c'" "adds_rules c (cli_log_rule cli c)"
  "adds_rules c (cli_block_rule cli c)"
  by (auto simp: cli_limits_def cli_headers_def cli_rewrites_def cli_log_rule_def cli_block_rule_def and_then_Inr_iff
      dest!: adds_rules_argument intro: adds_rules_trans)

lemma cli_rules_add:
  assumes "cli_rules cli c = Inr c'"
  shows "adds_rules c c'"
proof -
  obtain c1 c2 c3 c4 where
      1: "cli_limits cli
         (push_opt (\<lambda>bps. RN_Bandwidth \<lparr>bwc_bps = bps\<rparr>) (cli_bandwidth cli)
           (push_opt (\<lambda>v. RN_Latency \<lparr>ltc_value = v\<rparr>) (cli_latency cli) (cli_log_rule cli c))) = Inr c1"
      and 2: "push_each parse_circuit_breaker (case cli_circuit_breaker cli of Some s \<Rightarrow> [s] | None \<Rightarrow> [])
         (push_opt (cli_retry_rule cli) (cli_retry cli) c1) = Inr c2"
      and 3: "cli_headers cli c2 = Inr c3" and 4: "cli_rewrites cli c3 = Inr c4"
      and 5: "c' = push_opt (cli_script_rule cli) (cli_script cli) (cli_block_rule cli c4)"
    using assms by (auto simp: cli_rules_def and_then_Inr_iff)
  have "adds_rules c (cli_log_rule cli c)" by (rule cli_parts_add)
  also have "adds_rules \<dots> (push_opt (\<lambda>v. RN_Latency \<lparr>ltc_value = v\<rparr>) (cli_latency cli) \<dots>)" by simp
  also have "adds_rules \<dots> (push_opt (\<lambda>bps. RN_Bandwidth \<lparr>bwc_bps = bps\<rparr>) (cli_bandwidth cli) \<dots>)" by simp
  also have "adds_rules \<dots> c1" using 1 by (rule cli_parts_add)
  also have "adds_rules c1 (push_opt (cli_retry_rule cli) (cli_retry cli) c1)" by (simp add: cli_retry_rule_def)
  also have "adds_rules \<dots> c2" using 2 by (rule adds_rules_argument)
  also have "adds_rules c2 c3" using 3 by (rule cli_parts_add)
  also have "adds_rules c3 c4" using 4 by (rule cli_parts_add)
  also have "adds_rules c4 (cli_block_rule cli c4)" by (rule cli_parts_add)
  also have "adds_rules \<dots> c'" by (simp add: 5 cli_script_rule_def)
  finally show ?thesis .
qed

lemma cli_settings_keeps:
  assumes "cli_settings cli c = Inr c'"
  shows "pc_body c' = pc_body c" "pc_forwards c' = pc_forwards c" "pc_reverses c' = pc_reverses c"
  using assms
  by (auto simp: cli_settings_def set_timeout_def Let_def and_then_Inr_iff split: option.splits if_splits)

lemma apply_cli_parts:
  assumes "apply_cli cli c = Inr c'"
  obtains creds c2 where "collect_results parse_credential (cli_credentials cli) = Inr creds"
    "pc_forwards c2 = pc_forwards c" "pc_reverses c2 = pc_reverses c"
    "\<exists>rs. pc_body c2 = pc_body c @ rs \<and> list_all is_leaf rs"
    "pc_forwards c' = pc_forwards (cli_listener cli creds c2)" "pc_reverses c' = pc_reverses (cli_listener cli creds c2)"
    "pc_body c' = pc_body c2"
proof -
  obtain c1 creds c2 where *: "cli_settings cli c = Inr c1"
      "collect_results parse_credential (cli_credentials cli) = Inr creds" "cli_rules cli c1 = Inr c2"
      "c' = (case cli_health_addr cli of Some addr \<Rightarrow> (cli_listener cli creds c2)\<lparr>pc_health_addr := Some addr\<rparr>
             | None \<Rightarrow> cli_listener cli creds c2)"
    using assms by (auto simp: apply_cli_def and_then_Inr_iff Let_def)
  have "pc_body (cli_listener cli creds c2) = pc_body c2"
    by (simp add: cli_listener_def split: option.split)
  then show ?thesis
    using that [OF *(2), of c2] cli_settings_keeps [OF *(1)] cli_rules_add [OF *(3)] *(4)
    by (auto simp: adds_rules_def split: option.splits)
qed

text \<open>Every rule given as an option is a global rule behind those of the file.\<close>

lemma apply_cli_body:
  "apply_cli cli c = Inr c' \<Longrightarrow> \<exists>rs. pc_body c' = pc_body c @ rs \<and> list_all is_leaf rs"
  by (erule apply_cli_parts) simp

text \<open>After the options there is at least one listener.\<close>

lemma apply_cli_has_listener:
  assumes "apply_cli cli c = Inr c'"
  shows "pc_forwards c' \<noteq> [] \<or> pc_reverses c' \<noteq> []"
  using assms by (rule apply_cli_parts) (auto simp: cli_listener_def split: option.splits if_splits)

text \<open>Every forward listener has the credentials of the options; a reverse proxy made from options has none.\<close>

lemma parse_credential_iff: "parse_credential t = Inr (u, p) \<longleftrightarrow> t = u @ '':'' @ p \<and> CHR '':'' \<notin> set u"
  using split_once_Some [of "CHR '':''" t u p] by (cases "split_once (CHR '':'') t") (auto simp: parse_credential_def)

lemma apply_cli_credentials:
  assumes "apply_cli cli c = Inr c'" "t \<in> set (cli_credentials cli)"
  shows "\<exists>u p. t = u @ '':'' @ p \<and> CHR '':'' \<notin> set u \<and> (\<forall>fwd \<in> set (pc_forwards c'). (u, p) \<in> set (fl_credentials fwd))"
  using assms(1)
proof (rule apply_cli_parts)
  fix creds c2
  assume *: "collect_results parse_credential (cli_credentials cli) = Inr creds"
    "pc_forwards c' = pc_forwards (cli_listener cli creds c2)"
  obtain u p where "(u, p) \<in> set creds" "parse_credential t = Inr (u, p)"
    using *(1) assms(2) unfolding collect_results_Inr
    by (auto simp: list_all2_conv_all_nth in_set_conv_nth) (metis surj_pair)
  moreover have "\<forall>fwd \<in> set (pc_forwards c'). set creds \<subseteq> set (fl_credentials fwd)"
    unfolding *(2) by (auto simp: cli_listener_def split: option.split)
  ultimately show ?thesis unfolding parse_credential_iff by blast
qed

lemma cli_reverse_drops_credentials:
  assumes "pc_forwards c = []" "pc_reverses c = []" "cli_upstream cli = Some u"
  shows "cli_listener cli creds c = cli_listener cli [] c"
  using assms by (simp add: cli_listener_def)

lemma forward_listener_of:
  assumes "into_listeners cp c = Inr ls" "l \<in> set ls" "px_mode (cl_proxy l) = Forward ca credentials tls"
  shows "\<exists>fwd \<in> set (pc_forwards c). credentials = (if fl_credentials fwd = [] then None else Some (fl_credentials fwd))"
  using assms(1)
proof (rule into_listeners_modes)
  fix fs rs
  assume "ls = fs @ rs"
    and f: "list_all2 (\<lambda>fwd l. \<exists>ca tls. px_mode (cl_proxy l) =
       Forward ca (if fl_credentials fwd = [] then None else Some (fl_credentials fwd)) tls) (pc_forwards c) fs"
    and r: "list_all2 (\<lambda>rv l. \<exists>a sch tls. px_mode (cl_proxy l) = Reverse a sch tls) (pc_reverses c) rs"
  moreover have "l \<notin> set rs" using r assms(3) by (auto simp: list_all2_conv_all_nth in_set_conv_nth)
  ultimately obtain i where "i < length fs" "l = fs ! i" using assms(2) by (auto simp: in_set_conv_nth)
  then show ?thesis using f assms(3)
    by (intro bexI [of _ "pc_forwards c ! i"]) (auto simp: list_all2_conv_all_nth)
qed

text \<open>A client presents a credential when its first request carries one in the \<^verbatim>\<open>Proxy-Authorization\<close> header.\<close>

definition presents_credential :: "(string \<Rightarrow> string option) \<Rightarrow> (string \<times> string) list \<Rightarrow> request list \<Rightarrow> bool" where
  "presents_credential decode creds reqs \<longleftrightarrow>
     (\<exists>req rest b64 user pass. reqs = req # rest \<and>
        hdr_get (req_headers req) ''proxy-authorization'' = Some (Visible (''Basic '' @ b64)) \<and>
        decode b64 = Some (user @ '':'' @ pass) \<and> (user, pass) \<in> set creds)"

lemma handshake_presents:
  assumes "\<And>a b. ct_eq a b \<longleftrightarrow> a = b" "\<not> presents_credential decode creds reqs"
  obtains e where "handshake ct_eq decode upgrade served tls_accept parse_authority (Some creds) reqs = Inl e"
proof (cases "handshake ct_eq decode upgrade served tls_accept parse_authority (Some creds) reqs")
  case (Inr target)
  then obtain a where "snd (connect_serve ct_eq decode upgrade (Some creds) True reqs) = Some (Inr a)"
    by (auto simp: handshake_def and_then_Inr_iff ok_or_def split: option.splits)
  then obtain req rest where "reqs = req # rest" "connect_authenticated ct_eq decode creds req"
    using connect_serve_received connect_handle_Upgrade by blast
  then have "presents_credential decode creds reqs"
    unfolding presents_credential_def connect_authenticated_iff [OF assms(1)] by blast
  with assms(2) show ?thesis by blast
qed (rule that)

lemma timed_bind_refused:
  "timed_bind (with_handshake_timeout t (map_option (\<lambda>d. (d, Inl e)) took)) serve =
   timed_bind (with_handshake_timeout t (map_option (\<lambda>d. (d, Inl e)) took)) serve'"
  by (cases t; cases took) (simp_all add: with_handshake_timeout_def timed_bind_def)

text \<open>A connection is never served when its outcome does not depend on the service.\<close>

definition never_served ::
  "'w proxy \<Rightarrow> unit timed \<Rightarrow> ((string \<times> string) list option \<Rightarrow> authority timed) \<Rightarrow> bool"
where
  "never_served px accept h \<longleftrightarrow>
     (\<forall>serve serve'. handle_connection_inner px accept h serve = handle_connection_inner px accept h serve')"

lemma connection_refused:
  assumes "px_mode px = Forward ca credentials tls" "h credentials = map_option (\<lambda>d. (d, Inl e)) took"
  shows "never_served px accept h"
  unfolding never_served_def
proof (intro allI)
  fix serve serve'
  show "handle_connection_inner px accept h serve = handle_connection_inner px accept h serve'"
    using timed_bind_refused [of "px_handshake_timeout px" e took "\<lambda>a. serve (a, ''https'')" "\<lambda>a. serve' (a, ''https'')"]
    by (simp add: assms handle_connection_inner_def handle_forward_connection_def split: option.split)
qed

text \<open>A count and a window are read back as they are printed.\<close>

lemma parse_count_window_show:
  assumes "n < 2 ^ 64" "parse_duration window = Inr d"
  shows "parse_count_window (show_nat n @ ''/'' @ window) kind = Inr (n, window)"
proof -
  have "CHR ''/'' \<notin> set (show_nat n)" by (rule not_digit) (simp add: digit_value_def)
  then have "split_once (CHR ''/'') (show_nat n @ ''/'' @ window) = Some (show_nat n, window)"
    by (simp add: split_once_Some)
  then show ?thesis using assms by (simp add: parse_count_window_def parse_uint_show_nat map_err_def)
qed

text \<open>The program fails exactly when a listener fails, with the error of the first that did; every failure
  tells the others to shut down.\<close>

fun joined_error :: "joined \<Rightarrow> rust_error option" where
  "joined_error (Joined addr (Inl e)) = Some e"
| "joined_error (Joined addr (Inr _)) = None"
| "joined_error (Join_Error msg) = Some (Box_Error (''listener task panicked: '' @ msg))"

lemma join_step_error:
  "join_step j (err, sent) =
     (case err of None \<Rightarrow> joined_error j | Some e \<Rightarrow> Some e, if joined_error j = None then sent else Suc sent)"
  by (cases j rule: joined_error.cases) (auto simp: join_step_def split: option.split)

lemma join_all_result:
  "fst (join_all js) = (case List.map_filter joined_error js of [] \<Rightarrow> None | e # _ \<Rightarrow> Some e)"
  "snd (join_all js) = length (List.map_filter joined_error js)"
proof -
  have "fold join_step js (err, sent) =
      (case err of None \<Rightarrow> (case List.map_filter joined_error js of [] \<Rightarrow> None | e # _ \<Rightarrow> Some e) | Some e \<Rightarrow> Some e,
       sent + length (List.map_filter joined_error js))" for err sent
    by (induction js arbitrary: err sent) (auto simp: join_step_error map_filter_simps split: option.split)
  then show "fst (join_all js) = (case List.map_filter joined_error js of [] \<Rightarrow> None | e # _ \<Rightarrow> Some e)"
    "snd (join_all js) = length (List.map_filter joined_error js)" by (simp_all add: join_all_def)
qed

text \<open>On Unix either signal suffices.\<close>

lemma os_shutdown_signal_either:
  "os_shutdown_signal True (Inr term) ctrl_c = None \<longleftrightarrow> term = None \<and> ctrl_c = None"
  by (auto simp: os_shutdown_signal_def split: option.splits)

text \<open>The health endpoint says 200 only to a GET of one of its four paths, and accepts nothing after shutdown.\<close>

lemma health_ok_iff:
  "resp_status (health_response req) = 200 \<longleftrightarrow>
     req_method req = ''GET'' \<and> uri_path (req_uri req) \<in> {''/healthz'', ''/health'', ''/readyz'', ''/ready''}"
  by (auto simp: health_response_def Let_def response_with_def)

lemma serve_health_shutdown:
  "Health_Shutdown \<notin> set es \<Longrightarrow>
     serve_health (es @ Health_Shutdown # later) = (fst (serve_health es), True) \<and> \<not> snd (serve_health es)"
  by (induction es rule: serve_health.induct) (auto split: prod.splits)

section \<open>Properties\<close>

text \<open>C2. With credentials on the command line, every forward listener the program runs, whatever the
  configuration file says, requires a credential, and accepts those of the command line.  A connection that
  presents none of the accepted ones never reaches the service chain: its outcome is the same for every
  service.\<close>

theorem cli_credentials_enforced:
  assumes "\<And>a b. ct_eq a b \<longleftrightarrow> a = b"
    and "apply_cli cli cfg = Inr cfg'" "into_listeners cp cfg' = Inr ls" "cli_credentials cli \<noteq> []"
    and "l \<in> set ls" "px_mode (cl_proxy l) = Forward ca credentials tls"
  shows "\<exists>creds. credentials = Some creds \<and>
     (\<forall>t \<in> set (cli_credentials cli). \<exists>u p. t = u @ '':'' @ p \<and> CHR '':'' \<notin> set u \<and> (u, p) \<in> set creds) \<and>
     (\<forall>decode reqs took accept upgrade served tls_accept parse_authority.
        \<not> presents_credential decode creds reqs \<longrightarrow>
        never_served (cl_proxy l) accept
          (\<lambda>c. map_option (\<lambda>d. (d, handshake ct_eq decode upgrade served tls_accept parse_authority c reqs)) took))"
proof -
  obtain fwd where fwd: "fwd \<in> set (pc_forwards cfg')"
      "credentials = (if fl_credentials fwd = [] then None else Some (fl_credentials fwd))"
    using forward_listener_of [OF assms(3,5,6)] by blast
  have given: "\<exists>u p. t = u @ '':'' @ p \<and> CHR '':'' \<notin> set u \<and> (u, p) \<in> set (fl_credentials fwd)"
    if "t \<in> set (cli_credentials cli)" for t
    using apply_cli_credentials [OF assms(2) that] fwd(1) by blast
  obtain t where "t \<in> set (cli_credentials cli)" using assms(4) by (meson list.set_sel(1))
  from given [OF this] have creds: "credentials = Some (fl_credentials fwd)" using fwd(2) by auto
  have "never_served (cl_proxy l) accept
          (\<lambda>c. map_option (\<lambda>d. (d, handshake ct_eq decode upgrade served tls_accept parse_authority c reqs)) took)"
    if none: "\<not> presents_credential decode (fl_credentials fwd) reqs"
    for decode reqs took accept upgrade served tls_accept parse_authority
  proof -
    obtain e where "handshake ct_eq decode upgrade served tls_accept parse_authority (Some (fl_credentials fwd)) reqs = Inl e"
      by (rule handshake_presents [OF assms(1) none])
    then show ?thesis by (intro connection_refused [OF assms(6), of _ e took]) (simp add: creds)
  qed
  with creds given show ?thesis by (intro exI [of _ "fl_credentials fwd"] conjI ballI allI impI) simp_all
qed

lemma no_request_presents: "\<not> presents_credential decode creds []"
  by (simp add: presents_credential_def)

definition cli_example :: cli where
  "cli_example =
     \<lparr>cli_config = None, cli_cert = ''ca-cert.pem'', cli_key = ''ca-key.pem'', cli_port = 8080, cli_bind = ''127.0.0.1'',
      cli_generate = False, cli_upstream = None, cli_tls_cert = None, cli_tls_key = None, cli_log = False,
      cli_log_bodies = False, cli_log_redact_headers = None, cli_log_reveal_headers = None, cli_log_no_redact = False,
      cli_latency = None, cli_bandwidth = None, cli_rate_limits = [], cli_per_host_rate_limits = [],
      cli_sliding_windows = [], cli_per_host_sliding_windows = [], cli_retry = None, cli_retry_max_body = None,
      cli_retry_max_backoff = None, cli_retry_methods = None, cli_retry_all_methods = False, cli_circuit_breaker = None,
      cli_pool_max_idle = None, cli_pool_idle_timeout = None, cli_connect_timeout = None, cli_request_timeout = None,
      cli_set_request_headers = [], cli_remove_request_headers = [], cli_set_response_headers = [],
      cli_remove_response_headers = [], cli_block_hosts = [], cli_block_paths = [], cli_rewrite_paths = [],
      cli_rewrite_path_regexes = [], cli_script = None, cli_script_max_body = None, cli_redis_url = None,
      cli_accept_invalid_certs = False, cli_credentials = [''me:secret''], cli_log_json = False, cli_health_addr = None\<rparr>"

definition cli_example_config :: proxy_config where
  "cli_example_config = proxy_config_default\<lparr>pc_forwards :=
     [\<lparr>fl_port = 8080, fl_bind = Some ''127.0.0.1'', fl_ca = (''ca-cert.pem'', ''ca-key.pem''), fl_tls = None,
       fl_credentials = [(''me'', ''secret'')], fl_redis = None, fl_body = []\<rparr>]\<rparr>"

lemma cli_example_applied: "apply_cli cli_example proxy_config_default = Inr cli_example_config"
  by (simp add: apply_cli_def cli_settings_def set_timeout_def cli_rules_def cli_log_rule_def cli_limits_def cli_headers_def
      cli_rewrites_def cli_block_rule_def push_opt_def cli_listener_def parse_credential_def cli_example_def
      cli_example_config_def proxy_config_default_def)

lemma cli_example_listeners:
  assumes "cp = cp0\<lparr>cp_from_pem_files := \<lambda>c k. Inr (c, k)\<rparr>"
  shows "\<exists>l ca. into_listeners cp cli_example_config = Inr [l] \<and> px_mode (cl_proxy l) = Forward ca (Some [(''me'', ''secret'')]) None"
  by (simp add: assms into_listeners_def cli_example_config_def proxy_config_default_def validate_min_scope_global_def
      compile_forward_def listener_initial_redis_def walk_listener_body_def resolve_exclusions_def apply_process_settings_def
      process_settings_of_def opt_duration_def opt_set_def pb_set_ca_pem_files_def proxy_build_def pb_new_def
      pb_credential_def)

definition cli_example_handshake :: "(string \<times> string) list option \<Rightarrow> authority timed" where
  "cli_example_handshake c = map_option (\<lambda>d. (d, handshake (=) (\<lambda>_. None) (Inr ()) (Inr ()) (Inr ()) (\<lambda>_. None) c [])) (Some 5)"

theorem cli_credentials_enforced_witness:
  "\<forall>cp0 :: unit compile_params. \<exists>l ca. into_listeners (cp0\<lparr>cp_from_pem_files := \<lambda>c k. Inr (c, k)\<rparr>) cli_example_config = Inr [l] \<and>
     px_mode (cl_proxy l) = Forward ca (Some [(''me'', ''secret'')]) None \<and>
     never_served (cl_proxy l) None cli_example_handshake"
proof
  fix cp0 :: "unit compile_params"
  obtain l ca where l: "into_listeners (cp0\<lparr>cp_from_pem_files := \<lambda>c k. Inr (c, k)\<rparr>) cli_example_config = Inr [l]"
      "px_mode (cl_proxy l) = Forward ca (Some [(''me'', ''secret'')]) None"
    using cli_example_listeners [OF refl] by blast
  have "cli_credentials cli_example \<noteq> []" "l \<in> set [l]" by (simp_all add: cli_example_def)
  from cli_credentials_enforced [of "(=)", OF refl cli_example_applied l(1) this l(2)]
  have "never_served (cl_proxy l) None cli_example_handshake"
    using no_request_presents unfolding cli_example_handshake_def by blast
  with l show "\<exists>l ca. into_listeners (cp0\<lparr>cp_from_pem_files := \<lambda>c k. Inr (c, k)\<rparr>) cli_example_config = Inr [l] \<and>
     px_mode (cl_proxy l) = Forward ca (Some [(''me'', ''secret'')]) None \<and>
     never_served (cl_proxy l) None cli_example_handshake" by blast
qed

end
