(* ===== verification/Spec2Isabelle.thy ===== *)
theory Spec2Isabelle
  imports World Cli
begin

text \<open>
  A verification of noxy, a forward and reverse HTTP proxy with a stack of tower middleware, a configuration
  file in KDL and a command line.  Paths below are relative to \<^verbatim>\<open>src/src\<close>.

  \<^bold>\<open>The program\<close>

  \<^verbatim>\<open>main.rs\<close> reads options and possibly a configuration file, lays the options over the file, and compiles
  the result to listeners (\<^verbatim>\<open>config.rs\<close>).  A listener is a \<^verbatim>\<open>Proxy\<close> (\<^verbatim>\<open>lib.rs\<close>) made by a builder that holds
  a list of layers.  Its accept loop takes connections within a limit, and drains them on shutdown.  A
  connection of a forward listener starts with a CONNECT handshake, which checks credentials.  Requests then
  run through the layers, the first one added being the outermost, down to \<^verbatim>\<open>ForwardService\<close> (\<^verbatim>\<open>http.rs\<close>),
  which strips hop-by-hop headers and sends the request upstream.  A response 101 turns the connection into a
  tunnel with an idle watchdog.  The layers are the files of \<^verbatim>\<open>middleware/\<close>; the two limiters and the circuit
  breaker keep per-key state in memory or in Redis, by Lua scripts.

  \<^bold>\<open>How the code is represented\<close>

  \<^item> Errors and panics are values of \<open>rust_error\<close>; a panic under a lock poisons the mutex.
  \<^item> A service maps a request and a world to a future and a world; running the future is the \<^verbatim>\<open>await\<close>.  State
    behind an \<^verbatim>\<open>Arc<Mutex<_>>\<close> is a cell of the world, so sharing between clones is visible.
  \<^item> Every reading of the clock is its own argument or comes from \<open>env_now\<close>.  Durations and instants are
    numbers of nanoseconds.
  \<^item> Counters keep their width: \<^verbatim>\<open>u32\<close> and \<^verbatim>\<open>u64\<close> counters of the breaker, the router and the tunnel are words.
    \<^verbatim>\<open>f64\<close> values are exact reals.
  \<^item> Third-party code is a parameter: the parsers of the \<^verbatim>\<open>http\<close> crate, globs, regular expressions, base64, TLS,
    the HTTP client, the Redis server, decompressors, timers, randomness, the TypeScript transpiler and the
    JavaScript engine.  The record \<open>platform\<close> of theory \<open>Proxy\<close> collects those the layers reach.

  \<^bold>\<open>Theories\<close>

  Foundations.
  \<^item> \<open>Noxy_Prelude\<close>: errors, mutexes, durations, hash maps.  \<open>Rust_Text\<close>: printing, splitting and replacing text,
    UTF-8.  \<open>Http_Service\<close>: messages, services, cells and the locales \<open>shared_cell\<close>, \<open>shared_mutex\<close> and
    \<open>separate_cells\<close>.
  \<^item> \<open>Keyed_Store\<close>: the locales \<open>keyed_store\<close>, \<open>aged_store\<close> and \<open>keyed_machine\<close>, the contract of the three
    in-memory stores: clean-up and eviction keep active keys, the number of keys is softly bounded, and a store
    is a family of independent machines, one per key.  The stores interpret it in their own theories.
  \<^item> \<open>Redis_Link\<close>: \<^verbatim>\<open>redis.rs\<close>.
  \<^item> \<open>World\<close>: one concrete world with a cell for every piece of shared state; it interprets the cell locales,
    so what they give holds for a running proxy.

  Middleware, one theory per file, with the data, builder, layer and service of the file.
  \<^item> \<open>Rate_Limiter\<close>: releases conform to \<open>burst + rate * time\<close> under any interleaving of keys (C4); dropping a
    bucket cannot be observed unless it is in debt (C17, C31); a count of zero (C32); the Lua script (C15).
  \<^item> \<open>Sliding_Window\<close>: the cap holds for requests admitted at once (C8) and not for delayed ones (C33); totality
    (C21); the Lua script (C16).
  \<^item> \<open>Circuit_Breaker\<close>: reachable states (C18), opening (C5), no early dropping (C34), probes (C35), the Lua
    scripts (C14) and the local cache (C36).
  \<^item> \<open>Retry\<close>: number and content of calls (C9), replayed bodies (C19), delays (C37), the budget (C20).
  \<^item> \<open>Router\<close>: first match (C28) and round robin (C29).
  \<^item> \<open>Header_Ops\<close> (\<^verbatim>\<open>modify_headers.rs\<close>, C24), \<open>Url_Rewrite\<close> (C25), \<open>Traffic_Logger\<close> (C6), \<open>Throttle\<close>
    (\<^verbatim>\<open>bandwidth_throttle.rs\<close>, C11), \<open>Block_List\<close>, \<open>Conditional\<close>, \<open>Content_Decoder\<close>, and \<open>Injectors\<close>
    (\<^verbatim>\<open>fault_injector.rs\<close>, \<^verbatim>\<open>latency_injector.rs\<close>, \<^verbatim>\<open>set_response.rs\<close>, \<^verbatim>\<open>from_fn.rs\<close>).
  \<^item> \<open>Script_Shim\<close> (\<^verbatim>\<open>script_runtime.js\<close>) and \<open>Script\<close> (\<^verbatim>\<open>script.rs\<close>): any handler a user may write, as a tree of
    uses of the shim; at most one call of the inner service (C10), the forwarding script (C26).

  The proxy.
  \<^item> \<open>Forwarding\<close>: \<^verbatim>\<open>http.rs\<close>; hop-by-hop headers (C7, C27).
  \<^item> \<open>Handshake\<close>: the CONNECT handshake of \<^verbatim>\<open>lib.rs\<close>; only with a credential (C3).
  \<^item> \<open>Accept_Loop\<close>: \<^verbatim>\<open>listen_on_with_shutdown\<close> as a step relation with an executable counterpart; permits (C12)
    and when a signal is not seen (C38).
  \<^item> \<open>Tunnel\<close>: upgraded connections; when the watchdog ends (C30).
  \<^item> \<open>Proxy\<close>: the rest of \<^verbatim>\<open>lib.rs\<close>: builder, \<^verbatim>\<open>build\<close>, service chain, hyper adapter, connections.

  Configuration and command line.
  \<^item> \<open>Config_Text\<close>: durations (C40), patterns, match specifications.  \<open>Config_Tree\<close>: the walk over the rules (C23)
    and the resolution of shadowing (C13, C39).  \<open>Config_Emit\<close>: every rule as a layer, settings, listeners.
  \<^item> \<open>Cli\<close>: \<^verbatim>\<open>main.rs\<close>; credentials of the command line are enforced by every forward listener (C2).

  This theory holds the properties that go through several components: from the configuration file to the
  answer of a compiled listener (C1), and a breaker in front of a failing chain (C22).

  \<^bold>\<open>Bounds and termination\<close>

  No definition uses fuel.  Loops of the code are structural recursion on the data they consume (frames, reads,
  rules, requests), on the attempts that are left (\<open>retry_loop\<close>) or on the text that is left
  (\<open>str_replace\<close>).  The idle watchdog may run forever: it is a partial function whose
  value \<open>None\<close> is exactly that, and C30 says when it returns.  Asynchronous computations that may hang have an optional
  duration.  The accept loop is a relation, and its properties hold for runs of any length.

  \<^bold>\<open>Not modelled\<close>

  \<^item> \<^verbatim>\<open>NoCertVerifier\<close> and the \<^verbatim>\<open>rustls\<close> configuration: what they decide is inside TLS, which is a parameter.
  \<^item> \<^verbatim>\<open>UpstreamIo\<close>: delegation of reads and writes to one of two streams.
  \<^item> Parsing of KDL and of arguments: the code is generated by \<^verbatim>\<open>knus\<close> and \<^verbatim>\<open>clap\<close>; the model starts from the
    parsed values, and the annotations of the fields (defaults, names) are not part of it.
  \<^item> The threads of the script engine, the module loader and the channels: a command is handled at once.  A
    handler of the user that does not end, or that calls the engine's own API, is outside the model.
  \<^item> \<^verbatim>\<open>Buffer\<close>, \<^verbatim>\<open>poll_ready\<close>, \<^verbatim>\<open>Clone\<close> and \<^verbatim>\<open>Debug\<close> implementations, type aliases, and log messages of \<^verbatim>\<open>tracing\<close>.
  \<^item> \<^verbatim>\<open>listen\<close>, \<^verbatim>\<open>listen_on\<close> and \<^verbatim>\<open>listen_with_shutdown\<close>, which bind a socket and call the accept loop.
  \<^item> Concurrency inside one request: futures of one service run one after the other.  Interleaving of requests
    is explicit where the state is shared, in the traces of the stores and the steps of the accept loop.
\<close>

section \<open>From the configuration file to the answer\<close>


definition respond_example :: "string \<Rightarrow> rule_node" where
  "respond_example body = RN_Respond \<lparr>rsc_body = body, rsc_status = None\<rparr>"

definition reverse_example :: reverse_listener where
  "reverse_example =
     \<lparr>rv_port = 80, rv_bind = None, rv_upstream = ''http://u'', rv_tls = None, rv_redis = None,
      rv_body = [respond_example ''all'', RN_Path (Path_Match ''/x'' None None [respond_example ''x''])]\<rparr>"

definition settings_example :: process_settings where
  "settings_example =
     \<lparr>ps_accept_invalid_upstream_certs = False, ps_handshake_timeout = None, ps_idle_timeout = None,
      ps_connect_timeout = None, ps_request_timeout = None, ps_max_connections = None, ps_drain_timeout = None,
      ps_pool_max_idle_per_host = None, ps_pool_idle_timeout = None\<rparr>"

definition example_authority :: authority where
  "example_authority = \<lparr>auth_text = ''u'', auth_host = ''u'', auth_port = None\<rparr>"

definition compile_example :: "world platform \<Rightarrow> world compile_params" where
  "compile_example pf =
     \<lparr>cp_platform = pf\<lparr>pf_glob := (\<lambda>p. Some (\<lambda>s. s = p)),
        pf_http := \<lparr>hp_method_of = Some,
          hp_parse_uri = (\<lambda>_. Some \<lparr>uri_scheme = Some ''http'', uri_authority = Some example_authority, uri_path_and_query = None\<rparr>),
          hp_header_name = Some, hp_header_value = (\<lambda>v. Some (Visible v))\<rparr>\<rparr>,
      cp_valid_url = (\<lambda>_. True), cp_now = (\<lambda>_. 0), cp_deno_ast = \<lparr>da_is_emittable = \<lambda>_. False, da_specifier = \<lambda>_. True, da_transpile = \<lambda>_. Inr\<rparr>, cp_read_file = Inr,
      cp_from_pem_files = (\<lambda>c k. Inr (c, k)), cp_read_identity = (\<lambda>c k. Inr (c, k)), cp_with_single_cert = (\<lambda>_. Inr ())\<rparr>"

definition decls_example :: "decl list" where
  "decls_example = resolve_exclusions
     [\<lparr>dc_path = [0], dc_scope_pred = None, dc_excluded_preds = [], dc_leaf = respond_example ''all'', dc_redis = None,
       dc_scope_label = []\<rparr>,
      \<lparr>dc_path = [0, 1], dc_scope_pred = Some (spec_accepts [] None None (Some (PM_Glob (\<lambda>s. s = ''/x'')))), dc_excluded_preds = [],
       dc_leaf = respond_example ''x'', dc_redis = None, dc_scope_label = show_nat 0\<rparr>]"

lemma walk_example:
  "walk_listener_body (walk_params_of (compile_example pf)) [] (rv_body reverse_example) None [] = Inr (decls_example, [])"
  by (simp add: compile_example_def reverse_example_def respond_example_def decls_example_def
      walk_listener_body_def walk_params_of_def walk_match_def into_predicate_def and_predicates_def
      match_spec_default_def traverse_opt_def compile_glob_def compile_path_glob_def ok_or_def and_then_def
      push_pred_def push_redis_def push_scope_def leave_match_def Let_def leaf_decl_def current_scope_def
      strip_suffix_def strip_prefix_def)

lemma compile_example_ok:
  "\<exists>cl. compile_reverse (compile_example pf) [] settings_example None reverse_example [] = Inr (cl, [])"
proof -
  let ?b = "(pb_new :: world proxy_builder)\<lparr>pb_upstream_target := Some (example_authority, ''http'')\<rparr>"
  have none: "pb_tls_identity (pb_new :: world proxy_builder) = None" by (simp add: pb_new_def)
  obtain b' where b': "emit_decls (compile_example pf) decls_example ?b = Inr b'"
      "pb_upstream_target b' = pb_upstream_target ?b" "pb_tls_identity b' = pb_tls_identity ?b"
    by (simp add: decls_example_def resolve_exclusions_map upt_rec respond_example_def emit_decl_def emit_respond_def
        status_code_def and_then_def apply_layer_layers)
  have "apply_process_settings settings_example pb_new = Inr (pb_new :: world proxy_builder)"
    by (simp add: apply_process_settings_def settings_example_def opt_duration_def opt_set_def and_then_def)
  moreover have "pb_reverse_proxy (hp_parse_uri (pf_http (cp_platform (compile_example pf)))) (rv_upstream reverse_example) pb_new = Inr ?b"
    by (simp add: pb_reverse_proxy_def compile_example_def ok_or_def and_then_def)
  moreover have "\<exists>px. proxy_build (cp_with_single_cert (compile_example pf)) b' = Inr px"
    using b'(2,3) none by (simp add: proxy_build_def and_then_def Let_def)
  ultimately show ?thesis using walk_example [of pf] b'(1)
    by (auto simp: compile_reverse_def listener_initial_redis_def and_then_def reverse_example_def)
qed

lemma innermost_example: "innermost decls_example tree_example_request d \<longleftrightarrow> d = decls_example ! 1"
  by (auto simp: innermost_def decls_example_def resolve_exclusions_map upt_rec holds_at_def shadows_def starts_with_def
      spec_accepts_def tree_example_request_def uri_path_def respond_example_def)


section \<open>A failed probe\<close>

text \<open>What the theorem needs of the services below the breaker: calling them neither moves the clock nor
  touches the breaker's state, and their future fails.\<close>

definition quiet_call :: "world service \<Rightarrow> request \<Rightarrow> bool" where
  "quiet_call svc req \<longleftrightarrow> (\<forall>w. wd_cb (snd (svc req w)) 0 = wd_cb w 0 \<and> wd_clock (snd (svc req w)) = wd_clock w)"

definition fails_with :: "rust_error \<Rightarrow> world service \<Rightarrow> request \<Rightarrow> bool" where
  "fails_with e svc req \<longleftrightarrow>
     (\<forall>w w2. fst (fst (svc req w) w2) = Inl e \<and> wd_cb (snd (fst (svc req w) w2)) 0 = wd_cb w2 0)"

definition breaker_state :: "world \<Rightarrow> string \<Rightarrow> cb_state option" where
  "breaker_state w key =
     (case wd_cb w 0 of Unlocked s \<Rightarrow> map_option ce_state (map_of (cb_circuits s) key) | Poisoned \<Rightarrow> None)"

lemma cb_check_present:
  assumes "map_of (cb_circuits s) key = Some e" "now < cb_next_cleanup s"
  shows "cb_check now now key s =
     (case cb_check_state (cb_half_open_probes s) now (ce_state e) of
        (a, st) \<Rightarrow> (a, s\<lparr>cb_circuits := AList.update key \<lparr>ce_state = st, ce_last_seen = now\<rparr> (cb_circuits s)\<rparr>))"
proof -
  have "contains_key (cb_circuits s) key" using assms(1) by (simp add: contains_key_def)
  then show ?thesis using assms
    by (simp add: cb_check_def cb_maybe_cleanup_def cb_evict_if_needed_def evict_oldest_def entry_or_insert_def Let_def
        split: prod.split)
qed

lemma cb_store_check_world:
  assumes "wd_cb w 0 = Unlocked s"
  shows "cb_store_check world_env (cb_cell 0) key w =
     (case cb_check (wd_clock w) (wd_clock w) key s of
        (a, s') \<Rightarrow> (Inr a, cell_put (cb_cell 0) (Unlocked s') w))"
  using assms cb_mutex.lock_unlocked [of 0 w s "\<lambda>st. Inr (cb_check (wd_clock w) (wd_clock w) key st)"]
  by (cases "cb_check (wd_clock w) (wd_clock w) key s") (auto simp: cb_store_check_def cb_cell_def)

lemma breaker_chain:
  assumes "px_layers px = MW_Circuit_Breaker st b # ms"
  shows "build_service_chain (on_world pf) px a sch =
     cb_call (cb_store_check world_env (cb_cell 0)) (cb_store_record world_env (cb_cell 0)) b
       (wrap_layers (on_world pf) 1 ms (upstream_service (on_world pf) px a sch))"
  using assms by (simp add: build_service_chain_def upstream_service_def on_world_def)


definition aborting :: fault_injector where
  "aborting = \<lparr>fi_abort_rate = 1, fi_error_rate = 0, fi_error_status = 500\<rparr>"

definition probing_store :: cb_shared where
  "probing_store =
     \<lparr>cb_circuits = [(''unknown'', \<lparr>ce_state = Open 20, ce_last_seen = 10\<rparr>)], cb_threshold = 1, cb_recovery = 10,
      cb_half_open_probes = 1, cb_max_keys = 10, cb_idle_ttl = 1000, cb_next_cleanup = 500\<rparr>"

definition probing_layers :: "world middleware list" where
  "probing_layers = [MW_Circuit_Breaker (Unlocked probing_store) (cb_with_store (\<lambda>_. ''unknown'')), MW_Fault aborting]"

lemma aborting_inner:
  assumes "inner = wrap_layers (on_world (pf\<lparr>pf_roll := \<lambda>w. (0, w)\<rparr>)) 1 [MW_Fault aborting] svc"
  shows "quiet_call inner req" "fails_with (Box_Error ''fault injector: connection aborted'') inner req"
  using assms by (simp_all add: quiet_call_def fails_with_def on_world_def fi_call_def aborting_def ready_def)


end
